(* ===== verification/Prelude.thy ===== *)
theory Prelude
  imports Main "HOL-Library.Word" "HOL-Library.Product_Lexorder"
begin

text \<open>
  Shared vocabulary of the development.

  \<^item> Types: byte strings, accounts and instants (microseconds, the resolution of the
    database's \<open>TIMESTAMPTZ\<close>).
  \<^item> Programs: an asynchronous Rust function that may fail is a state transformer that
    returns a sum, \<open>Inl\<close> for the error. \<open>bindE\<close> is the \<open>?\<close> operator,
    \<open>attempt\<close> turns the result into a value (a \<open>match\<close> on a \<open>Result\<close>), \<open>forE\<close> is a
    \<open>for\<close> loop whose body uses \<open>?\<close>.
  \<^item> The database: a \<open>stmt\<close> is one SQL statement. Before every statement the
    environment may run other processes' statements (\<open>e_others\<close>), the clock is read
    (\<open>e_clock\<close>) and the statement may fail (\<open>e_fault\<close>), each indexed by a step counter, so
    a theorem for every environment is a theorem about every interleaving, clock and fault.
  \<^item> Partial correctness triples for programs, and the string functions of the Rust
    standard library that the components use.
\<close>

named_theorems prog_intro \<open>introduction rules for triples over programs\<close>
named_theorems stmt_simps \<open>statements of the data layer, unfolded\<close>

section \<open>Bytes, accounts, instants\<close>

type_synonym u8 = "8 word"
type_synonym u16 = "16 word"
type_synonym u32 = "32 word"
type_synonym u64 = "64 word"
type_synonym u128 = "128 word"
type_synonym bytes = "u8 list"
type_synonym account = bytes
type_synonym instant = int

abbreviation secs :: "int \<Rightarrow> int" where
  "secs n \<equiv> n * 1000000"

definition unix_timestamp :: "instant \<Rightarrow> int" where
  "unix_timestamp t = t div 1000000"

text \<open>A fixed-size array \<open>[u8; n]\<close> from a slice: \<open>try_into\<close> fails on another length.\<close>

definition try_array :: "nat \<Rightarrow> bytes \<Rightarrow> bytes option" where
  "try_array n bs = (if length bs = n then Some bs else None)"

lemma try_array_eq_Some [simp]: "try_array n bs = Some cs \<longleftrightarrow> cs = bs \<and> length bs = n"
  by (auto simp: try_array_def)

text \<open>The bytes of a Rust string (a HOL \<open>char\<close> is one byte).\<close>

definition as_bytes :: "string \<Rightarrow> bytes" where
  "as_bytes s = map (\<lambda>c. word_of_nat (of_char c)) s"

lemma length_as_bytes [simp]: "length (as_bytes s) = length s"
  by (simp add: as_bytes_def)

lemma of_char_lt_256: "(of_char c :: nat) < 256"
  by simp

lemma as_bytes_inj [simp]: "as_bytes s = as_bytes t \<longleftrightarrow> s = t"
proof
  assume "as_bytes s = as_bytes t"
  moreover have "inj (\<lambda>c. word_of_nat (of_char c) :: u8)"
  proof (rule injI)
    fix c d :: char
    assume "(word_of_nat (of_char c) :: u8) = word_of_nat (of_char d)"
    then have "unat (word_of_nat (of_char c) :: u8) = unat (word_of_nat (of_char d) :: u8)"
      by simp
    then have "(of_char c :: nat) = of_char d"
      by (simp add: unat_of_nat)
    then show "c = d"
      by simp
  qed
  ultimately show "s = t"
    by (simp add: as_bytes_def inj_map_eq_map)
qed simp

section \<open>Saturating arithmetic\<close>

definition sat_i64 :: "int \<Rightarrow> int" where
  "sat_i64 x = max (- (2 ^ 63)) (min (2 ^ 63 - 1) x)"

lemma sat_i64_id: "- (2 ^ 63) \<le> x \<Longrightarrow> x < 2 ^ 63 \<Longrightarrow> sat_i64 x = x"
  by (simp add: sat_i64_def)

lemma sat_i64_mono: "x \<le> y \<Longrightarrow> sat_i64 x \<le> sat_i64 y"
  by (auto simp: sat_i64_def)

definition saturating_add :: "'w::len word \<Rightarrow> 'w word \<Rightarrow> 'w word" where
  "saturating_add a b = (if unat a + unat b < 2 ^ LENGTH('w) then a + b else - 1)"

definition saturating_sub :: "'w::len word \<Rightarrow> 'w word \<Rightarrow> 'w word" where
  "saturating_sub a b = (if a < b then 0 else a - b)"

lemma unat_saturating_add:
  "unat (saturating_add a b) = min (unat a + unat b) (2 ^ LENGTH('w) - 1)"
  for a b :: "'w::len word"
proof (cases "unat a + unat b < 2 ^ LENGTH('w)")
  case True
  then show ?thesis by (simp add: saturating_add_def unat_word_ariths)
next
  case False
  have "unat (- 1 :: 'w word) = 2 ^ LENGTH('w) - 1"
    by (simp add: unsigned_minus_1_eq_mask mask_eq_exp_minus_1)
  with False show ?thesis by (simp add: saturating_add_def)
qed

lemma unat_saturating_sub: "unat (saturating_sub a b) = unat a - unat b"
  by (auto simp: saturating_sub_def word_less_nat_alt unat_sub word_le_nat_alt not_less)

lemma sint_u64_small: "unat w < 2 ^ 63 \<Longrightarrow> sint w = int (unat w)"
  for w :: u64
proof -
  assume a: "unat w < 2 ^ 63"
  have u: "uint w = int (unat w)" by simp
  have "int (unat w) < int (2 ^ 63)" using a by (simp only: of_nat_less_iff)
  then have "int (unat w) < 2 ^ 63" by simp
  moreover have "- (2 ^ 63) \<le> (0 :: int)" by simp
  then have "- (2 ^ 63) \<le> int (unat w)" by (rule order_trans) (rule of_nat_0_le_iff)
  ultimately have "signed_take_bit 63 (uint w) = int (unat w)"
    unfolding u by (intro signed_take_bit_int_eq_self)
  then show ?thesis by (simp add: sint_uint)
qed

section \<open>Strings\<close>

fun contains_str :: "string \<Rightarrow> string \<Rightarrow> bool" where
  "contains_str [] p = (p = [])"
| "contains_str (c # cs) p = (take (length p) (c # cs) = p \<or> contains_str cs p)"

definition strip_prefix :: "string \<Rightarrow> string \<Rightarrow> string option" where
  "strip_prefix p s = (if take (length p) s = p then Some (drop (length p) s) else None)"

fun split_once :: "char \<Rightarrow> string \<Rightarrow> (string \<times> string) option" where
  "split_once c [] = None"
| "split_once c (x # xs) =
     (if x = c then Some ([], xs)
      else map_option (\<lambda>(a, b). (x # a, b)) (split_once c xs))"

lemma contains_str_iff: "contains_str s p \<longleftrightarrow> (\<exists>a b. s = a @ p @ b)"
proof (induction s)
  case Nil
  then show ?case by auto
next
  case (Cons c cs)
  have "(take (length p) (c # cs) = p) \<longleftrightarrow> (\<exists>b. c # cs = p @ b)"
    by (metis append_eq_conv_conj append_take_drop_id)
  moreover have "(\<exists>a b. c # cs = a @ p @ b) \<longleftrightarrow>
      (\<exists>b. c # cs = p @ b) \<or> (\<exists>a b. cs = a @ p @ b)"
    by (metis append_Cons append_Nil append_eq_Cons_conv)
  ultimately show ?case
    using Cons.IH by simp
qed

lemma contains_str_self [simp]: "contains_str (a @ p @ b) p"
  by (auto simp: contains_str_iff)

lemma contains_str_prefix [simp]: "contains_str (p @ b) p"
  unfolding contains_str_iff by (rule exI [of _ "[]"]) simp

lemma contains_str_suffix [simp]: "contains_str (a @ p) p"
  unfolding contains_str_iff by (rule exI [of _ a]) simp

lemma strip_prefix_append [simp]: "strip_prefix p (p @ s) = Some s"
  by (simp add: strip_prefix_def)

lemma strip_prefix_SomeD: "strip_prefix p s = Some r \<Longrightarrow> s = p @ r"
  by (auto simp: strip_prefix_def split: if_splits) (metis append_take_drop_id)

lemma split_once_None: "split_once c s = None \<longleftrightarrow> c \<notin> set s"
  by (induction s) auto

lemma split_once_append:
  "c \<notin> set a \<Longrightarrow> split_once c (a @ c # b) = Some (a, b)"
  by (induction a) auto

lemma split_once_SomeD:
  "split_once c s = Some (a, b) \<Longrightarrow> s = a @ c # b \<and> c \<notin> set a"
  by (induction s arbitrary: a) (auto split: if_splits)

section \<open>Decimal rendering\<close>

definition digit_char :: "nat \<Rightarrow> char" where
  "digit_char n = char_of (48 + n)"

fun nat_to_string :: "nat \<Rightarrow> string" where
  "nat_to_string n =
     (if n < 10 then [digit_char n] else nat_to_string (n div 10) @ [digit_char (n mod 10)])"

declare nat_to_string.simps [simp del]

definition int_to_string :: "int \<Rightarrow> string" where
  "int_to_string i = (if i < 0 then ''-'' @ nat_to_string (nat (- i)) else nat_to_string (nat i))"

text \<open>Rust's \<open>{:02}\<close> on a value below 100.\<close>

definition two_digits :: "nat \<Rightarrow> string" where
  "two_digits n = (if n < 10 then ''0'' @ nat_to_string n else nat_to_string n)"

lemma length_two_digits: "n < 100 \<Longrightarrow> length (two_digits n) = 2"
  by (auto simp: two_digits_def nat_to_string.simps [of n] nat_to_string.simps [of "n div 10"])

lemma digit_char_inj: "m < 10 \<Longrightarrow> n < 10 \<Longrightarrow> digit_char m = digit_char n \<longleftrightarrow> m = n"
  by (simp add: digit_char_def char_of_eq_iff take_bit_eq_mod)

section \<open>Programs\<close>

type_synonym ('s, 'e, 'a) prog = "'s \<Rightarrow> ('e + 'a) \<times> 's"

definition ret :: "'a \<Rightarrow> ('s, 'e, 'a) prog" where
  "ret a s = (Inr a, s)"

definition throw :: "'e \<Rightarrow> ('s, 'e, 'a) prog" where
  "throw e s = (Inl e, s)"

definition bindE :: "('s, 'e, 'a) prog \<Rightarrow> ('a \<Rightarrow> ('s, 'e, 'b) prog) \<Rightarrow> ('s, 'e, 'b) prog" where
  "bindE m f s = (case m s of (Inl e, s') \<Rightarrow> (Inl e, s') | (Inr a, s') \<Rightarrow> f a s')"

definition attempt :: "('s, 'e, 'a) prog \<Rightarrow> ('s, 'f, 'e + 'a) prog" where
  "attempt m s = (case m s of (r, s') \<Rightarrow> (Inr r, s'))"

definition map_err :: "('e \<Rightarrow> 'f) \<Rightarrow> ('s, 'e, 'a) prog \<Rightarrow> ('s, 'f, 'a) prog" where
  "map_err g m s = (case m s of (Inl e, s') \<Rightarrow> (Inl (g e), s') | (Inr a, s') \<Rightarrow> (Inr a, s'))"

definition gets :: "('s \<Rightarrow> 'a) \<Rightarrow> ('s, 'e, 'a) prog" where
  "gets f s = (Inr (f s), s)"

definition modify :: "('s \<Rightarrow> 's) \<Rightarrow> ('s, 'e, unit) prog" where
  "modify f s = (Inr (), f s)"

fun forE :: "('a \<Rightarrow> ('s, 'e, unit) prog) \<Rightarrow> 'a list \<Rightarrow> ('s, 'e, unit) prog" where
  "forE f [] = ret ()"
| "forE f (x # xs) = bindE (f x) (\<lambda>_. forE f xs)"

fun mapE :: "('a \<Rightarrow> ('s, 'e, 'b) prog) \<Rightarrow> 'a list \<Rightarrow> ('s, 'e, 'b list) prog" where
  "mapE f [] = ret []"
| "mapE f (x # xs) = bindE (f x) (\<lambda>y. bindE (mapE f xs) (\<lambda>ys. ret (y # ys)))"

text \<open>
  A partial correctness triple: started in a state satisfying \<open>P\<close>, the program ends
  in a state satisfying \<open>Q\<close> of its result or \<open>E\<close> of its error.
\<close>

definition valid ::
  "('s \<Rightarrow> bool) \<Rightarrow> ('s, 'e, 'a) prog \<Rightarrow> ('a \<Rightarrow> 's \<Rightarrow> bool) \<Rightarrow> ('e \<Rightarrow> 's \<Rightarrow> bool) \<Rightarrow> bool" where
  "valid P m Q E \<longleftrightarrow>
     (\<forall>s. P s \<longrightarrow> (case m s of (Inl e, s') \<Rightarrow> E e s' | (Inr a, s') \<Rightarrow> Q a s'))"

abbreviation keeps :: "('s \<Rightarrow> bool) \<Rightarrow> ('s, 'e, 'a) prog \<Rightarrow> bool" where
  "keeps I m \<equiv> valid I m (\<lambda>_. I) (\<lambda>_. I)"

lemma validI:
  assumes "\<And>s a s'. P s \<Longrightarrow> m s = (Inr a, s') \<Longrightarrow> Q a s'"
    and "\<And>s e s'. P s \<Longrightarrow> m s = (Inl e, s') \<Longrightarrow> E e s'"
  shows "valid P m Q E"
  using assms by (auto simp: valid_def split: prod.split sum.split)

lemma validD_Inr: "valid P m Q E \<Longrightarrow> P s \<Longrightarrow> m s = (Inr a, s') \<Longrightarrow> Q a s'"
  by (fastforce simp: valid_def)

lemma validD_Inl: "valid P m Q E \<Longrightarrow> P s \<Longrightarrow> m s = (Inl e, s') \<Longrightarrow> E e s'"
  by (fastforce simp: valid_def)

lemma keepsD: "keeps I m \<Longrightarrow> I s \<Longrightarrow> I (snd (m s))"
  by (cases "m s"; cases "fst (m s)") (auto simp: valid_def)

lemma keepsI: "(\<And>s. I s \<Longrightarrow> I (snd (m s))) \<Longrightarrow> keeps I m"
  unfolding valid_def by (metis (mono_tags, lifting) case_prod_unfold old.sum.simps(5,6) sum.exhaust_sel)

lemma valid_ret [prog_intro]: "(\<And>s. P s \<Longrightarrow> Q a s) \<Longrightarrow> valid P (ret a) Q E"
  by (simp add: valid_def ret_def)

lemma valid_throw [prog_intro]: "(\<And>s. P s \<Longrightarrow> E e s) \<Longrightarrow> valid P (throw e) Q E"
  by (simp add: valid_def throw_def)

lemma valid_bindE:
  assumes "valid P m R E" and "\<And>a. valid (R a) (f a) Q E"
  shows "valid P (bindE m f) Q E"
  using assms by (fastforce simp: valid_def bindE_def split: prod.splits sum.splits)

lemma keeps_bindE [prog_intro]: "keeps I m \<Longrightarrow> (\<And>a. keeps I (f a)) \<Longrightarrow> keeps I (bindE m f)"
  by (rule valid_bindE)

lemma valid_attempt:
  assumes "valid P m (\<lambda>a. Q (Inr a)) (\<lambda>e. Q (Inl e))"
  shows "valid P (attempt m) Q E"
proof (rule validI)
  fix s r s'
  assume "P s" and "attempt m s = (Inr r, s')"
  with assms show "Q r s'"
    by (cases r) (auto simp: attempt_def split: prod.splits dest: validD_Inr validD_Inl)
qed (auto simp: attempt_def split: prod.splits)

lemma keeps_attempt [prog_intro]: "keeps I m \<Longrightarrow> keeps I (attempt m)"
  by (rule valid_attempt)

lemma valid_map_err [prog_intro]:
  "valid P m Q (\<lambda>e. E (g e)) \<Longrightarrow> valid P (map_err g m) Q E"
  by (fastforce simp: valid_def map_err_def split: prod.splits sum.splits)

lemma keeps_gets [prog_intro]: "keeps I (gets f)"
  by (simp add: valid_def gets_def)

lemma valid_modify [prog_intro]: "(\<And>s. P s \<Longrightarrow> Q () (f s)) \<Longrightarrow> valid P (modify f) Q E"
  by (simp add: valid_def modify_def)

lemma keeps_forE [prog_intro]:
  assumes "\<And>x. x \<in> set xs \<Longrightarrow> keeps I (f x)"
  shows "keeps I (forE f xs)"
  using assms by (induction xs) (auto intro!: prog_intro)

lemma keeps_mapE [prog_intro]:
  assumes "\<And>x. x \<in> set xs \<Longrightarrow> keeps I (f x)"
  shows "keeps I (mapE f xs)"
  using assms by (induction xs) (auto intro!: prog_intro)

lemma keeps_if [prog_intro]:
  "(b \<Longrightarrow> valid P m Q E) \<Longrightarrow> (\<not> b \<Longrightarrow> valid P n Q E) \<Longrightarrow> valid P (if b then m else n) Q E"
  by simp

lemma valid_case_option [prog_intro]:
  "(x = None \<Longrightarrow> valid P m Q E) \<Longrightarrow> (\<And>a. x = Some a \<Longrightarrow> valid P (f a) Q E) \<Longrightarrow>
   valid P (case x of None \<Rightarrow> m | Some a \<Rightarrow> f a) Q E"
  by (cases x) auto

lemma valid_case_sum [prog_intro]:
  "(\<And>a. x = Inl a \<Longrightarrow> valid P (f a) Q E) \<Longrightarrow> (\<And>b. x = Inr b \<Longrightarrow> valid P (g b) Q E) \<Longrightarrow>
   valid P (case x of Inl a \<Rightarrow> f a | Inr b \<Rightarrow> g b) Q E"
  by (cases x) auto

lemma valid_case_prod [prog_intro]:
  "(\<And>a b. x = (a, b) \<Longrightarrow> valid P (f a b) Q E) \<Longrightarrow> valid P (case x of (a, b) \<Rightarrow> f a b) Q E"
  by (cases x) auto

lemma valid_weaken:
  assumes "valid P m Q E" and "\<And>s. P' s \<Longrightarrow> P s"
    and "\<And>a s. Q a s \<Longrightarrow> Q' a s" and "\<And>e s. E e s \<Longrightarrow> E' e s"
  shows "valid P' m Q' E'"
  using assms by (fastforce simp: valid_def split: prod.splits sum.splits)

text \<open>Reading a successful run backwards.\<close>

lemma bindE_Inr_iff:
  "bindE m f s = (Inr b, s') \<longleftrightarrow> (\<exists>a s1. m s = (Inr a, s1) \<and> f a s1 = (Inr b, s'))"
  by (auto simp: bindE_def split: prod.splits sum.splits)

lemma valid_conj_pure: "(p \<Longrightarrow> valid P m Q X) \<Longrightarrow> valid (\<lambda>s. P s \<and> p) m Q X"
  by (cases p) (auto simp: valid_def)

lemma valid_error: "valid P m Q (\<lambda>_. P) \<Longrightarrow> (\<And>s. P s \<Longrightarrow> X s) \<Longrightarrow> valid P m Q (\<lambda>_. X)"
  by (erule valid_weaken) auto

lemma keeps_bind_result:
  assumes "keeps I m" "\<And>a s0 s1. m s0 = (Inr a, s1) \<Longrightarrow> keeps I (f a)"
  shows "keeps I (bindE m f)"
proof (rule validI)
  fix s b s'
  assume s: "I s" "bindE m f s = (Inr b, s')"
  then obtain a s1 where "m s = (Inr a, s1)" "f a s1 = (Inr b, s')" by (auto simp: bindE_Inr_iff)
  with s assms show "I s'" by (metis keepsD snd_conv)
next
  fix s e s'
  assume s: "I s" "bindE m f s = (Inl e, s')"
  obtain r s1 where r: "m s = (r, s1)" by (metis surj_pair)
  have "I s1" using keepsD [OF assms(1) s(1)] r by simp
  with s r assms(2) show "I s'" by (cases r) (auto simp: bindE_def dest: validD_Inl)
qed

lemma run_Inr_iffs:
  "ret a s = (Inr b, s') \<longleftrightarrow> b = a \<and> s' = s" "throw e s = (Inr b, s') \<longleftrightarrow> False"
  "map_err g m s = (Inr b, s') \<longleftrightarrow> m s = (Inr b, s')"
  "attempt m s = (Inr r, s') \<longleftrightarrow> m s = (r, s')"
  by (auto simp: ret_def throw_def map_err_def attempt_def split: prod.splits sum.splits)

section \<open>The database\<close>

record 'tb world =
  w_db :: 'tb
  w_step :: nat

record 'tb env =
  e_clock :: "nat \<Rightarrow> instant"
  e_fault :: "nat \<Rightarrow> string option"
  e_others :: "nat \<Rightarrow> 'tb \<Rightarrow> 'tb"

type_synonym ('tb, 'a) stmt = "instant \<Rightarrow> 'tb \<Rightarrow> 'a \<times> 'tb"

text \<open>One statement on the pool: an error leaves the tables as they were.\<close>

definition sql :: "'tb env \<Rightarrow> ('tb, 'a) stmt \<Rightarrow> ('tb world, string, 'a) prog" where
  "sql E st w =
     (let n = w_step w; t = e_others E n (w_db w)
      in case e_fault E n of
           Some e \<Rightarrow> (Inl e, w\<lparr>w_db := t, w_step := Suc n\<rparr>)
         | None \<Rightarrow> (case st (e_clock E n) t of
             (a, t') \<Rightarrow> (Inr a, w\<lparr>w_db := t', w_step := Suc n\<rparr>)))"

text \<open>
  A statement inside a transaction. The transaction runs as one atomic step (the
  locks its first statement takes exclude conflicting writers until it ends), with
  \<open>now()\<close> fixed at its start, as in PostgreSQL.
\<close>

definition tx_sql :: "'tb env \<Rightarrow> instant \<Rightarrow> ('tb, 'a) stmt \<Rightarrow> ('tb world, string, 'a) prog" where
  "tx_sql E now st w =
     (let n = w_step w
      in case e_fault E n of
           Some e \<Rightarrow> (Inl e, w\<lparr>w_step := Suc n\<rparr>)
         | None \<Rightarrow> (case st now (w_db w) of (a, t') \<Rightarrow> (Inr a, w\<lparr>w_db := t', w_step := Suc n\<rparr>)))"

datatype 'a tx_end = Commit 'a | Rollback 'a

text \<open>
  \<open>pool.begin()\<close>, the body, then \<open>commit()\<close>; leaving the body with an error or without
  a commit drops the transaction, which rolls every statement of it back.
\<close>

definition transaction ::
  "'tb env \<Rightarrow> (string \<Rightarrow> 'e) \<Rightarrow> (instant \<Rightarrow> ('tb world, 'e, 'a tx_end) prog) \<Rightarrow>
   ('tb world, 'e, 'a) prog" where
  "transaction E err body w =
     (let n = w_step w; t = e_others E n (w_db w); w0 = w\<lparr>w_db := t, w_step := Suc n\<rparr>
      in case e_fault E n of
           Some e \<Rightarrow> (Inl (err e), w0)
         | None \<Rightarrow> (case body (e_clock E n) w0 of
             (Inl e, w1) \<Rightarrow> (Inl e, w1\<lparr>w_db := t\<rparr>)
           | (Inr (Rollback a), w1) \<Rightarrow> (Inr a, w1\<lparr>w_db := t\<rparr>)
           | (Inr (Commit a), w1) \<Rightarrow>
               (case e_fault E (w_step w1) of
                  Some e \<Rightarrow> (Inl (err e), w1\<lparr>w_db := t, w_step := Suc (w_step w1)\<rparr>)
                | None \<Rightarrow> (Inr a, w1\<lparr>w_step := Suc (w_step w1)\<rparr>))))"

text \<open>An answer of a remote service at the current step.\<close>

definition remote :: "(nat \<Rightarrow> 'e + 'a) \<Rightarrow> ('tb world, 'e, 'a) prog" where
  "remote f w = (f (w_step w), w\<lparr>w_step := Suc (w_step w)\<rparr>)"

text \<open>\<open>OffsetDateTime::now_utc()\<close>: the process clock, read at a step of its own.\<close>

definition now_utc :: "'tb env \<Rightarrow> ('tb world, 'e, instant) prog" where
  "now_utc E = remote (\<lambda>n. Inr (e_clock E n))"

definition lift_result :: "'e + 'a \<Rightarrow> ('s, 'e, 'a) prog" where
  "lift_result r = (case r of Inl e \<Rightarrow> throw e | Inr a \<Rightarrow> ret a)"

definition stable :: "'tb env \<Rightarrow> ('tb \<Rightarrow> bool) \<Rightarrow> bool" where
  "stable E I \<longleftrightarrow> (\<forall>n t. I t \<longrightarrow> I (e_others E n t))"

abbreviation on_db :: "('tb \<Rightarrow> bool) \<Rightarrow> 'tb world \<Rightarrow> bool" where
  "on_db I \<equiv> \<lambda>w. I (w_db w)"

lemma keeps_sql [prog_intro]:
  assumes "stable E I" and "\<And>now t. I t \<Longrightarrow> I (snd (st now t))"
  shows "keeps (on_db I) (sql E st)"
  using assms
  by (auto simp: valid_def sql_def stable_def Let_def split: option.splits prod.splits)
     (metis snd_conv)

lemma keeps_remote [prog_intro]: "keeps (on_db I) (remote f)"
  by (auto simp: valid_def remote_def split: sum.splits)

lemma keeps_now_utc [prog_intro]: "keeps (on_db I) (now_utc E)"
  unfolding now_utc_def by (rule keeps_remote)

lemma keeps_lift_result [prog_intro]: "keeps I (lift_result r)"
  unfolding lift_result_def by (auto intro!: prog_intro)

lemma keeps_tx_sql:
  assumes "\<And>t. I t \<Longrightarrow> I (snd (st now t))"
  shows "keeps (on_db I) (tx_sql E now st)"
  using assms
  by (auto simp: valid_def tx_sql_def Let_def split: option.splits prod.splits) (metis snd_conv)

lemma keeps_transaction:
  assumes "stable E I" and "\<And>now. keeps (on_db I) (body now)"
  shows "keeps (on_db I) (transaction E err body)"
proof (rule validI)
  fix w a w'
  assume w: "I (w_db w)" and run: "transaction E err body w = (Inr a, w')"
  let ?t = "e_others E (w_step w) (w_db w)"
  let ?w0 = "w\<lparr>w_db := ?t, w_step := Suc (w_step w)\<rparr>"
  have t: "I ?t" using assms(1) w by (simp add: stable_def)
  have "I (w_db (snd (body (e_clock E (w_step w)) ?w0)))"
    using keepsD [OF assms(2), of ?w0] t by simp
  with t run show "I (w_db w')"
    by (auto simp: transaction_def Let_def split: option.splits prod.splits sum.splits
        tx_end.splits)
next
  fix w e w'
  assume w: "I (w_db w)" and run: "transaction E err body w = (Inl e, w')"
  have "I (e_others E (w_step w) (w_db w))" using assms(1) w by (simp add: stable_def)
  with run show "I (w_db w')"
    by (auto simp: transaction_def Let_def split: option.splits prod.splits sum.splits
        tx_end.splits)
qed

lemma lift_result_Inr_iff: "lift_result r s = (Inr a, s') \<longleftrightarrow> r = Inr a \<and> s' = s"
  by (cases r) (auto simp: lift_result_def ret_def throw_def)

lemma sql_Inr_iff:
  "sql E st w = (Inr a, w') \<longleftrightarrow> e_fault E (w_step w) = None \<and>
     (\<exists>t'. st (e_clock E (w_step w)) (e_others E (w_step w) (w_db w)) = (a, t') \<and>
        w' = w\<lparr>w_db := t', w_step := Suc (w_step w)\<rparr>)"
  by (auto simp: sql_def Let_def split: option.splits prod.splits)

lemma tx_sql_Inr_iff:
  "tx_sql E now st w = (Inr a, w') \<longleftrightarrow> e_fault E (w_step w) = None \<and>
     (\<exists>t'. st now (w_db w) = (a, t') \<and> w' = w\<lparr>w_db := t', w_step := Suc (w_step w)\<rparr>)"
  by (auto simp: tx_sql_def Let_def split: option.splits prod.splits)

lemma remote_Inr_iff: "remote f w = (Inr a, w') \<longleftrightarrow> f (w_step w) = Inr a \<and> w' = w\<lparr>w_step := Suc (w_step w)\<rparr>"
  by (auto simp: remote_def)

lemma now_utc_Inr_iff:
  "now_utc E w = (Inr now, w') \<longleftrightarrow> now = e_clock E (w_step w) \<and> w' = w\<lparr>w_step := Suc (w_step w)\<rparr>"
  by (auto simp: now_utc_def remote_def)

section \<open>Programs on the first part of a state\<close>

definition on_first :: "('s, 'e, 'a) prog \<Rightarrow> ('s \<times> 'c, 'e, 'a) prog" where
  "on_first m = (\<lambda>(s, c). case m s of (r, s') \<Rightarrow> (r, (s', c)))"

lemma on_first_Inr_iff: "on_first m (w, c) = (Inr a, s') \<longleftrightarrow> (\<exists>w'. m w = (Inr a, w') \<and> s' = (w', c))"
  by (auto simp: on_first_def split: prod.splits)

lemma keeps_on_first [prog_intro]: "keeps I m \<Longrightarrow> keeps (\<lambda>s. I (fst s)) (on_first m)"
  by (fastforce simp: valid_def on_first_def split: prod.splits sum.splits)

lemma case_sum_run_iff:
  "(case r of Inl e \<Rightarrow> f e | Inr a \<Rightarrow> g a) s = (Inr b, s') \<longleftrightarrow>
     (\<exists>e. r = Inl e \<and> f e s = (Inr b, s')) \<or> (\<exists>a. r = Inr a \<and> g a s = (Inr b, s'))"
  by (cases r) auto

lemma case_sum_eq_Inr_iff:
  "Inr b = (case r of Inl e \<Rightarrow> f e | Inr a \<Rightarrow> g a) \<longleftrightarrow>
     (\<exists>e. r = Inl e \<and> Inr b = f e) \<or> (\<exists>a. r = Inr a \<and> Inr b = g a)"
  by (cases r) auto

lemma case_option_run_iff:
  "(case x of None \<Rightarrow> f | Some a \<Rightarrow> g a) s = (Inr b, s') \<longleftrightarrow>
     (x = None \<and> f s = (Inr b, s')) \<or> (\<exists>a. x = Some a \<and> g a s = (Inr b, s'))"
  by (cases x) auto

lemmas inr_iffs = bindE_Inr_iff run_Inr_iffs lift_result_Inr_iff remote_Inr_iff now_utc_Inr_iff

text \<open>Reading a failed run backwards.\<close>

lemma bindE_Inl_iff:
  "bindE m f s = (Inl e, s') \<longleftrightarrow> m s = (Inl e, s') \<or> (\<exists>a s1. m s = (Inr a, s1) \<and> f a s1 = (Inl e, s'))"
  by (auto simp: bindE_def split: prod.splits sum.splits)

lemma map_err_run: "map_err f m s = (r, s') \<longleftrightarrow> (\<exists>r0. m s = (r0, s') \<and> r = (case r0 of Inl e \<Rightarrow> Inl (f e) | Inr a \<Rightarrow> Inr a))"
  by (auto simp: map_err_def split: prod.splits sum.splits)

lemma on_first_Inl_iff: "on_first m (w, c) = (Inl e, s') \<longleftrightarrow> (\<exists>w'. m w = (Inl e, w') \<and> s' = (w', c))"
  by (auto simp: on_first_def split: prod.splits)

lemma attempt_calm: "attempt m s \<noteq> (Inl e, s')"
  by (auto simp: attempt_def split: prod.splits)

lemma lift_result_Inl_iff: "lift_result r s = (Inl e, s') \<longleftrightarrow> r = Inl e \<and> s' = s"
  by (auto simp: lift_result_def throw_def ret_def split: sum.splits)

lemma remote_Inl_iff: "remote f w = (Inl e, w') \<longleftrightarrow> f (w_step w) = Inl e \<and> w' = w\<lparr>w_step := Suc (w_step w)\<rparr>"
  by (auto simp: remote_def)

lemmas inl_iffs = bindE_Inl_iff lift_result_Inl_iff remote_Inl_iff attempt_calm

text \<open>The quiet environment: no other process, no fault, the clock stands at \<open>now\<close>.\<close>

definition quiet :: "instant \<Rightarrow> 'tb env" where
  "quiet now = \<lparr>e_clock = \<lambda>_. now, e_fault = \<lambda>_. None, e_others = \<lambda>_ t. t\<rparr>"

lemma quiet_simps [simp]:
  "e_clock (quiet now) n = now" "e_fault (quiet now) n = None" "e_others (quiet now) n t = t"
  by (simp_all add: quiet_def)

lemma stable_quiet [simp]: "stable (quiet now) I"
  by (simp add: stable_def)

lemma sql_quiet:
  "sql (quiet now) st w =
     (Inr (fst (st now (w_db w))),
      w\<lparr>w_db := snd (st now (w_db w)), w_step := Suc (w_step w)\<rparr>)"
  by (simp add: sql_def Let_def split: prod.splits)

end
