(* ===== verification/Std.thy ===== *)
theory Std
  imports Prelude
begin

text \<open>
  The parts of the Rust standard library the parsers use: \<open>Result\<close> combinators, the string
  functions on ASCII text, \<open>{:?}\<close> of a string and \<open>str::parse\<close> of an unsigned number.
\<close>

section \<open>Fallible evaluation\<close>

definition and_then :: "'e + 'a \<Rightarrow> ('a \<Rightarrow> 'e + 'b) \<Rightarrow> 'e + 'b" where
  "and_then r f = (case r of Inl e \<Rightarrow> Inl e | Inr a \<Rightarrow> f a)"

lemma and_then_Inr_iff [simp]: "and_then r f = Inr b \<longleftrightarrow> (\<exists>a. r = Inr a \<and> f a = Inr b)"
  by (cases r) (simp_all add: and_then_def)

lemma and_then_simps [simp]: "and_then (Inl e) f = Inl e" "and_then (Inr a) f = f a"
  by (simp_all add: and_then_def)

definition ok_or :: "'e \<Rightarrow> 'a option \<Rightarrow> 'e + 'a" where
  "ok_or e r = (case r of None \<Rightarrow> Inl e | Some a \<Rightarrow> Inr a)"

lemma ok_or_Inr [simp]: "ok_or e r = Inr a \<longleftrightarrow> r = Some a"
  by (cases r) (simp_all add: ok_or_def)

definition map_error :: "('e \<Rightarrow> 'f) \<Rightarrow> 'e + 'a \<Rightarrow> 'f + 'a" where
  "map_error g r = (case r of Inl e \<Rightarrow> Inl (g e) | Inr a \<Rightarrow> Inr a)"

lemma map_error_Inr [simp]: "map_error g r = Inr a \<longleftrightarrow> r = Inr a"
  by (cases r) (simp_all add: map_error_def)

definition ensure :: "bool \<Rightarrow> 'e \<Rightarrow> 'e + unit" where
  "ensure c e = (if c then Inr () else Inl e)"

lemma ensure_Inr [simp]: "ensure c e = Inr u \<longleftrightarrow> c"
  by (simp add: ensure_def)

lemma Inr_eq_map_error: "Inr a = map_error g r \<longleftrightarrow> r = Inr a"
  using map_error_Inr by metis

lemmas case_run_iffs = case_sum_run_iff case_sum_eq_Inr_iff case_option_run_iff Inr_eq_map_error

lemma case_Inr_iff: "(case r of Inl _ \<Rightarrow> False | Inr a \<Rightarrow> P a) \<longleftrightarrow> (\<exists>a. r = Inr a \<and> P a)"
  by (cases r) auto

fun fold_result :: "('b \<Rightarrow> 'a \<Rightarrow> 'e + 'b) \<Rightarrow> 'b \<Rightarrow> 'a list \<Rightarrow> 'e + 'b" where
  "fold_result f b [] = Inr b"
| "fold_result f b (x # xs) = and_then (f b x) (\<lambda>b'. fold_result f b' xs)"

section \<open>Text\<close>

definition is_space :: "char \<Rightarrow> bool" where
  "is_space c \<longleftrightarrow> of_char c = (32::nat) \<or> ((9::nat) \<le> of_char c \<and> of_char c \<le> (13::nat))"

definition trim :: "string \<Rightarrow> string" where
  "trim s = rev (dropWhile is_space (rev (dropWhile is_space s)))"

definition ascii_lower :: "char \<Rightarrow> char" where
  "ascii_lower c = (if (65::nat) \<le> of_char c \<and> of_char c \<le> (90::nat)
     then char_of ((of_char c :: nat) + 32) else c)"

definition to_ascii_lowercase :: "string \<Rightarrow> string" where
  "to_ascii_lowercase = map ascii_lower"

fun split_on :: "char \<Rightarrow> string \<Rightarrow> string list" where
  "split_on c [] = [[]]"
| "split_on c (x # xs) =
     (if x = c then [] # split_on c xs
      else case split_on c xs of [] \<Rightarrow> [[x]] | p # ps \<Rightarrow> (x # p) # ps)"

definition trim_end_matches :: "char \<Rightarrow> string \<Rightarrow> string" where
  "trim_end_matches c s = rev (dropWhile (\<lambda>x. x = c) (rev s))"

text \<open>\<open>raw.replace("\n", newline)\<close>: the two characters backslash and \<open>n\<close> become a newline.\<close>

fun unescape_newlines :: "string \<Rightarrow> string" where
  "unescape_newlines (a # b # cs) =
     (if of_char a = (92::nat) \<and> b = CHR ''n'' then CHR 0x0A # unescape_newlines cs
      else a # unescape_newlines (b # cs))"
| "unescape_newlines s = s"

definition hex_digit :: "nat \<Rightarrow> char" where
  "hex_digit n = (if n < 10 then char_of (48 + n) else char_of (87 + n))"

definition escape_debug :: "char \<Rightarrow> string" where
  "escape_debug c =
     (let n = of_char c :: nat
      in if n = 0 then [CHR 0x5C, CHR ''0'']
         else if n = 9 then [CHR 0x5C, CHR ''t'']
         else if n = 13 then [CHR 0x5C, CHR ''r'']
         else if n = 10 then [CHR 0x5C, CHR ''n'']
         else if n = 34 \<or> n = 92 then [CHR 0x5C, c]
         else if n < 32 \<or> n = 127
         then [CHR 0x5C, CHR ''u'', CHR 0x7B] @ (if n < 16 then [hex_digit n]
                else [hex_digit (n div 16), hex_digit (n mod 16)]) @ [CHR 0x7D]
         else [c])"

text \<open>The \<open>{:?}\<close> rendering of a string.\<close>

definition debug_str :: "string \<Rightarrow> string" where
  "debug_str s = CHR 0x22 # concat (map escape_debug s) @ [CHR 0x22]"

section \<open>Numbers\<close>

text \<open>\<open>str::parse\<close> for an unsigned integer below \<open>bound\<close>, with the error texts of
  \<open>ParseIntError\<close>: at each character the digit is checked before the overflow.\<close>

fun parse_uint_from :: "nat \<Rightarrow> nat \<Rightarrow> string \<Rightarrow> string + nat" where
  "parse_uint_from bound acc [] = Inr acc"
| "parse_uint_from bound acc (c # cs) =
     (if (48::nat) \<le> of_char c \<and> of_char c \<le> (57::nat)
      then (let a = 10 * acc + (of_char c - 48)
            in if a < bound then parse_uint_from bound a cs
               else Inl ''number too large to fit in target type'')
      else Inl ''invalid digit found in string'')"

definition parse_uint :: "nat \<Rightarrow> string \<Rightarrow> string + nat" where
  "parse_uint bound s =
     (if s = [] then Inl ''cannot parse integer from empty string''
      else if s = ''+'' \<or> s = ''-'' then Inl ''invalid digit found in string''
      else parse_uint_from bound 0 (if hd s = CHR ''+'' then tl s else s))"

lemma parse_uint_from_bound: "acc < bound \<Longrightarrow> parse_uint_from bound acc s = Inr n \<Longrightarrow> n < bound"
  by (induction bound acc s rule: parse_uint_from.induct) (auto simp: Let_def split: if_splits)

lemma parse_uint_bound: "0 < bound \<Longrightarrow> parse_uint bound s = Inr n \<Longrightarrow> n < bound"
  unfolding parse_uint_def by (auto split: if_splits intro: parse_uint_from_bound)

section \<open>UTF-8\<close>

definition utf8_cont :: "nat \<Rightarrow> bool" where
  "utf8_cont b \<longleftrightarrow> 0x80 \<le> b \<and> b < 0xC0"

text \<open>The well-formed byte sequences of the Unicode standard: no overlong form, no surrogate,
  nothing above \<open>U+10FFFF\<close>.\<close>

fun utf8_valid :: "nat list \<Rightarrow> bool" where
  "utf8_valid [] = True"
| "utf8_valid (a # bs) =
     (if a < 0x80 then utf8_valid bs
      else case bs of [] \<Rightarrow> False | b # cs \<Rightarrow>
        if 0xC2 \<le> a \<and> a \<le> 0xDF then utf8_cont b \<and> utf8_valid cs
        else case cs of [] \<Rightarrow> False | c # ds \<Rightarrow>
          if 0xE0 \<le> a \<and> a \<le> 0xEF
          then utf8_cont b \<and> utf8_cont c \<and> (a = 0xE0 \<longrightarrow> 0xA0 \<le> b) \<and> (a = 0xED \<longrightarrow> b < 0xA0) \<and> utf8_valid ds
          else case ds of [] \<Rightarrow> False | d # es \<Rightarrow>
            0xF0 \<le> a \<and> a \<le> 0xF4 \<and> utf8_cont b \<and> utf8_cont c \<and> utf8_cont d \<and>
            (a = 0xF0 \<longrightarrow> 0x90 \<le> b) \<and> (a = 0xF4 \<longrightarrow> b < 0x90) \<and> utf8_valid es)"

definition from_utf8 :: "bytes \<Rightarrow> string option" where
  "from_utf8 bs = (if utf8_valid (map unat bs) then Some (map (\<lambda>b. char_of (unat b)) bs) else None)"

section \<open>Numbers as digits, most significant first\<close>

definition be_value :: "nat \<Rightarrow> nat \<Rightarrow> nat list \<Rightarrow> nat" where
  "be_value b acc ds = foldl (\<lambda>a d. a * b + d) acc ds"

lemma be_value_simps [simp]:
  "be_value b acc [] = acc" "be_value b acc (d # ds) = be_value b (acc * b + d) ds"
  "be_value b acc (ds @ [d]) = be_value b acc ds * b + d"
  by (simp_all add: be_value_def)

lemma be_value_mono: "0 < b \<Longrightarrow> acc \<le> be_value b acc ds"
proof (induction ds arbitrary: acc)
  case (Cons d ds)
  have "acc \<le> acc * b + d" using Cons.prems by (simp add: trans_le_add1)
  with Cons show ?case by (auto intro: le_trans)
qed simp

fun be_digits :: "nat \<Rightarrow> nat \<Rightarrow> nat list" where
  "be_digits b n = (if b \<le> 1 \<or> n < b then [n] else be_digits b (n div b) @ [n mod b])"

declare be_digits.simps [simp del]

lemma be_digits_small [simp]: "n < b \<Longrightarrow> be_digits b n = [n]"
  by (simp add: be_digits.simps)

lemma be_digits_step: "1 < b \<Longrightarrow> b \<le> n \<Longrightarrow> be_digits b n = be_digits b (n div b) @ [n mod b]"
  by (subst be_digits.simps) simp

lemma be_digits_value: "1 < b \<Longrightarrow> be_value b 0 (be_digits b n) = n"
  by (induction b n rule: be_digits.induct)
     (metis be_digits_small be_digits_step be_value_simps div_mult_mod_eq leD leI mult_0 plus_nat.add_0)

lemma be_digits_nonempty [simp]: "be_digits b n \<noteq> []"
  by (subst be_digits.simps) simp

lemma be_digits_ok:
  "1 < b \<Longrightarrow> list_all (\<lambda>d. d < b) (be_digits b n) \<and> (0 < n \<longrightarrow> hd (be_digits b n) \<noteq> 0)"
proof (induction b n rule: be_digits.induct)
  case (1 b n)
  show ?case
  proof (cases "n < b")
    case False
    moreover have "0 < n div b" using False 1 by (simp add: div_greater_zero_iff)
    ultimately show ?thesis using 1 by (simp add: be_digits_step hd_append)
  qed simp
qed

lemma be_digits_unique:
  "1 < b \<Longrightarrow> ds \<noteq> [] \<Longrightarrow> hd ds \<noteq> 0 \<Longrightarrow> list_all (\<lambda>d. d < b) ds \<Longrightarrow> be_digits b (be_value b 0 ds) = ds"
proof (induction ds rule: rev_induct)
  case (snoc d ds)
  show ?case
  proof (cases "ds = []")
    case True
    with snoc show ?thesis by simp
  next
    case False
    have d: "d < b" and ds: "list_all (\<lambda>d. d < b) ds" "hd ds \<noteq> 0"
      using snoc.prems False by (auto simp: hd_append)
    obtain x xs where xs: "ds = x # xs" "x \<noteq> 0" using False ds(2) by (cases ds) auto
    have "0 < be_value b 0 ds" using be_value_mono [of b x xs] snoc.prems(1) xs by simp
    then have "b \<le> be_value b 0 ds * b + d" by (simp add: trans_le_add1)
    then show ?thesis
      using snoc.IH [OF snoc.prems(1) False ds(2,1)] d snoc.prems(1)
      by (simp add: be_digits_step div_mult_self3 [of b] )
  qed
qed simp

lemma length_be_digits: "1 < b \<Longrightarrow> 0 < k \<Longrightarrow> length (be_digits b n) \<le> k \<longleftrightarrow> n < b ^ k"
proof (induction b n arbitrary: k rule: be_digits.induct)
  case (1 b n)
  show ?case
  proof (cases "n < b")
    case True
    moreover have "b \<le> b ^ k" using 1 by (simp add: self_le_power)
    ultimately show ?thesis using 1 by (auto simp: Suc_le_eq)
  next
    case False
    obtain j where k: "k = Suc j" using 1 by (cases k) auto
    show ?thesis
    proof (cases j)
      case 0
      with False 1 k show ?thesis by (simp add: be_digits_step Suc_le_eq not_less) 
    next
      case (Suc i)
      have "length (be_digits b (n div b)) \<le> j \<longleftrightarrow> n div b < b ^ j"
        using 1 False Suc by simp
      also have "\<dots> \<longleftrightarrow> n < b ^ k"
        using 1 k by (simp add: div_less_iff_less_mult mult.commute)
      finally show ?thesis using False 1 k by (simp add: be_digits_step)
    qed
  qed
qed

section \<open>Two digits\<close>

lemma zero_char: "CHR ''0'' = digit_char 0"
  by (simp add: digit_char_def char_of_def bit_Suc_0_iff)

lemma two_digits_chars: "n < 100 \<Longrightarrow> two_digits n = [digit_char (n div 10), digit_char (n mod 10)]"
  by (auto simp: two_digits_def nat_to_string.simps [of n] nat_to_string.simps [of "n div 10"] zero_char)

lemma digit_char_code: "n < 10 \<Longrightarrow> of_char (digit_char n) = 48 + n"
  by (simp add: digit_char_def)

lemma two_digits_inj: "m < 100 \<Longrightarrow> n < 100 \<Longrightarrow> two_digits m = two_digits n \<longleftrightarrow> m = n"
  by (auto simp: two_digits_chars digit_char_inj) (metis div_mod_decomp)

end
