(* ===== verification/Env.thy ===== *)
theory Env
  imports Std
begin

text \<open>
  Startup configuration: the environment readers shared by the services
  (\<open>http-common/src/config.rs\<close>, \<open>device-attestation/src/config.rs\<close>,
  \<open>queue.rs::env_u64_strict\<close>), the API's \<open>Config::from_env\<close> and the writer's
  \<open>WriterConfig::from_env\<close>. The environment is a map; text is ASCII. Hex, base64, SS58, PEM
  and JSON decoders are third-party and come as a record of functions.
\<close>

section \<open>Readers\<close>

type_synonym env_vars = "string \<Rightarrow> string option"

datatype config_error = Missing string | Invalid string string

definition required_var :: "env_vars \<Rightarrow> string \<Rightarrow> config_error + string" where
  "required_var env key =
     (case env key of
        None \<Rightarrow> Inl (Missing key)
      | Some raw \<Rightarrow>
          if trim raw = [] then Inl (Invalid key ''must not be empty'') else Inr (trim raw))"

definition parse_var :: "env_vars \<Rightarrow> (string \<Rightarrow> string + 'a) \<Rightarrow> string \<Rightarrow> string \<Rightarrow> config_error + 'a" where
  "parse_var env parse key dflt =
     map_error (Invalid key) (parse (case env key of None \<Rightarrow> dflt | Some raw \<Rightarrow> raw))"

definition positive :: "string \<Rightarrow> nat \<Rightarrow> config_error + nat" where
  "positive key n = (if n = 0 then Inl (Invalid key ''must be at least 1'') else Inr n)"

definition parse_bool :: "string \<Rightarrow> bool option" where
  "parse_bool raw =
     (let s = to_ascii_lowercase raw
      in if s \<in> {''true'', ''yes'', ''on'', ''1'', ''y''} then Some True
         else if s \<in> {''false'', ''no'', ''off'', ''0'', ''n''} then Some False
         else None)"

definition env_bool :: "env_vars \<Rightarrow> string \<Rightarrow> bool \<Rightarrow> config_error + bool" where
  "env_bool env key dflt =
     (case env key of
        None \<Rightarrow> Inr dflt
      | Some raw \<Rightarrow> ok_or (Invalid key (''expected a boolean (true/false), got '' @ debug_str (trim raw)))
          (parse_bool (trim raw)))"

definition split_list :: "string \<Rightarrow> string list" where
  "split_list raw = filter (\<lambda>s. s \<noteq> []) (map trim (split_on CHR '','' raw))"

definition env_list :: "env_vars \<Rightarrow> string \<Rightarrow> string list" where
  "env_list env key = (case env key of None \<Rightarrow> [] | Some raw \<Rightarrow> split_list raw)"

definition env_or :: "env_vars \<Rightarrow> string \<Rightarrow> string \<Rightarrow> string" where
  "env_or env key dflt = (case env key of None \<Rightarrow> dflt | Some v \<Rightarrow> v)"

definition env_u64_strict :: "env_vars \<Rightarrow> string \<Rightarrow> nat \<Rightarrow> string + nat" where
  "env_u64_strict env key dflt =
     (case env key of
        None \<Rightarrow> Inr dflt
      | Some raw \<Rightarrow> map_error (\<lambda>e. key @ '' is invalid ('' @ debug_str raw @ ''): '' @ e)
          (parse_uint (2 ^ 64) (trim raw)))"

section \<open>Key material\<close>

record codecs =
  cd_hex :: "string \<Rightarrow> string + bytes"
  cd_b64 :: "string \<Rightarrow> string + bytes"
  cd_ss58 :: "string \<Rightarrow> string + account"
  cd_p256_spki :: "bytes \<Rightarrow> string + unit"
  cd_ec_pem :: "string \<Rightarrow> string + unit"
  cd_rsa_pem :: "string \<Rightarrow> string + unit"
  cd_service_account :: "bytes \<Rightarrow> string + string \<times> string"
  cd_socket_addr :: "string \<Rightarrow> string + string"

definition strip_0x :: "string \<Rightarrow> string" where
  "strip_0x s = (case strip_prefix ''0x'' s of Some r \<Rightarrow> r | None \<Rightarrow> s)"

definition hex_or_b64 :: "codecs \<Rightarrow> string \<Rightarrow> bytes option" where
  "hex_or_b64 cd s =
     (case cd_hex cd (strip_0x s) of
        Inr b \<Rightarrow> Some b
      | Inl _ \<Rightarrow> (case cd_b64 cd s of Inr b \<Rightarrow> Some b | Inl _ \<Rightarrow> None))"

definition decode_jwt_secret :: "codecs \<Rightarrow> string \<Rightarrow> config_error + bytes" where
  "decode_jwt_secret cd raw =
     and_then (ok_or (Invalid ''JWT_ED25519_SECRET'' ''expected 32 bytes as hex or base64'')
       (hex_or_b64 cd (trim raw))) (\<lambda>b.
     ok_or (Invalid ''JWT_ED25519_SECRET'' ''decoded secret must be exactly 32 bytes'') (try_array 32 b))"

definition parse_jwt_secret :: "env_vars \<Rightarrow> codecs \<Rightarrow> config_error + bytes" where
  "parse_jwt_secret env cd =
     and_then (ok_or (Missing ''JWT_ED25519_SECRET'') (env ''JWT_ED25519_SECRET'')) (decode_jwt_secret cd)"

definition parse_attester_account :: "codecs \<Rightarrow> string \<Rightarrow> config_error + account" where
  "parse_attester_account cd raw =
     map_error (\<lambda>e. Invalid ''ATTESTER_ACCOUNT'' (''expected an SS58 account: '' @ e)) (cd_ss58 cd (trim raw))"

definition attester_account_from_env :: "env_vars \<Rightarrow> codecs \<Rightarrow> config_error + account" where
  "attester_account_from_env env cd =
     and_then (ok_or (Missing ''ATTESTER_ACCOUNT'') (env ''ATTESTER_ACCOUNT'')) (parse_attester_account cd)"

definition decode_signing_digest :: "codecs \<Rightarrow> string \<Rightarrow> string \<Rightarrow> config_error + bytes option" where
  "decode_signing_digest cd key raw =
     (let normalized = filter (\<lambda>c. c \<noteq> CHR '':'') (to_ascii_lowercase (trim raw))
      in if normalized = [] then Inr None
         else and_then (map_error (\<lambda>e. Invalid key (''expected hex: '' @ e)) (cd_hex cd normalized)) (\<lambda>b.
              and_then (ok_or (Invalid key ''expected a 32-byte SHA-256 fingerprint'') (try_array 32 b)) (\<lambda>d.
              Inr (Some d))))"

definition parse_signing_digest :: "env_vars \<Rightarrow> codecs \<Rightarrow> string \<Rightarrow> config_error + bytes option" where
  "parse_signing_digest env cd key =
     (case env key of None \<Rightarrow> Inr None | Some raw \<Rightarrow> decode_signing_digest cd key raw)"

definition decode_play_integrity_decryption_key :: "codecs \<Rightarrow> string \<Rightarrow> config_error + bytes option" where
  "decode_play_integrity_decryption_key cd raw =
     (if trim raw = [] then Inr None
      else and_then (map_error (\<lambda>e. Invalid ''PLAY_INTEGRITY_DECRYPTION_KEY'' (''expected base64: '' @ e))
             (cd_b64 cd (trim raw))) (\<lambda>b.
           and_then (ok_or (Invalid ''PLAY_INTEGRITY_DECRYPTION_KEY'' ''expected a 32-byte AES-256 key'')
             (try_array 32 b)) (\<lambda>k. Inr (Some k))))"

definition parse_play_integrity_decryption_key :: "env_vars \<Rightarrow> codecs \<Rightarrow> config_error + bytes option" where
  "parse_play_integrity_decryption_key env cd =
     (case env ''PLAY_INTEGRITY_DECRYPTION_KEY'' of
        None \<Rightarrow> Inr None | Some raw \<Rightarrow> decode_play_integrity_decryption_key cd raw)"

definition decode_play_integrity_verification_key :: "codecs \<Rightarrow> string \<Rightarrow> config_error + bytes option" where
  "decode_play_integrity_verification_key cd raw =
     (if trim raw = [] then Inr None
      else and_then (map_error (\<lambda>e. Invalid ''PLAY_INTEGRITY_VERIFICATION_KEY'' (''expected base64: '' @ e))
             (cd_b64 cd (trim raw))) (\<lambda>der.
           and_then (map_error (\<lambda>e. Invalid ''PLAY_INTEGRITY_VERIFICATION_KEY''
               (''expected DER SPKI EC P-256 public key: '' @ e)) (cd_p256_spki cd der)) (\<lambda>_. Inr (Some der))))"

definition parse_play_integrity_verification_key :: "env_vars \<Rightarrow> codecs \<Rightarrow> config_error + bytes option" where
  "parse_play_integrity_verification_key env cd =
     (case env ''PLAY_INTEGRITY_VERIFICATION_KEY'' of
        None \<Rightarrow> Inr None | Some raw \<Rightarrow> decode_play_integrity_verification_key cd raw)"

record google_credentials =
  client_email :: string
  private_key :: string

definition google_credentials_parse :: "codecs \<Rightarrow> string \<Rightarrow> string + google_credentials" where
  "google_credentials_parse cd raw =
     (let json = (case cd_b64 cd (trim raw) of Inr b \<Rightarrow> b | Inl _ \<Rightarrow> as_bytes (trim raw))
      in and_then (map_error (\<lambda>e. ''not valid service-account JSON: '' @ e) (cd_service_account cd json))
           (\<lambda>(email, key).
             and_then (ensure (email \<noteq> [] \<and> key \<noteq> []) ''missing client_email or private_key'') (\<lambda>_.
             and_then (map_error (\<lambda>e. ''private_key is not a usable RSA PEM: '' @ e) (cd_rsa_pem cd key)) (\<lambda>_.
             Inr \<lparr>client_email = email, private_key = key\<rparr>))))"

definition parse_google_credentials :: "env_vars \<Rightarrow> codecs \<Rightarrow> config_error + google_credentials option" where
  "parse_google_credentials env cd =
     (case env ''GOOGLE_CREDENTIALS'' of
        None \<Rightarrow> Inr None
      | Some raw \<Rightarrow>
          if trim raw = [] then Inr None
          else and_then (map_error (Invalid ''GOOGLE_CREDENTIALS'') (google_credentials_parse cd raw)) (\<lambda>c. Inr (Some c)))"

record device_check_config =
  team_id :: string
  key_id :: string
  private_key_pem :: string
  base_url :: string

definition validate_device_check_pem :: "codecs \<Rightarrow> string \<Rightarrow> config_error + string" where
  "validate_device_check_pem cd raw =
     (let pem = unescape_newlines raw
      in and_then (map_error (\<lambda>e. Invalid ''DEVICE_CHECK_PRIVATE_KEY'' (''not a usable EC private key PEM: '' @ e))
           (cd_ec_pem cd pem)) (\<lambda>_. Inr pem))"

definition require_trimmed :: "env_vars \<Rightarrow> string \<Rightarrow> config_error + string" where
  "require_trimmed env key =
     (case env key of
        None \<Rightarrow> Inl (Missing key)
      | Some v \<Rightarrow> if trim v = [] then Inl (Missing key) else Inr (trim v))"

definition parse_device_check :: "env_vars \<Rightarrow> codecs \<Rightarrow> config_error + device_check_config option" where
  "parse_device_check env cd =
     and_then (env_bool env ''DEVICE_CHECK_IOS_ENABLED'' False) (\<lambda>on.
     if \<not> on then Inr None else
     and_then (require_trimmed env ''DEVICE_CHECK_PRIVATE_KEY'') (\<lambda>raw.
     and_then (validate_device_check_pem cd raw) (\<lambda>pem.
     and_then (require_trimmed env ''APPLE_TEAM_ID'') (\<lambda>team.
     and_then (require_trimmed env ''DEVICE_CHECK_KEY_ID'') (\<lambda>kid.
     Inr (Some \<lparr>team_id = team, key_id = kid, private_key_pem = pem,
       base_url = (case env ''DEVICE_CHECK_URL'' of
          None \<Rightarrow> ''https://api.devicecheck.apple.com/v1''
        | Some v \<Rightarrow> trim_end_matches CHR ''/'' (trim v))\<rparr>))))))"

record widevine_config =
  wv_enforce :: bool
  wv_hmac_key :: bytes

definition decode_widevine_hmac_key :: "codecs \<Rightarrow> string \<Rightarrow> config_error + bytes" where
  "decode_widevine_hmac_key cd raw =
     and_then (ok_or (Invalid ''WIDEVINE_DEDUP_HMAC_KEY'' ''expected hex or base64'') (hex_or_b64 cd raw)) (\<lambda>b.
     ok_or (Invalid ''WIDEVINE_DEDUP_HMAC_KEY'' ''key must be exactly 32 bytes'') (try_array 32 b))"

definition parse_widevine :: "env_vars \<Rightarrow> codecs \<Rightarrow> config_error + widevine_config option" where
  "parse_widevine env cd =
     and_then (env_bool env ''WIDEVINE_DEDUP_ENABLED'' False) (\<lambda>on.
     if \<not> on then Inr None else
     and_then (require_trimmed env ''WIDEVINE_DEDUP_HMAC_KEY'') (\<lambda>raw.
     and_then (env_bool env ''WIDEVINE_DEDUP_ENFORCE'' False) (\<lambda>enf.
     and_then (decode_widevine_hmac_key cd raw) (\<lambda>k.
     Inr (Some \<lparr>wv_enforce = enf, wv_hmac_key = k\<rparr>)))))"

section \<open>The API configuration\<close>

datatype play_integrity_mode = Strict | RelaxedDevice | RelaxedAll

definition play_integrity_mode_from_str :: "string \<Rightarrow> string + play_integrity_mode" where
  "play_integrity_mode_from_str s =
     (if s = ''strict'' then Inr Strict
      else if s = ''relaxed_device'' then Inr RelaxedDevice
      else if s = ''relaxed_all'' then Inr RelaxedAll
      else Inl (debug_str s @ '' is not one of strict, relaxed_device, relaxed_all''))"

record config =
  bind_addr :: string
  database_url :: string
  jwt_secret :: bytes
  jwt_issuer :: string
  people_rpc_url :: string
  attester_account :: account
  access_ttl :: nat
  refresh_ttl :: nat
  challenge_ttl :: nat
  auth_rate_limit :: nat
  auth_rate_window :: nat
  auth_enabled :: bool
  enforce_auth :: bool
  queue_enabled :: bool
  registration_vouchers_enabled :: bool
  dotns_intake_freshness_max_age_secs :: nat
  dotns_max_future_skew_secs :: nat
  apple_app_attest_app_ids :: "string list"
  ios_package_names :: "string list"
  android_package_names :: "string list"
  android_signing_digest_playstore :: "bytes option"
  android_signing_digest_website :: "bytes option"
  android_crl_url :: string
  android_crl_cache_ttl :: nat
  android_crl_max_stale :: nat
  play_mode :: play_integrity_mode
  play_integrity_decryption_key :: "bytes option"
  play_integrity_verification_key :: "bytes option"
  google_fallback :: "google_credentials option"
  device_check :: "device_check_config option"
  widevine :: "widevine_config option"

definition DEFAULT_PEOPLE_RPC :: string where
  "DEFAULT_PEOPLE_RPC = ''wss://paseo-people-next-system-rpc.polkadot.io''"

text \<open>The first half of \<open>Config::from_env\<close>, up to the struct literal: what must hold
  before any other variable is read.\<close>

definition attestation_complete ::
  "bool \<Rightarrow> string list \<Rightarrow> string list \<Rightarrow> string list \<Rightarrow> bytes option \<Rightarrow> bytes option \<Rightarrow> config_error + unit" where
  "attestation_complete on app_ids ios android playstore website =
     (if on \<and> app_ids = [] then Inl (Missing ''APPLE_APP_ATTEST_APP_IDS'')
      else if on \<and> ios = [] then Inl (Missing ''IOS_PACKAGE_NAMES'')
      else if on \<and> android = [] then Inl (Missing ''ANDROID_PACKAGE_NAMES'')
      else if on \<and> playstore = None then Inl (Missing ''ANDROID_SIGNING_DIGEST_PLAYSTORE'')
      else if on \<and> website = None then Inl (Missing ''ANDROID_SIGNING_DIGEST_WEBSITE'')
      else Inr ())"

abbreviation secs_var :: "env_vars \<Rightarrow> string \<Rightarrow> string \<Rightarrow> config_error + nat" where
  "secs_var env \<equiv> parse_var env (parse_uint (2 ^ 64))"

abbreviation u32_var :: "env_vars \<Rightarrow> string \<Rightarrow> string \<Rightarrow> config_error + nat" where
  "u32_var env \<equiv> parse_var env (parse_uint (2 ^ 32))"

definition from_env :: "env_vars \<Rightarrow> codecs \<Rightarrow> config_error + config" where
  "from_env env cd =
     and_then (parse_var env (cd_socket_addr cd) ''BIND_ADDR'' ''0.0.0.0:8080'') (\<lambda>addr.
     and_then (case env ''DEVICE_ATTESTATION_DATABASE_URL'' of
        None \<Rightarrow> Inl (Missing ''DEVICE_ATTESTATION_DATABASE_URL'')
      | Some v \<Rightarrow> if trim v = [] then Inl (Missing ''DEVICE_ATTESTATION_DATABASE_URL'') else Inr v) (\<lambda>db.
     and_then (parse_jwt_secret env cd) (\<lambda>secret.
     and_then (env_bool env ''AUTH_ENABLED'' False) (\<lambda>auth.
     let app_ids = env_list env ''APPLE_APP_ATTEST_APP_IDS'';
         ios = env_list env ''IOS_PACKAGE_NAMES'';
         android = env_list env ''ANDROID_PACKAGE_NAMES''
     in
     and_then (parse_signing_digest env cd ''ANDROID_SIGNING_DIGEST_PLAYSTORE'') (\<lambda>playstore.
     and_then (parse_signing_digest env cd ''ANDROID_SIGNING_DIGEST_WEBSITE'') (\<lambda>website.
     and_then (parse_play_integrity_decryption_key env cd) (\<lambda>dec.
     and_then (parse_play_integrity_verification_key env cd) (\<lambda>ver.
     and_then (ensure ((dec = None) = (ver = None)) (Invalid ''PLAY_INTEGRITY_DECRYPTION_KEY''
        ''PLAY_INTEGRITY_DECRYPTION_KEY and PLAY_INTEGRITY_VERIFICATION_KEY must be set together'')) (\<lambda>_.
     and_then (attestation_complete auth app_ids ios android playstore website) (\<lambda>_.
     and_then (env_bool env ''ENFORCE_AUTH'' False) (\<lambda>enf.
     and_then (parse_widevine env cd) (\<lambda>_.
     and_then (attester_account_from_env env cd) (\<lambda>attester.
     and_then (secs_var env ''ACCESS_TOKEN_TTL_SECS'' ''86400'') (\<lambda>access.
     and_then (secs_var env ''REFRESH_TOKEN_TTL_SECS'' ''2592000'') (\<lambda>refr.
     and_then (secs_var env ''CHALLENGE_TTL_SECS'' ''300'') (\<lambda>chal.
     and_then (u32_var env ''AUTH_RATE_LIMIT'' ''30'') (\<lambda>limit.
     and_then (secs_var env ''AUTH_RATE_WINDOW_SECS'' ''60'') (\<lambda>win.
     and_then (env_bool env ''QUEUE_ENABLED'' False) (\<lambda>queue.
     and_then (env_bool env ''REGISTRATION_VOUCHERS_ENABLED'' False) (\<lambda>vouchers.
     and_then (u32_var env ''DOTNS_INTAKE_FRESHNESS_MAX_AGE_SECS'' ''600'') (\<lambda>fresh.
     and_then (u32_var env ''DOTNS_MAX_FUTURE_SKEW_SECS'' ''30'') (\<lambda>skew.
     and_then (secs_var env ''ANDROID_ATTESTATION_CRL_CACHE_TTL_SECS'' ''3600'') (\<lambda>crl_ttl.
     and_then (secs_var env ''ANDROID_ATTESTATION_CRL_MAX_STALE_SECS'' ''3600'') (\<lambda>crl_stale.
     and_then (parse_var env play_integrity_mode_from_str ''PLAY_INTEGRITY_MODE'' ''strict'') (\<lambda>mode.
     and_then (parse_google_credentials env cd) (\<lambda>google.
     and_then (parse_device_check env cd) (\<lambda>dc.
     and_then (parse_widevine env cd) (\<lambda>wv.
     Inr \<lparr>bind_addr = addr, database_url = db, jwt_secret = secret,
       jwt_issuer = env_or env ''JWT_ISSUER'' ''polkadot-app'',
       people_rpc_url = env_or env ''PEOPLE_RPC_URL'' DEFAULT_PEOPLE_RPC,
       attester_account = attester, access_ttl = access, refresh_ttl = refr, challenge_ttl = chal,
       auth_rate_limit = limit, auth_rate_window = win, auth_enabled = auth, enforce_auth = enf,
       queue_enabled = queue, registration_vouchers_enabled = vouchers,
       dotns_intake_freshness_max_age_secs = fresh, dotns_max_future_skew_secs = skew,
       apple_app_attest_app_ids = app_ids, ios_package_names = ios, android_package_names = android,
       android_signing_digest_playstore = playstore, android_signing_digest_website = website,
       android_crl_url = env_or env ''ANDROID_ATTESTATION_CRL_URL'' ''https://android.googleapis.com/attestation/status'',
       android_crl_cache_ttl = crl_ttl, android_crl_max_stale = crl_stale, play_mode = mode,
       play_integrity_decryption_key = dec, play_integrity_verification_key = ver,
       google_fallback = google, device_check = dc, widevine = wv\<rparr>))))))))))))))))))))))))))))"

definition attestation_mode :: "config \<Rightarrow> string" where
  "attestation_mode c =
     (if \<not> auth_enabled c then ''disabled (attestation is a no-op; JWT still issued)''
      else if enforce_auth c then ''hard (bad or missing attestation rejected)''
      else ''soft (verdicts logged, not enforced)'')"

section \<open>The writer configuration\<close>

record writer_config =
  wc_database_url :: string
  wc_people_rpc_url :: string
  signer_suri :: string
  wc_attester :: account
  wc_holder_id :: string
  wc_lease_name :: string
  wc_lease_ttl :: u64
  poll_interval :: u64
  batch_size :: u16
  dotns_batch_size :: u16
  finalize_timeout :: u64
  wc_max_attempts :: int
  wc_queue_enabled :: bool
  queue_fallback_after :: u64
  resource_poll_interval :: u64
  allowance_floor :: u32
  signer_balance_floor_planck :: u128
  asset_hub_rpc_url :: string

definition DEFAULT_BATCH_SIZE :: nat where
  "DEFAULT_BATCH_SIZE = 25"

definition DEFAULT_DOTNS_BATCH_SIZE :: nat where
  "DEFAULT_DOTNS_BATCH_SIZE = 3"

definition env_lenient :: "nat \<Rightarrow> env_vars \<Rightarrow> string \<Rightarrow> nat \<Rightarrow> nat" where
  "env_lenient bound env key dflt =
     (case env key of
        None \<Rightarrow> dflt
      | Some v \<Rightarrow> (case parse_uint bound v of Inr n \<Rightarrow> n | Inl _ \<Rightarrow> dflt))"

definition env_u64 :: "env_vars \<Rightarrow> string \<Rightarrow> nat \<Rightarrow> nat" where
  "env_u64 = env_lenient (2 ^ 64)"

definition env_u16 :: "env_vars \<Rightarrow> string \<Rightarrow> nat \<Rightarrow> nat" where
  "env_u16 = env_lenient (2 ^ 16)"

definition strict :: "env_vars \<Rightarrow> string \<Rightarrow> nat \<Rightarrow> config_error + nat" where
  "strict env key dflt = map_error (Invalid key) (env_u64_strict env key dflt)"

text \<open>\<open>as i32\<close> on a \<open>u64\<close>: the low 32 bits, read as a signed number.\<close>

definition as_i32 :: "nat \<Rightarrow> int" where
  "as_i32 n = sint (of_nat n :: 32 word)"

text \<open>\<open>fresh\<close> is the boot-unique suffix: the process id and a random number.\<close>

definition writer_config_from_env :: "env_vars \<Rightarrow> codecs \<Rightarrow> string \<Rightarrow> config_error + writer_config" where
  "writer_config_from_env env cd fresh =
     and_then (required_var env ''DEVICE_ATTESTATION_DATABASE_URL'') (\<lambda>db.
     and_then (required_var env ''CHAIN_WRITER_SIGNER_SURI'') (\<lambda>suri.
     and_then (attester_account_from_env env cd) (\<lambda>attester.
     and_then (env_bool env ''QUEUE_ENABLED'' False) (\<lambda>queue.
     and_then (strict env ''QUEUE_FALLBACK_AFTER_SECS'' 60) (\<lambda>fallback.
     and_then (strict env ''ATTESTER_RESOURCE_POLL_SECS'' 60) (\<lambda>poll.
     and_then (strict env ''ATTESTER_ALLOWANCE_FLOOR'' 100) (\<lambda>flo.
     and_then (ensure (flo < 2 ^ 32) (Invalid ''ATTESTER_ALLOWANCE_FLOOR'' ''must fit a u32'')) (\<lambda>_.
     and_then (strict env ''ATTESTER_SIGNER_BALANCE_FLOOR_PLANCK'' 10000000000) (\<lambda>planck.
     and_then (required_var env ''ASSET_HUB_RPC_URL'') (\<lambda>hub.
     Inr \<lparr>wc_database_url = db,
       wc_people_rpc_url = env_or env ''PEOPLE_RPC_URL'' DEFAULT_PEOPLE_RPC,
       signer_suri = suri, wc_attester = attester,
       wc_holder_id = (case env ''CHAIN_WRITER_HOLDER_ID'' of
          Some v \<Rightarrow> if trim v \<noteq> [] then v else ''writer-'' @ fresh
        | None \<Rightarrow> ''writer-'' @ fresh),
       wc_lease_name = env_or env ''CHAIN_WRITER_LEASE_NAME'' ''people-chain-writer'',
       wc_lease_ttl = of_nat (env_u64 env ''CHAIN_WRITER_LEASE_TTL_SECS'' 30),
       poll_interval = of_nat (env_u64 env ''CHAIN_WRITER_POLL_SECS'' 2),
       batch_size = of_nat (env_u16 env ''CHAIN_WRITER_BATCH_SIZE'' DEFAULT_BATCH_SIZE),
       dotns_batch_size = of_nat (env_u16 env ''CHAIN_WRITER_DOTNS_BATCH_SIZE'' DEFAULT_DOTNS_BATCH_SIZE),
       finalize_timeout = of_nat (env_u64 env ''CHAIN_WRITER_FINALIZE_SECS'' 120),
       wc_max_attempts = as_i32 (env_u64 env ''CHAIN_WRITER_MAX_ATTEMPTS'' 8),
       wc_queue_enabled = queue, queue_fallback_after = of_nat fallback,
       resource_poll_interval = of_nat poll, allowance_floor = of_nat flo,
       signer_balance_floor_planck = of_nat planck, asset_hub_rpc_url = hub\<rparr>))))))))))"

section \<open>Lemmas\<close>

lemma try_array_length: "try_array n b = Some a \<Longrightarrow> length a = n"
  by (auto simp: try_array_def split: if_splits)

lemma trim_head: "trim s \<noteq> [] \<Longrightarrow> \<not> is_space (hd (trim s))"
proof -
  let ?a = "dropWhile is_space s"
  assume ne: "trim s \<noteq> []"
  obtain ys where split: "?a = trim s @ ys"
    unfolding trim_def by (metis rev_append rev_rev_ident takeWhile_dropWhile_id)
  then have "hd ?a = hd (trim s)" "?a \<noteq> []" using ne by (simp_all add: split hd_append)
  then show ?thesis using hd_dropWhile [of is_space s] by simp
qed

lemma trim_trim [simp]: "trim (trim s) = trim s"
proof (cases "trim s")
  case Nil
  then show ?thesis by (simp only: Nil) (simp add: trim_def)
next
  case (Cons c cs)
  have head: "dropWhile is_space (trim s) = trim s"
    using trim_head [of s] Cons by simp
  have tail: "rev (trim s) = dropWhile is_space (rev (dropWhile is_space s))"
    by (simp add: trim_def)
  have "dropWhile is_space (rev (trim s)) = rev (trim s)"
    unfolding tail by (rule dropWhile_idem)
  then show ?thesis unfolding trim_def [of "trim s"] head by simp
qed

lemma split_list_clean: "x \<in> set (split_list raw) \<Longrightarrow> x \<noteq> [] \<and> trim x = x"
  by (auto simp: split_list_def)

lemma env_list_clean: "x \<in> set (env_list env key) \<Longrightarrow> x \<noteq> [] \<and> trim x = x"
  by (cases "env key") (simp_all add: env_list_def split_list_clean)

lemma parse_jwt_secret_length: "parse_jwt_secret env cd = Inr k \<Longrightarrow> length k = 32"
  by (auto simp: parse_jwt_secret_def decode_jwt_secret_def dest: try_array_length)

lemma parse_signing_digest_length: "parse_signing_digest env cd key = Inr (Some k) \<Longrightarrow> length k = 32"
  by (auto simp: parse_signing_digest_def decode_signing_digest_def Let_def
      split: option.splits if_splits dest: try_array_length)

lemma parse_decryption_key_length:
  "parse_play_integrity_decryption_key env cd = Inr (Some k) \<Longrightarrow> length k = 32"
  by (auto simp: parse_play_integrity_decryption_key_def decode_play_integrity_decryption_key_def
      split: option.splits if_splits dest: try_array_length)

lemma parse_widevine_key_length: "parse_widevine env cd = Inr (Some w) \<Longrightarrow> length (wv_hmac_key w) = 32"
  by (auto simp: parse_widevine_def decode_widevine_hmac_key_def split: if_splits dest: try_array_length)

lemma attestation_complete_Inr:
  "attestation_complete on a i p d e = Inr u \<longleftrightarrow> (on \<longrightarrow> a \<noteq> [] \<and> i \<noteq> [] \<and> p \<noteq> [] \<and> d \<noteq> None \<and> e \<noteq> None)"
  by (auto simp: attestation_complete_def)

text \<open>What a successfully read configuration took from the environment.\<close>

lemma from_env_parts:
  assumes "from_env env cd = Inr c"
  shows "parse_jwt_secret env cd = Inr (jwt_secret c)"
    "attester_account_from_env env cd = Inr (attester_account c)"
    "env ''DEVICE_ATTESTATION_DATABASE_URL'' = Some (database_url c) \<and> trim (database_url c) \<noteq> []"
    "attestation_complete (auth_enabled c) (apple_app_attest_app_ids c) (ios_package_names c)
       (android_package_names c) (android_signing_digest_playstore c) (android_signing_digest_website c) = Inr ()"
    "apple_app_attest_app_ids c = env_list env ''APPLE_APP_ATTEST_APP_IDS''"
    "ios_package_names c = env_list env ''IOS_PACKAGE_NAMES''"
    "android_package_names c = env_list env ''ANDROID_PACKAGE_NAMES''"
    "parse_signing_digest env cd ''ANDROID_SIGNING_DIGEST_PLAYSTORE'' = Inr (android_signing_digest_playstore c)"
    "parse_signing_digest env cd ''ANDROID_SIGNING_DIGEST_WEBSITE'' = Inr (android_signing_digest_website c)"
    "parse_play_integrity_decryption_key env cd = Inr (play_integrity_decryption_key c)"
    "(play_integrity_decryption_key c = None) = (play_integrity_verification_key c = None)"
    "parse_widevine env cd = Inr (widevine c)"
  using assms unfolding from_env_def Let_def
  by (auto split: option.splits if_splits)

section \<open>Properties\<close>

text \<open>A well-formed configuration: what every later check of a device relies on.\<close>

definition config_ok :: "config \<Rightarrow> bool" where
  "config_ok c \<longleftrightarrow>
     length (jwt_secret c) = 32 \<and> trim (database_url c) \<noteq> [] \<and>
     (auth_enabled c \<longrightarrow> apple_app_attest_app_ids c \<noteq> [] \<and> ios_package_names c \<noteq> [] \<and>
        android_package_names c \<noteq> [] \<and> android_signing_digest_playstore c \<noteq> None \<and>
        android_signing_digest_website c \<noteq> None) \<and>
     list_all (\<lambda>s. s \<noteq> [] \<and> trim s = s)
       (apple_app_attest_app_ids c @ ios_package_names c @ android_package_names c) \<and>
     pred_option (\<lambda>d. length d = 32) (android_signing_digest_playstore c) \<and>
     pred_option (\<lambda>d. length d = 32) (android_signing_digest_website c) \<and>
     pred_option (\<lambda>k. length k = 32) (play_integrity_decryption_key c) \<and>
     (play_integrity_decryption_key c = None) = (play_integrity_verification_key c = None) \<and>
     pred_option (\<lambda>w. length (wv_hmac_key w) = 32) (widevine c)"

text \<open>C11: a configuration that loads is well formed. Keys have their fixed lengths, the two
  self-managed Play Integrity keys come together, the allow-lists hold trimmed non-empty names,
  and attestation is never switched on with an empty allow-list or a missing signing digest; and
  it loads only where the attester account is set.\<close>

theorem from_env_ok:
  assumes "from_env env cd = Inr c"
  shows "config_ok c \<and> env ''ATTESTER_ACCOUNT'' \<noteq> None"
proof
  note parts = from_env_parts [OF assms]
  have lists: "list_all (\<lambda>s. s \<noteq> [] \<and> trim s = s)
      (apple_app_attest_app_ids c @ ios_package_names c @ android_package_names c)"
    unfolding parts(5-7) list_all_iff using env_list_clean by auto
  show "config_ok c"
    unfolding config_ok_def
  proof (intro conjI lists)
    show "auth_enabled c \<longrightarrow> apple_app_attest_app_ids c \<noteq> [] \<and> ios_package_names c \<noteq> [] \<and>
        android_package_names c \<noteq> [] \<and> android_signing_digest_playstore c \<noteq> None \<and>
        android_signing_digest_website c \<noteq> None"
      using parts(4) by (simp add: attestation_complete_Inr)
    show "pred_option (\<lambda>d. length d = 32) (android_signing_digest_playstore c)"
      using parts(8) parse_signing_digest_length by (cases "android_signing_digest_playstore c") auto
    show "pred_option (\<lambda>d. length d = 32) (android_signing_digest_website c)"
      using parts(9) parse_signing_digest_length by (cases "android_signing_digest_website c") auto
    show "pred_option (\<lambda>k. length k = 32) (play_integrity_decryption_key c)"
      using parts(10) parse_decryption_key_length by (cases "play_integrity_decryption_key c") auto
    show "pred_option (\<lambda>w. length (wv_hmac_key w) = 32) (widevine c)"
      using parts(12) parse_widevine_key_length by (cases "widevine c") auto
  qed (use parts parse_jwt_secret_length in simp_all)
  show "env ''ATTESTER_ACCOUNT'' \<noteq> None"
    using parts(2) by (auto simp: attester_account_from_env_def)
qed

definition demo_codecs :: codecs where
  "demo_codecs = \<lparr>cd_hex = \<lambda>s. Inr (replicate 32 1), cd_b64 = \<lambda>s. Inl ''bad'', cd_ss58 = \<lambda>s. Inr (replicate 32 2),
     cd_p256_spki = \<lambda>b. Inr (), cd_ec_pem = \<lambda>s. Inr (), cd_rsa_pem = \<lambda>s. Inr (),
     cd_service_account = \<lambda>b. Inl ''none'', cd_socket_addr = \<lambda>s. Inr s\<rparr>"

definition demo_env :: env_vars where
  "demo_env = [''DEVICE_ATTESTATION_DATABASE_URL'' \<mapsto> ''postgres'', ''JWT_ED25519_SECRET'' \<mapsto> ''0xab'',
     ''ATTESTER_ACCOUNT'' \<mapsto> ''5F'', ''AUTH_ENABLED'' \<mapsto> ''yes'',
     ''APPLE_APP_ATTEST_APP_IDS'' \<mapsto> ''T.app'', ''IOS_PACKAGE_NAMES'' \<mapsto> ''a , b'',
     ''ANDROID_PACKAGE_NAMES'' \<mapsto> ''c'', ''ANDROID_SIGNING_DIGEST_PLAYSTORE'' \<mapsto> ''5A:A3'',
     ''ANDROID_SIGNING_DIGEST_WEBSITE'' \<mapsto> ''5AA3'']"

lemma demo_reads:
  "parse_var demo_env (cd_socket_addr demo_codecs) ''BIND_ADDR'' ''0.0.0.0:8080'' = Inr ''0.0.0.0:8080''"
  "demo_env ''DEVICE_ATTESTATION_DATABASE_URL'' = Some ''postgres''" "trim ''postgres'' = ''postgres''"
  "parse_jwt_secret demo_env demo_codecs = Inr (replicate 32 1)"
  "env_bool demo_env ''AUTH_ENABLED'' False = Inr True"
  "env_list demo_env ''APPLE_APP_ATTEST_APP_IDS'' = [''T.app'']"
  "env_list demo_env ''IOS_PACKAGE_NAMES'' = [''a'', ''b'']"
  "env_list demo_env ''ANDROID_PACKAGE_NAMES'' = [''c'']"
  "parse_signing_digest demo_env demo_codecs ''ANDROID_SIGNING_DIGEST_PLAYSTORE'' = Inr (Some (replicate 32 1))"
  "parse_signing_digest demo_env demo_codecs ''ANDROID_SIGNING_DIGEST_WEBSITE'' = Inr (Some (replicate 32 1))"
  "attester_account_from_env demo_env demo_codecs = Inr (replicate 32 2)"
  by code_simp+

lemma demo_unset:
  "parse_play_integrity_decryption_key demo_env demo_codecs = Inr None"
  "parse_play_integrity_verification_key demo_env demo_codecs = Inr None"
  "env_bool demo_env ''ENFORCE_AUTH'' False = Inr False" "env_bool demo_env ''QUEUE_ENABLED'' False = Inr False"
  "env_bool demo_env ''REGISTRATION_VOUCHERS_ENABLED'' False = Inr False"
  "parse_widevine demo_env demo_codecs = Inr None" "parse_device_check demo_env demo_codecs = Inr None"
  "parse_google_credentials demo_env demo_codecs = Inr None"
  "parse_var demo_env p ''ACCESS_TOKEN_TTL_SECS'' d = map_error (Invalid ''ACCESS_TOKEN_TTL_SECS'') (p d)"
  "parse_var demo_env p ''REFRESH_TOKEN_TTL_SECS'' d = map_error (Invalid ''REFRESH_TOKEN_TTL_SECS'') (p d)"
  "parse_var demo_env p ''CHALLENGE_TTL_SECS'' d = map_error (Invalid ''CHALLENGE_TTL_SECS'') (p d)"
  "parse_var demo_env p ''AUTH_RATE_LIMIT'' d = map_error (Invalid ''AUTH_RATE_LIMIT'') (p d)"
  "parse_var demo_env p ''AUTH_RATE_WINDOW_SECS'' d = map_error (Invalid ''AUTH_RATE_WINDOW_SECS'') (p d)"
  "parse_var demo_env p ''DOTNS_INTAKE_FRESHNESS_MAX_AGE_SECS'' d =
     map_error (Invalid ''DOTNS_INTAKE_FRESHNESS_MAX_AGE_SECS'') (p d)"
  "parse_var demo_env p ''DOTNS_MAX_FUTURE_SKEW_SECS'' d = map_error (Invalid ''DOTNS_MAX_FUTURE_SKEW_SECS'') (p d)"
  "parse_var demo_env p ''ANDROID_ATTESTATION_CRL_CACHE_TTL_SECS'' d =
     map_error (Invalid ''ANDROID_ATTESTATION_CRL_CACHE_TTL_SECS'') (p d)"
  "parse_var demo_env p ''ANDROID_ATTESTATION_CRL_MAX_STALE_SECS'' d =
     map_error (Invalid ''ANDROID_ATTESTATION_CRL_MAX_STALE_SECS'') (p d)"
  "parse_var demo_env m ''PLAY_INTEGRITY_MODE'' d = map_error (Invalid ''PLAY_INTEGRITY_MODE'') (m d)"
  by (simp_all add: demo_env_def parse_play_integrity_decryption_key_def parse_play_integrity_verification_key_def
      env_bool_def parse_widevine_def parse_device_check_def parse_google_credentials_def parse_var_def)

lemma demo_defaults:
  "parse_uint (2 ^ 64) ''86400'' = Inr 86400" "parse_uint (2 ^ 64) ''2592000'' = Inr 2592000"
  "parse_uint (2 ^ 64) ''300'' = Inr 300" "parse_uint (2 ^ 32) ''30'' = Inr 30"
  "parse_uint (2 ^ 64) ''60'' = Inr 60" "parse_uint (2 ^ 32) ''600'' = Inr 600"
  "parse_uint (2 ^ 64) ''3600'' = Inr 3600" "play_integrity_mode_from_str ''strict'' = Inr Strict"
  by (simp_all add: parse_uint_def play_integrity_mode_from_str_def Let_def)

theorem from_env_ok_witness:
  "\<exists>c. from_env demo_env demo_codecs = Inr c \<and> config_ok c \<and> auth_enabled c \<and> ios_package_names c = [''a'', ''b'']"
proof -
  have "case from_env demo_env demo_codecs of Inl _ \<Rightarrow> False
      | Inr c \<Rightarrow> auth_enabled c \<and> ios_package_names c = [''a'', ''b'']"
    unfolding from_env_def Let_def unfolding demo_reads demo_unset demo_defaults
    by (simp add: demo_reads ensure_def attestation_complete_def map_error_def)
  with from_env_ok show ?thesis by (cases "from_env demo_env demo_codecs") auto
qed

lemma as_i32_eq: "as_i32 n = (int n + 2 ^ 31) mod 2 ^ 32 - 2 ^ 31"
  using int_word_sint [where 'a = 32, of "int n"] by (simp add: as_i32_def)

lemma as_i32_small: "n < 2 ^ 31 \<Longrightarrow> as_i32 n = int n"
  by (simp add: as_i32_eq)

lemma as_i32_wraps:
  assumes "2 ^ 31 \<le> n" "n < 2 ^ 32"
  shows "as_i32 n = int n - 2 ^ 32"
proof -
  have "(int n + 2 ^ 31) mod 2 ^ 32 = (int n + 2 ^ 31 - 2 ^ 32) mod 2 ^ 32"
    by (metis minus_mod_self2)
  also have "\<dots> = int n + 2 ^ 31 - 2 ^ 32" using assms by (intro mod_pos_pos_trivial) simp_all
  finally show ?thesis by (simp add: as_i32_eq)
qed

text \<open>the attempt budget of the writer is read as a 64-bit number and cut to 32 bits. Below
  2^31 the configured number is used; from 2^31 to 2^32 the budget becomes negative.\<close>

theorem max_attempts_cut:
  assumes "writer_config_from_env env cd fresh = Inr wc"
    and "env ''CHAIN_WRITER_MAX_ATTEMPTS'' = Some v" "parse_uint (2 ^ 64) v = Inr n"
  shows "(n < 2 ^ 31 \<longrightarrow> wc_max_attempts wc = int n) \<and>
    (2 ^ 31 \<le> n \<and> n < 2 ^ 32 \<longrightarrow> wc_max_attempts wc = int n - 2 ^ 32 \<and> wc_max_attempts wc < 0)"
proof -
  have "wc_max_attempts wc = as_i32 (env_u64 env ''CHAIN_WRITER_MAX_ATTEMPTS'' 8)"
    using assms(1) unfolding writer_config_from_env_def by auto
  also have "\<dots> = as_i32 n" using assms(2,3) by (simp add: env_u64_def env_lenient_def)
  finally show ?thesis
    by (simp add: as_i32_small as_i32_wraps)
qed

definition demo_writer_env :: env_vars where
  "demo_writer_env = [''DEVICE_ATTESTATION_DATABASE_URL'' \<mapsto> ''postgres'', ''CHAIN_WRITER_SIGNER_SURI'' \<mapsto> ''suri'',
     ''ATTESTER_ACCOUNT'' \<mapsto> ''5F'', ''ASSET_HUB_RPC_URL'' \<mapsto> ''wss'',
     ''CHAIN_WRITER_MAX_ATTEMPTS'' \<mapsto> ''4294967295'']"

lemma demo_writer_config:
  "\<exists>wc. writer_config_from_env demo_writer_env demo_codecs ''x'' = Inr wc"
  by (simp add: writer_config_from_env_def demo_writer_env_def demo_codecs_def required_var_def trim_def is_space_def
      attester_account_from_env_def parse_attester_account_def env_bool_def strict_def env_u64_strict_def
      ensure_def ok_or_def map_error_def)

theorem max_attempts_cut_witness:
  "\<exists>wc. writer_config_from_env demo_writer_env demo_codecs ''x'' = Inr wc \<and> wc_max_attempts wc = -1"
proof -
  have "demo_writer_env ''CHAIN_WRITER_MAX_ATTEMPTS'' = Some ''4294967295''" by (simp add: demo_writer_env_def)
  moreover have "parse_uint (2 ^ 64) ''4294967295'' = Inr 4294967295"
    by (simp add: parse_uint_def Let_def)
  ultimately show ?thesis
    using demo_writer_config max_attempts_cut [of demo_writer_env demo_codecs "''x''"] by fastforce
qed

end
