(* ===== verification/Schema.thy ===== *)
theory Schema
  imports Prelude
begin

text \<open>
  The tables of the device-attestation database, as its migrations declare them, and
  the two status enumerations of the registration outbox. The \<open>status\<close> columns hold
  the enumerations themselves; \<open>status_str_inj\<close> and \<open>dotns_status_str_inj\<close> show that the
  stored strings identify them. The attestation payload of a reservation never changes
  after the insert, so a row carries it as one \<open>new_reservation\<close> record.
\<close>

section \<open>Status enumerations\<close>

datatype status = Queued | Reserved | Submitting | Assigned | RetryAfter | FailedTerminal

datatype dotns_status =
  DotnsPending | DotnsSubmitting | DotnsReserved | DotnsRetryAfter | DotnsFailedTerminal
| DotnsExpired | DotnsAbandoned

fun status_str :: "status \<Rightarrow> string" where
  "status_str Queued = ''QUEUED''"
| "status_str Reserved = ''RESERVED''"
| "status_str Submitting = ''SUBMITTING''"
| "status_str Assigned = ''ASSIGNED''"
| "status_str RetryAfter = ''RETRY_AFTER''"
| "status_str FailedTerminal = ''FAILED_TERMINAL''"

definition status_all :: "status list" where
  "status_all = [Queued, Reserved, Submitting, Assigned, RetryAfter, FailedTerminal]"

fun dotns_status_str :: "dotns_status \<Rightarrow> string" where
  "dotns_status_str DotnsPending = ''PENDING''"
| "dotns_status_str DotnsSubmitting = ''SUBMITTING''"
| "dotns_status_str DotnsReserved = ''RESERVED''"
| "dotns_status_str DotnsRetryAfter = ''RETRY_AFTER''"
| "dotns_status_str DotnsFailedTerminal = ''FAILED_TERMINAL''"
| "dotns_status_str DotnsExpired = ''EXPIRED''"
| "dotns_status_str DotnsAbandoned = ''ABANDONED''"

definition dotns_status_all :: "dotns_status list" where
  "dotns_status_all =
     [DotnsPending, DotnsSubmitting, DotnsReserved, DotnsRetryAfter, DotnsFailedTerminal,
      DotnsExpired, DotnsAbandoned]"

lemma status_str_inj [simp]: "status_str a = status_str b \<longleftrightarrow> a = b"
  by (cases a; cases b) simp_all

lemma dotns_status_str_inj [simp]: "dotns_status_str a = dotns_status_str b \<longleftrightarrow> a = b"
  by (cases a; cases b) simp_all

lemma in_status_all [simp]: "s \<in> set status_all"
  by (cases s) (simp_all add: status_all_def)

lemma in_dotns_status_all [simp]: "s \<in> set dotns_status_all"
  by (cases s) (simp_all add: dotns_status_all_def)

section \<open>Rows\<close>

record new_reservation =
  n_account_id :: string
  n_candidate_account_id :: string
  n_base :: string
  n_digits :: string
  n_full_username :: string
  n_candidate_signature :: bytes
  n_ring_vrf_key :: bytes
  n_proof_of_ownership :: bytes
  n_consumer_registration_signature :: bytes
  n_identifier_key :: bytes
  n_dotns_signature :: "bytes option"
  n_dotns_signed_at :: "int option"
  n_reserved_username :: "string option"
  n_payload_version :: u16

record reservation_row =
  r_id :: int
  r_new :: new_reservation
  r_status :: status
  r_tx_hash :: "string option"
  r_nonce :: "int option"
  r_attempt :: int
  r_not_before :: "instant option"
  r_last_error :: "string option"
  r_submitted_at :: "instant option"
  r_created_at :: instant
  r_updated_at :: instant
  r_queue_group :: int
  r_dotns_status :: "dotns_status option"
  r_dotns_tx_hash :: "string option"
  r_dotns_attempt :: int
  r_dotns_not_before :: "instant option"
  r_dotns_last_error :: "string option"

record lease_row =
  holder_id :: string
  lease_epoch :: int
  lease_expires_at :: instant
  heartbeat_at :: instant

datatype device_status = DevicePending | DeviceConsumed

record device_row =
  device_hmac :: bytes
  device_status :: device_status
  device_reservation :: "int option"
  device_created_at :: instant
  device_updated_at :: instant

record voucher_row =
  minted_batch :: string
  voucher_expires_at :: instant
  voucher_used_at :: "instant option"

record challenge_row =
  challenge_expires_at :: instant
  challenge_consumed_at :: "instant option"

record refresh_row =
  rt_account_id :: string
  rt_app_from_official_store :: bool
  rt_platform :: "string option"
  rt_expires_at :: instant
  rt_used_at :: "instant option"
  rt_replaced_by :: "string option"

record app_attest_row =
  aa_public_key :: bytes
  aa_receipt :: bytes
  aa_sign_count :: int
  aa_registering_client_id :: "bytes option"
  aa_last_asserted_at :: "instant option"

record tables =
  username_reservations :: "reservation_row list"
  next_reservation_id :: int
  writer_lease :: "string \<Rightarrow> lease_row option"
  widevine_devices :: "device_row list"
  registration_vouchers :: "bytes \<Rightarrow> voucher_row option"
  auth_challenges :: "bytes \<Rightarrow> challenge_row option"
  refresh_tokens :: "string \<Rightarrow> refresh_row option"
  app_attest_keys :: "bytes \<Rightarrow> app_attest_row option"

definition empty_tables :: tables where
  "empty_tables = \<lparr>username_reservations = [], next_reservation_id = 1,
     writer_lease = (\<lambda>_. None), widevine_devices = [], registration_vouchers = (\<lambda>_. None),
     auth_challenges = (\<lambda>_. None), refresh_tokens = (\<lambda>_. None),
     app_attest_keys = (\<lambda>_. None)\<rparr>"

section \<open>Rows by id\<close>

abbreviation r_full_username :: "reservation_row \<Rightarrow> string" where
  "r_full_username r \<equiv> n_full_username (r_new r)"

text \<open>\<open>UPDATE username_reservations SET f WHERE c\<close>, with the number of rows it changed.\<close>

definition update_rows ::
  "(reservation_row \<Rightarrow> bool) \<Rightarrow> (reservation_row \<Rightarrow> reservation_row) \<Rightarrow> tables \<Rightarrow> nat \<times> tables" where
  "update_rows c f t =
     (length (filter c (username_reservations t)),
      t\<lparr>username_reservations := map (\<lambda>r. if c r then f r else r) (username_reservations t)\<rparr>)"

definition find_row :: "int \<Rightarrow> tables \<Rightarrow> reservation_row option" where
  "find_row i t = find (\<lambda>r. r_id r = i) (username_reservations t)"

text \<open>The primary key and the unique index of the reservations, and the schema's CHECKs.\<close>

definition reservations_ok :: "tables \<Rightarrow> bool" where
  "reservations_ok t \<longleftrightarrow>
     distinct (map r_id (username_reservations t)) \<and>
     distinct (map r_full_username (username_reservations t)) \<and>
     list_all (\<lambda>r. r_id r < next_reservation_id t \<and> 1 \<le> r_queue_group r \<and> r_queue_group r \<le> 4 \<and>
       1 \<le> unat (n_payload_version (r_new r)) \<and> unat (n_payload_version (r_new r)) < 2 ^ 15)
       (username_reservations t)"

lemma find_row_SomeD:
  "find_row i t = Some r \<Longrightarrow> r \<in> set (username_reservations t) \<and> r_id r = i"
  by (auto simp: find_row_def find_Some_iff in_set_conv_nth)

lemma find_row_None: "find_row i t = None \<longleftrightarrow> i \<notin> r_id ` set (username_reservations t)"
  by (auto simp: find_row_def find_None_iff)

lemma find_map_id:
  assumes "\<And>r. r_id (f r) = r_id r"
  shows "find (\<lambda>r. r_id r = i) (map f rs) = map_option f (find (\<lambda>r. r_id r = i) rs)"
  using assms by (induction rs) auto

lemma find_row_unique:
  assumes "distinct (map r_id (username_reservations t))" "r \<in> set (username_reservations t)"
  shows "find_row (r_id r) t = Some r"
proof -
  have "distinct (map r_id rs) \<Longrightarrow> r \<in> set rs \<Longrightarrow> find (\<lambda>x. r_id x = r_id r) rs = Some r" for rs
    by (induction rs) (auto simp: image_iff)
  then show ?thesis using assms by (simp add: find_row_def)
qed

lemma find_row_update_rows:
  assumes "\<And>r. r_id (f r) = r_id r"
  shows "find_row i (snd (update_rows c f t)) =
           map_option (\<lambda>r. if c r then f r else r) (find_row i t)"
  using assms by (simp add: find_row_def update_rows_def find_map_id)

lemma update_rows_none:
  "(\<And>r. \<not> c r) \<Longrightarrow> update_rows c f t = (0, t)"
  by (simp add: update_rows_def)

lemma update_rows_frame [simp]:
  "writer_lease (snd (update_rows c f t)) = writer_lease t"
  "widevine_devices (snd (update_rows c f t)) = widevine_devices t"
  "registration_vouchers (snd (update_rows c f t)) = registration_vouchers t"
  "next_reservation_id (snd (update_rows c f t)) = next_reservation_id t"
  "auth_challenges (snd (update_rows c f t)) = auth_challenges t"
  "refresh_tokens (snd (update_rows c f t)) = refresh_tokens t"
  by (simp_all add: update_rows_def)

lemma reservations_ok_update_rows:
  assumes "reservations_ok t"
    and "\<And>r. r_id (f r) = r_id r" "\<And>r. r_new (f r) = r_new r"
    and "\<And>r. r \<in> set (username_reservations t) \<Longrightarrow> c r \<Longrightarrow>
           1 \<le> r_queue_group (f r) \<and> r_queue_group (f r) \<le> 4"
  shows "reservations_ok (snd (update_rows c f t))"
proof -
  let ?g = "\<lambda>r. if c r then f r else r"
  have "map r_id (map ?g rs) = map r_id rs"
    and "map r_full_username (map ?g rs) = map r_full_username rs" for rs
    using assms(2,3) by auto
  note ids = this
  show ?thesis
    using assms unfolding reservations_ok_def update_rows_def snd_conv
    by (auto simp: ids list_all_iff simp del: map_map)
qed

end
