(* ===== verification/Lease.thy ===== *)
theory Lease
  imports Schema
begin

text \<open>
  The single-writer lease (\<open>chain/lease.rs\<close>): \<open>fence\<close>, \<open>try_acquire\<close>, \<open>renew\<close> and
  \<open>alive\<close> over the \<open>writer_lease\<close> table, the contract of a fencing lease as a locale,
  and its interpretation on these statements. What a client of the lease relies on is
  proved in the locale: at any instant at most one holder and epoch is live, a live
  lease is not taken over by another holder, and an epoch that has been superseded is
  never live again.
\<close>

section \<open>Statements\<close>

definition lease_held :: "string \<Rightarrow> string \<Rightarrow> int \<Rightarrow> instant \<Rightarrow> tables \<Rightarrow> bool" where
  "lease_held name holder epoch now t =
     (case writer_lease t name of
        None \<Rightarrow> False
      | Some l \<Rightarrow> holder_id l = holder \<and> lease_epoch l = epoch \<and> lease_expires_at l > now)"

definition fence :: "string \<Rightarrow> string \<Rightarrow> int \<Rightarrow> (tables, bool) stmt" where
  "fence name holder epoch now t = (lease_held name holder epoch now t, t)"

definition try_acquire :: "string \<Rightarrow> string \<Rightarrow> u64 \<Rightarrow> (tables, int option) stmt" where
  "try_acquire name holder ttl now t =
     (let row = (\<lambda>e. \<lparr>holder_id = holder, lease_epoch = e,
                      lease_expires_at = now + secs (sint ttl), heartbeat_at = now\<rparr>);
          put = (\<lambda>e. t\<lparr>writer_lease := (writer_lease t)(name \<mapsto> row e)\<rparr>)
      in case writer_lease t name of
           None \<Rightarrow> (Some 1, put 1)
         | Some l \<Rightarrow>
             if lease_expires_at l < now \<or> holder_id l = holder
             then (Some (lease_epoch l + 1), put (lease_epoch l + 1))
             else (None, t))"

definition renew :: "string \<Rightarrow> string \<Rightarrow> int \<Rightarrow> u64 \<Rightarrow> (tables, bool) stmt" where
  "renew name holder epoch ttl now t =
     (case writer_lease t name of
        None \<Rightarrow> (False, t)
      | Some l \<Rightarrow>
          if holder_id l = holder \<and> lease_epoch l = epoch \<and> lease_expires_at l > now
          then (True, t\<lparr>writer_lease := (writer_lease t)(name \<mapsto>
                  l\<lparr>lease_expires_at := now + secs (sint ttl), heartbeat_at := now\<rparr>)\<rparr>)
          else (False, t))"

definition alive :: "string \<Rightarrow> (tables, bool) stmt" where
  "alive name now t =
     (case writer_lease t name of None \<Rightarrow> False | Some l \<Rightarrow> lease_expires_at l > now, t)"

text \<open>The epoch of a lease; 0 before the first acquisition.\<close>

definition current_epoch :: "string \<Rightarrow> tables \<Rightarrow> int" where
  "current_epoch name t = (case writer_lease t name of None \<Rightarrow> 0 | Some l \<Rightarrow> lease_epoch l)"

section \<open>The contract of a fencing lease\<close>

locale fencing_lease =
  fixes held :: "'n \<Rightarrow> 'h \<Rightarrow> int \<Rightarrow> instant \<Rightarrow> 't \<Rightarrow> bool"
    and acquire :: "'n \<Rightarrow> 'h \<Rightarrow> 'd \<Rightarrow> instant \<Rightarrow> 't \<Rightarrow> int option \<times> 't"
    and extend :: "'n \<Rightarrow> 'h \<Rightarrow> int \<Rightarrow> 'd \<Rightarrow> instant \<Rightarrow> 't \<Rightarrow> bool \<times> 't"
    and epoch_of :: "'n \<Rightarrow> 't \<Rightarrow> int"
  assumes held_epoch: "held n h e now t \<Longrightarrow> epoch_of n t = e"
    and held_unique: "held n h e now t \<Longrightarrow> held n h' e' now t \<Longrightarrow> h' = h \<and> e' = e"
    and acquire_epoch: "acquire n h d now t = (Some e, t') \<Longrightarrow> epoch_of n t < e \<and> epoch_of n t' = e"
    and acquire_frame: "m \<noteq> n \<Longrightarrow> epoch_of m (snd (acquire n h d now t)) = epoch_of m t"
    and acquire_refused: "acquire n h d now t = (None, t') \<Longrightarrow> t' = t"
    and acquire_blocked: "held n h' e now t \<Longrightarrow> h \<noteq> h' \<Longrightarrow> acquire n h d now t = (None, t)"
    and extend_epoch: "epoch_of m (snd (extend n h e d now t)) = epoch_of m t"
    and extend_held: "fst (extend n h e d now t) = held n h e now t"
begin

lemma acquire_mono: "epoch_of m t \<le> epoch_of m (snd (acquire n h d now t))"
proof (cases "m = n")
  case True
  then show ?thesis
    using acquire_epoch acquire_refused
    by (cases "acquire n h d now t"; cases "fst (acquire n h d now t)") fastforce+
qed (simp add: acquire_frame)

text \<open>An epoch that has been superseded is not held, and its holder cannot extend it.\<close>

lemma superseded_not_held: "e < epoch_of n t \<Longrightarrow> \<not> held n h e now t"
  using held_epoch by force

lemma superseded_not_extended: "e < epoch_of n t \<Longrightarrow> \<not> fst (extend n h e d now t)"
  by (simp add: extend_held superseded_not_held)

lemma acquire_supersedes:
  assumes "acquire n h d now t = (Some e, t')"
  shows "\<not> held n h' (epoch_of n t) now' t'"
  using acquire_epoch [OF assms] superseded_not_held by simp

end

section \<open>The writer lease meets the contract\<close>

interpretation wl: fencing_lease lease_held try_acquire renew current_epoch
proof
  show "lease_held n h e now t \<Longrightarrow> current_epoch n t = e" for n h e now t
    by (auto simp: lease_held_def current_epoch_def split: option.splits)
  show "lease_held n h e now t \<Longrightarrow> lease_held n h' e' now t \<Longrightarrow> h' = h \<and> e' = e" for n h e h' e' now t
    by (auto simp: lease_held_def split: option.splits)
  show "m \<noteq> n \<Longrightarrow> current_epoch m (snd (try_acquire n h d now t)) = current_epoch m t" for m n h d now t
    by (auto simp: try_acquire_def current_epoch_def Let_def split: option.splits)
  show "try_acquire n h d now t = (None, t') \<Longrightarrow> t' = t" for n h d now t t'
    by (auto simp: try_acquire_def Let_def split: option.splits if_splits)
  show "lease_held n h' e now t \<Longrightarrow> h \<noteq> h' \<Longrightarrow> try_acquire n h d now t = (None, t)" for n h h' e d now t
    by (auto simp: try_acquire_def lease_held_def Let_def split: option.splits)
  show "current_epoch m (snd (renew n h e d now t)) = current_epoch m t" for m n h e d now t
    by (auto simp: renew_def current_epoch_def split: option.splits)
  show "fst (renew n h e d now t) = lease_held n h e now t" for n h e d now t
    by (auto simp: renew_def lease_held_def split: option.splits)
next
  fix n h d now t e t'
  assume "try_acquire n h d now t = (Some e, t')"
  then show "current_epoch n t < e \<and> current_epoch n t' = e"
    by (auto simp: try_acquire_def current_epoch_def Let_def split: option.splits if_splits)
qed

section \<open>Frame\<close>

lemma fence_result: "fst (fence n h e now t) = lease_held n h e now t"
  "snd (fence n h e now t) = t"
  by (simp_all add: fence_def)

lemma alive_iff_held: "fst (alive n now t) \<longleftrightarrow> (\<exists>h e. lease_held n h e now t)"
  by (auto simp: alive_def lease_held_def split: option.splits)

lemma lease_ops_reservations [simp]:
  "username_reservations (snd (try_acquire n h d now t)) = username_reservations t"
  "username_reservations (snd (renew n h e d now t)) = username_reservations t"
  "next_reservation_id (snd (try_acquire n h d now t)) = next_reservation_id t"
  "next_reservation_id (snd (renew n h e d now t)) = next_reservation_id t"
  "widevine_devices (snd (try_acquire n h d now t)) = widevine_devices t"
  "widevine_devices (snd (renew n h e d now t)) = widevine_devices t"
  by (auto simp: try_acquire_def renew_def Let_def split: option.splits)

text \<open>A renewed lease is held until its new expiry, and acquiring one starts it.\<close>

lemma try_acquire_held:
  assumes "try_acquire n h d now t = (Some e, t')"
  shows "lease_held n h e now' t' \<longleftrightarrow> now' < now + secs (sint d)"
  using assms
  by (cases "writer_lease t n") (auto simp: try_acquire_def lease_held_def Let_def split: if_splits)

lemma renew_held:
  assumes "renew n h e d now t = (True, t')"
  shows "lease_held n h e now' t' \<longleftrightarrow> now' < now + secs (sint d)"
  using assms by (cases "writer_lease t n") (auto simp: renew_def lease_held_def split: if_splits)

end
