(* ===== verification/Outbox.thy ===== *)
theory Outbox
  imports Lease
begin

text \<open>
  The registration outbox (\<open>chain/outbox.rs\<close>) and the Widevine device records
  (\<open>widevine/store.rs\<close>): inserting a reservation, claiming due rows of either half, and
  the lease-guarded transitions of the People half (\<open>status\<close>) and of the dotNS half
  (\<open>dotns_status\<close>). Shown here: an insert keeps the keys and CHECKs and is refused on
  a taken name, a transition takes effect on one row and only while its guard holds
  the lease, the transitions of one half leave the other alone (a terminal People
  failure apart, which closes an open dotNS half), and a claim returns exactly the due
  rows, oldest first.
\<close>

section \<open>Inserting a reservation\<close>

datatype insert_error = Conflict | InsertDb string

definition insert_with :: "new_reservation \<Rightarrow> status \<Rightarrow> int \<Rightarrow> (tables, insert_error + int) stmt" where
  "insert_with r st queue_group now t =
     (let dotns = (if n_dotns_signature r \<noteq> None then Some DotnsPending else None);
          i = next_reservation_id t;
          row = \<lparr>r_id = i, r_new = r, r_status = st, r_tx_hash = None, r_nonce = None,
                 r_attempt = 0, r_not_before = None, r_last_error = None, r_submitted_at = None,
                 r_created_at = now, r_updated_at = now, r_queue_group = queue_group,
                 r_dotns_status = dotns, r_dotns_tx_hash = None, r_dotns_attempt = 0,
                 r_dotns_not_before = None, r_dotns_last_error = None\<rparr>
      in if unat (n_payload_version r) \<ge> 2 ^ 15
         then (Inl (InsertDb ''out of range integral type conversion attempted''), t)
         else if unat (n_payload_version r) < 1 \<or> \<not> (1 \<le> queue_group \<and> queue_group \<le> 4)
         then (Inl (InsertDb ''violates check constraint''), t)
         else if list_ex (\<lambda>q. r_full_username q = n_full_username r) (username_reservations t)
         then (Inl Conflict, t)
         else (Inr i, t\<lparr>username_reservations := username_reservations t @ [row],
                        next_reservation_id := i + 1\<rparr>))"

definition insert_reserved :: "new_reservation \<Rightarrow> (tables, insert_error + int) stmt" where
  "insert_reserved r = insert_with r Reserved 1"

definition insert_queued :: "new_reservation \<Rightarrow> int \<Rightarrow> (tables, insert_error + int) stmt" where
  "insert_queued r queue_group = insert_with r Queued queue_group"

section \<open>Reading\<close>

text \<open>\<open>str::parse::<u8>\<close> on the stored discriminator: an optional sign, digits, below 256.\<close>

fun parse_digits :: "nat \<Rightarrow> string \<Rightarrow> nat option" where
  "parse_digits acc [] = Some acc"
| "parse_digits acc (c # cs) =
     (if of_char c \<ge> (48::nat) \<and> of_char c \<le> (57::nat)
      then (let a = 10 * acc + (of_char c - 48) in if a < 256 then parse_digits a cs else None)
      else None)"

definition parse_u8 :: "string \<Rightarrow> nat option" where
  "parse_u8 s =
     (let body = (case s of c # cs \<Rightarrow> if c = CHR ''+'' then cs else s | [] \<Rightarrow> s)
      in if body = [] then None else parse_digits 0 body)"

definition allocated_discriminators :: "string \<Rightarrow> (tables, string + nat set) stmt" where
  "allocated_discriminators base now t =
     (let ds = map (\<lambda>r. parse_u8 (n_digits (r_new r)))
                 (filter (\<lambda>r. n_base (r_new r) = base) (username_reservations t))
      in if None \<in> set ds then Inl ''error occurred while decoding column digits''
         else Inr (the ` set ds), t)"

record reservation =
  res_id :: int
  full_username :: string
  candidate_account_id :: string
  candidate_signature :: bytes
  ring_vrf_key :: bytes
  proof_of_ownership :: bytes
  consumer_registration_signature :: bytes
  identifier_key :: bytes
  reserved_username :: "string option"
  attempt_no :: int
  dotns_signature :: "bytes option"
  dotns_signed_at :: "int option"
  dotns_attempt :: int
  payload_version :: u16
  created_at :: instant

definition row_to_reservation :: "reservation_row \<Rightarrow> reservation" where
  "row_to_reservation r =
     \<lparr>res_id = r_id r, full_username = n_full_username (r_new r),
      candidate_account_id = n_candidate_account_id (r_new r),
      candidate_signature = n_candidate_signature (r_new r),
      ring_vrf_key = n_ring_vrf_key (r_new r),
      proof_of_ownership = n_proof_of_ownership (r_new r),
      consumer_registration_signature = n_consumer_registration_signature (r_new r),
      identifier_key = n_identifier_key (r_new r),
      reserved_username = n_reserved_username (r_new r), attempt_no = r_attempt r,
      dotns_signature = n_dotns_signature (r_new r),
      dotns_signed_at = n_dotns_signed_at (r_new r), dotns_attempt = r_dotns_attempt r,
      payload_version = n_payload_version (r_new r), created_at = r_created_at r\<rparr>"

definition gate_passed :: "instant option \<Rightarrow> instant \<Rightarrow> bool" where
  "gate_passed gate now = (case gate of None \<Rightarrow> True | Some nb \<Rightarrow> nb \<le> now)"

definition due :: "instant \<Rightarrow> reservation_row \<Rightarrow> bool" where
  "due now r \<longleftrightarrow>
     r_status r = Reserved \<or> r_status r = RetryAfter \<and> gate_passed (r_not_before r) now"

definition dotns_due :: "instant \<Rightarrow> reservation_row \<Rightarrow> bool" where
  "dotns_due now r \<longleftrightarrow> r_status r = Assigned \<and>
     (r_dotns_status r = Some DotnsPending \<or>
      r_dotns_status r = Some DotnsRetryAfter \<and> gate_passed (r_dotns_not_before r) now)"

definition oldest_first :: "(reservation_row \<Rightarrow> bool) \<Rightarrow> tables \<Rightarrow> reservation_row list" where
  "oldest_first c t = sort_key r_created_at (filter c (username_reservations t))"

definition claim_due :: "nat \<Rightarrow> (tables, reservation list) stmt" where
  "claim_due limit now t = (map row_to_reservation (take limit (oldest_first (due now) t)), t)"

definition claim_dotns_due :: "nat \<Rightarrow> (tables, reservation list) stmt" where
  "claim_dotns_due limit now t =
     (map row_to_reservation (take limit (oldest_first (dotns_due now) t)), t)"

definition submitting :: "(tables, reservation list) stmt" where
  "submitting now t =
     (map row_to_reservation (oldest_first (\<lambda>r. r_status r = Submitting) t), t)"

definition dotns_submitting :: "(tables, reservation list) stmt" where
  "dotns_submitting now t =
     (map row_to_reservation (oldest_first (\<lambda>r. r_dotns_status r = Some DotnsSubmitting) t), t)"

record status_depth =
  depth :: int
  oldest_age :: "int option"

definition depth_of :: "instant \<Rightarrow> reservation_row list \<Rightarrow> status_depth" where
  "depth_of now rs =
     \<lparr>depth = int (length rs),
      oldest_age = (if rs = [] then None else Some (now - Min (set (map r_updated_at rs))))\<rparr>"

definition depth_by_status :: "(tables, (status \<times> status_depth) list) stmt" where
  "depth_by_status now t =
     (map (\<lambda>s. (s, depth_of now (filter (\<lambda>r. r_status r = s) (username_reservations t)))) status_all,
      t)"

definition dotns_depth_by_status :: "(tables, (dotns_status \<times> status_depth) list) stmt" where
  "dotns_depth_by_status now t =
     (map (\<lambda>s. (s, depth_of now (filter (\<lambda>r. r_dotns_status r = Some s)
        (username_reservations t)))) dotns_status_all, t)"

section \<open>Guarded transitions\<close>

record guard =
  lease_name :: string
  g_holder_id :: string
  epoch :: int

definition guard_held :: "guard \<Rightarrow> instant \<Rightarrow> tables \<Rightarrow> bool" where
  "guard_held g now t = lease_held (lease_name g) (g_holder_id g) (epoch g) now t"

text \<open>An \<open>UPDATE ... WHERE id = $1\<close> with the \<open>LEASE_HELD\<close> clause.\<close>

definition guarded_update ::
  "guard \<Rightarrow> int \<Rightarrow> (instant \<Rightarrow> reservation_row \<Rightarrow> reservation_row) \<Rightarrow> (tables, bool) stmt" where
  "guarded_update g i f now t =
     (case update_rows (\<lambda>r. r_id r = i \<and> guard_held g now t) (f now) t of
        (n, t') \<Rightarrow> (n = 1, t'))"

definition mark_submitting :: "guard \<Rightarrow> int \<Rightarrow> string \<Rightarrow> int \<Rightarrow> int \<Rightarrow> (tables, bool) stmt" where
  "mark_submitting g i tx_hash nonce att =
     guarded_update g i (\<lambda>now r. r\<lparr>r_status := Submitting, r_tx_hash := Some tx_hash,
       r_nonce := Some nonce, r_attempt := att, r_submitted_at := Some now, r_updated_at := now\<rparr>)"

definition dotns_open :: "dotns_status option \<Rightarrow> bool" where
  "dotns_open d \<longleftrightarrow> d = Some DotnsPending \<or> d = Some DotnsRetryAfter"

definition DOTNS_ABANDONED_REASON :: string where
  "DOTNS_ABANDONED_REASON =
     ''People registration failed terminally; dotNS reservation never attempted''"

definition coalesce :: "'a option \<Rightarrow> 'a option \<Rightarrow> 'a option" where
  "coalesce a b = (case a of None \<Rightarrow> b | Some x \<Rightarrow> Some x)"

definition set_status ::
  "status \<Rightarrow> (instant \<times> int) option \<Rightarrow> string option \<Rightarrow> instant \<Rightarrow> reservation_row \<Rightarrow> reservation_row" where
  "set_status st retry err now r =
     (let closes = (st = FailedTerminal \<and> dotns_open (r_dotns_status r))
      in r\<lparr>r_status := st,
           r_not_before := (if st = RetryAfter then map_option fst retry else r_not_before r),
           r_attempt := (case retry of Some (_, a) \<Rightarrow> a | None \<Rightarrow> r_attempt r),
           r_last_error := coalesce err (r_last_error r),
           r_dotns_status := (if closes then Some DotnsAbandoned else r_dotns_status r),
           r_dotns_last_error :=
             (if closes then Some DOTNS_ABANDONED_REASON else r_dotns_last_error r),
           r_dotns_not_before := (if closes then None else r_dotns_not_before r),
           r_updated_at := now\<rparr>)"

definition guarded_status ::
  "guard \<Rightarrow> int \<Rightarrow> status \<Rightarrow> (instant \<times> int) option \<Rightarrow> string option \<Rightarrow> (tables, bool) stmt" where
  "guarded_status g i st retry err = guarded_update g i (set_status st retry err)"

definition mark_assigned :: "guard \<Rightarrow> int \<Rightarrow> (tables, bool) stmt" where
  "mark_assigned g i = guarded_status g i Assigned None None"

definition mark_retry :: "guard \<Rightarrow> int \<Rightarrow> instant \<Rightarrow> int \<Rightarrow> string \<Rightarrow> (tables, bool) stmt" where
  "mark_retry g i not_before att err =
     guarded_status g i RetryAfter (Some (not_before, att)) (Some err)"

definition mark_failed :: "guard \<Rightarrow> int \<Rightarrow> string \<Rightarrow> (tables, bool) stmt" where
  "mark_failed g i err = guarded_status g i FailedTerminal None (Some err)"

definition mark_dotns_submitting :: "guard \<Rightarrow> int \<Rightarrow> string \<Rightarrow> int \<Rightarrow> (tables, bool) stmt" where
  "mark_dotns_submitting g i tx_hash att =
     guarded_update g i (\<lambda>now r. r\<lparr>r_dotns_status := Some DotnsSubmitting,
       r_dotns_tx_hash := Some tx_hash, r_dotns_attempt := att, r_dotns_not_before := None,
       r_updated_at := now\<rparr>)"

definition set_dotns_status ::
  "dotns_status \<Rightarrow> (instant \<times> int) option \<Rightarrow> string option \<Rightarrow> instant \<Rightarrow> reservation_row \<Rightarrow>
   reservation_row" where
  "set_dotns_status st retry err now r =
     r\<lparr>r_dotns_status := Some st,
       r_dotns_not_before :=
         (if st = DotnsRetryAfter then map_option fst retry else r_dotns_not_before r),
       r_dotns_attempt := (case retry of Some (_, a) \<Rightarrow> a | None \<Rightarrow> r_dotns_attempt r),
       r_dotns_last_error := coalesce err (r_dotns_last_error r),
       r_updated_at := now\<rparr>"

definition guarded_dotns_status ::
  "guard \<Rightarrow> int \<Rightarrow> dotns_status \<Rightarrow> (instant \<times> int) option \<Rightarrow> string option \<Rightarrow> (tables, bool) stmt" where
  "guarded_dotns_status g i st retry err = guarded_update g i (set_dotns_status st retry err)"

definition mark_dotns_reserved :: "guard \<Rightarrow> int \<Rightarrow> (tables, bool) stmt" where
  "mark_dotns_reserved g i = guarded_dotns_status g i DotnsReserved None None"

definition mark_dotns_retry :: "guard \<Rightarrow> int \<Rightarrow> instant \<Rightarrow> int \<Rightarrow> string \<Rightarrow> (tables, bool) stmt" where
  "mark_dotns_retry g i not_before att err =
     guarded_dotns_status g i DotnsRetryAfter (Some (not_before, att)) (Some err)"

definition mark_dotns_failed :: "guard \<Rightarrow> int \<Rightarrow> string \<Rightarrow> (tables, bool) stmt" where
  "mark_dotns_failed g i err = guarded_dotns_status g i DotnsFailedTerminal None (Some err)"

definition mark_dotns_expired :: "guard \<Rightarrow> int \<Rightarrow> string \<Rightarrow> (tables, bool) stmt" where
  "mark_dotns_expired g i err = guarded_dotns_status g i DotnsExpired None (Some err)"

section \<open>Widevine device records\<close>

datatype insert_device_error = Seen | DeviceDb string

definition seen :: "bytes \<Rightarrow> (tables, bool) stmt" where
  "seen hmac now t = (list_ex (\<lambda>d. device_hmac d = hmac) (widevine_devices t), t)"

definition insert_pending :: "bytes \<Rightarrow> int \<Rightarrow> (tables, insert_device_error + unit) stmt" where
  "insert_pending hmac reservation_id now t =
     (if list_ex (\<lambda>d. device_hmac d = hmac) (widevine_devices t) then (Inl Seen, t)
      else if find_row reservation_id t = None
      then (Inl (DeviceDb ''violates foreign key constraint''), t)
      else (Inr (), t\<lparr>widevine_devices := widevine_devices t @
              [\<lparr>device_hmac = hmac, device_status = DevicePending,
                device_reservation = Some reservation_id, device_created_at = now,
                device_updated_at = now\<rparr>]\<rparr>))"

definition pending_for :: "int \<Rightarrow> device_row \<Rightarrow> bool" where
  "pending_for i d \<longleftrightarrow> device_reservation d = Some i \<and> device_status d = DevicePending"

definition consume_for_reservation :: "int \<Rightarrow> (tables, unit) stmt" where
  "consume_for_reservation i now t =
     ((), t\<lparr>widevine_devices := map (\<lambda>d. if pending_for i d
        then d\<lparr>device_status := DeviceConsumed, device_reservation := None,
               device_updated_at := now\<rparr>
        else d) (widevine_devices t)\<rparr>)"

definition release_for_reservation :: "int \<Rightarrow> (tables, bool) stmt" where
  "release_for_reservation i now t =
     (list_ex (pending_for i) (widevine_devices t),
      t\<lparr>widevine_devices := filter (\<lambda>d. \<not> pending_for i d) (widevine_devices t)\<rparr>)"


section \<open>What a guarded update keeps\<close>

definition people_half where
  "people_half r = (r_status r, r_tx_hash r, r_nonce r, r_attempt r, r_not_before r,
     r_last_error r, r_submitted_at r)"

definition dotns_half where
  "dotns_half r = (r_dotns_status r, r_dotns_tx_hash r, r_dotns_attempt r,
     r_dotns_not_before r, r_dotns_last_error r)"

definition row_identity where
  "row_identity r = (r_id r, r_new r, r_created_at r, r_queue_group r)"

lemma guard_held_reservations [simp]:
  "guard_held g now (t\<lparr>username_reservations := rs\<rparr>) = guard_held g now t"
  "guard_held g now (snd (update_rows c f t)) = guard_held g now t"
  by (simp_all add: guard_held_def lease_held_def)

lemma guarded_update_stale: "\<not> guard_held g now t \<Longrightarrow> guarded_update g i f now t = (False, t)"
  by (simp add: guarded_update_def update_rows_none)

lemma snd_guarded_update:
  "snd (guarded_update g i f now t) =
     snd (update_rows (\<lambda>r. r_id r = i \<and> guard_held g now t) (f now) t)"
  by (simp add: guarded_update_def split: prod.splits)

lemma guarded_update_frame [simp]:
  "writer_lease (snd (guarded_update g i f now t)) = writer_lease t"
  "widevine_devices (snd (guarded_update g i f now t)) = widevine_devices t"
  "next_reservation_id (snd (guarded_update g i f now t)) = next_reservation_id t"
  "registration_vouchers (snd (guarded_update g i f now t)) = registration_vouchers t"
  by (simp_all add: snd_guarded_update)

lemma distinct_filter_id:
  "distinct (map r_id rs) \<Longrightarrow>
   length (filter (\<lambda>r. r_id r = i) rs) = (if i \<in> r_id ` set rs then 1 else 0)"
  by (induction rs) (auto simp: filter_empty_conv)

text \<open>An update of one row that keeps its identity: its key, payload, age and group.\<close>

locale row_update =
  fixes f :: "instant \<Rightarrow> reservation_row \<Rightarrow> reservation_row"
  assumes keeps_identity: "row_identity (f now r) = row_identity r"
begin

lemma keeps_fields [simp]:
  "r_id (f now r) = r_id r" "r_new (f now r) = r_new r"
  "r_created_at (f now r) = r_created_at r" "r_queue_group (f now r) = r_queue_group r"
  using keeps_identity [of now r] by (simp_all add: row_identity_def)

lemma result:
  assumes "reservations_ok t"
  shows "fst (guarded_update g i f now t) \<longleftrightarrow> guard_held g now t \<and> find_row i t \<noteq> None"
proof (cases "guard_held g now t")
  case True
  have "distinct (map r_id (username_reservations t))"
    using assms by (simp add: reservations_ok_def)
  then show ?thesis
    using True by (auto simp: guarded_update_def update_rows_def distinct_filter_id find_row_None)
qed (simp add: guarded_update_stale)

lemma effect:
  "find_row j (snd (guarded_update g i f now t)) =
     (if j = i \<and> guard_held g now t then map_option (f now) (find_row j t) else find_row j t)"
proof -
  have "find_row j (snd (guarded_update g i f now t)) =
      map_option (\<lambda>r. if r_id r = i \<and> guard_held g now t then f now r else r) (find_row j t)"
    unfolding snd_guarded_update by (rule find_row_update_rows) simp
  then show ?thesis
    by (cases "find_row j t") (auto dest: find_row_SomeD)
qed

lemma ok: "reservations_ok t \<Longrightarrow> reservations_ok (snd (guarded_update g i f now t))"
  unfolding snd_guarded_update
  by (rule reservations_ok_update_rows) (auto simp: reservations_ok_def list_all_iff)

lemma identities:
  "map row_identity (username_reservations (snd (guarded_update g i f now t))) =
     map row_identity (username_reservations t)"
  by (simp add: snd_guarded_update update_rows_def keeps_identity)

end

text \<open>An update of the dotNS half leaves the People half alone.\<close>

locale dotns_update = row_update +
  assumes keeps_people: "people_half (f now r) = people_half r"
begin

lemma people_untouched:
  "map people_half (username_reservations (snd (guarded_update g i f now t))) =
     map people_half (username_reservations t)"
  by (simp add: snd_guarded_update update_rows_def keeps_people)

end

text \<open>
  An update of the People half leaves the dotNS half alone, except that it may close
  an open dotNS half of a row it fails terminally.
\<close>

locale people_update = row_update +
  assumes keeps_dotns:
    "dotns_half (f now r) \<noteq> dotns_half r \<Longrightarrow>
     r_status (f now r) = FailedTerminal \<and> dotns_open (r_dotns_status r) \<and>
     r_dotns_status (f now r) = Some DotnsAbandoned"
    and settled: "r_status (f now r) = FailedTerminal \<Longrightarrow> \<not> dotns_open (r_dotns_status (f now r))"
begin

lemma dotns_kept_unless_failed:
  "r_status (f now r) \<noteq> FailedTerminal \<Longrightarrow> dotns_half (f now r) = dotns_half r"
  using keeps_dotns by blast

end

interpretation upd_submitting: people_update
  "\<lambda>now r. r\<lparr>r_status := Submitting, r_tx_hash := Some tx_hash, r_nonce := Some nonce,
     r_attempt := att, r_submitted_at := Some now, r_updated_at := now\<rparr>" for tx_hash nonce att
  by unfold_locales (auto simp: row_identity_def dotns_half_def)

interpretation upd_status: people_update "set_status st retry err" for st retry err
  by unfold_locales
    (auto simp: row_identity_def dotns_half_def set_status_def dotns_open_def Let_def
      split: if_splits)

interpretation upd_dotns_submitting: dotns_update
  "\<lambda>now r. r\<lparr>r_dotns_status := Some DotnsSubmitting, r_dotns_tx_hash := Some tx_hash,
     r_dotns_attempt := att, r_dotns_not_before := None, r_updated_at := now\<rparr>" for tx_hash att
  by unfold_locales (auto simp: row_identity_def people_half_def)

interpretation upd_dotns_status: dotns_update "set_dotns_status st retry err" for st retry err
  by unfold_locales (auto simp: row_identity_def people_half_def set_dotns_status_def)

lemmas mark_defs =
  mark_submitting_def mark_assigned_def mark_retry_def mark_failed_def guarded_status_def
  mark_dotns_submitting_def mark_dotns_reserved_def mark_dotns_retry_def mark_dotns_failed_def
  mark_dotns_expired_def guarded_dotns_status_def

lemmas mark_ok [simp] = upd_submitting.ok upd_status.ok upd_dotns_submitting.ok upd_dotns_status.ok
lemmas mark_effect = upd_submitting.effect upd_status.effect upd_dotns_submitting.effect
  upd_dotns_status.effect
lemmas mark_result = upd_submitting.result upd_status.result upd_dotns_submitting.result
  upd_dotns_status.result
lemmas mark_identities = upd_submitting.identities upd_status.identities
  upd_dotns_submitting.identities upd_dotns_status.identities

section \<open>What an insert and the device records keep\<close>

lemma insert_with_Inr_iff:
  "(\<exists>i. fst (insert_with r st q now t) = Inr i) \<longleftrightarrow>
     1 \<le> unat (n_payload_version r) \<and> unat (n_payload_version r) < 2 ^ 15 \<and> 1 \<le> q \<and> q \<le> 4 \<and>
     n_full_username r \<notin> r_full_username ` set (username_reservations t)"
  by (auto simp: insert_with_def Let_def list_ex_iff) (metis image_eqI)

lemma insert_with_Inl: "fst (insert_with r st q now t) = Inl e \<Longrightarrow> snd (insert_with r st q now t) = t"
  by (auto simp: insert_with_def Let_def split: if_splits)

lemma insert_with_ok:
  "reservations_ok t \<Longrightarrow> reservations_ok (snd (insert_with r st q now t))"
  by (fastforce simp: insert_with_def reservations_ok_def list_all_iff list_ex_iff Let_def not_less)

lemma insert_with_frame [simp]:
  "writer_lease (snd (insert_with r st q now t)) = writer_lease t"
  "widevine_devices (snd (insert_with r st q now t)) = widevine_devices t"
  "registration_vouchers (snd (insert_with r st q now t)) = registration_vouchers t"
  by (auto simp: insert_with_def Let_def)

lemma insert_with_find:
  assumes "reservations_ok t" "fst (insert_with r st q now t) = Inr i"
  shows "find_row i t = None"
    and "\<exists>row. find_row i (snd (insert_with r st q now t)) = Some row \<and> r_new row = r \<and>
           r_status row = st \<and> r_created_at row = now \<and> r_queue_group row = q \<and>
           r_attempt row = 0 \<and> r_dotns_attempt row = 0 \<and>
           (r_dotns_status row = (if n_dotns_signature r = None then None else Some DotnsPending))"
    and "j \<noteq> i \<Longrightarrow> find_row j (snd (insert_with r st q now t)) = find_row j t"
proof -
  have i: "i = next_reservation_id t" using assms(2)
    by (auto simp: insert_with_def Let_def split: if_splits)
  then show none: "find_row i t = None"
    using assms(1) by (auto simp: find_row_None reservations_ok_def list_all_iff)
  have app: "find p (xs @ ys) = (case find p xs of None \<Rightarrow> find p ys | Some x \<Rightarrow> Some x)"
    for p :: "reservation_row \<Rightarrow> bool" and xs ys
    by (induction xs) auto
  show "\<exists>row. find_row i (snd (insert_with r st q now t)) = Some row \<and> r_new row = r \<and>
      r_status row = st \<and> r_created_at row = now \<and> r_queue_group row = q \<and>
      r_attempt row = 0 \<and> r_dotns_attempt row = 0 \<and>
      (r_dotns_status row = (if n_dotns_signature r = None then None else Some DotnsPending))"
    using assms(2) none i
    by (auto simp: insert_with_def Let_def find_row_def app split: if_splits)
  show "j \<noteq> i \<Longrightarrow> find_row j (snd (insert_with r st q now t)) = find_row j t"
    using assms(2) i
    by (auto simp: insert_with_def Let_def find_row_def app split: if_splits option.splits)
qed

text \<open>One record per device; a pending record names a reservation, a consumed one none.\<close>

definition device_ok :: "tables \<Rightarrow> device_row \<Rightarrow> bool" where
  "device_ok t d = (case device_reservation d of
       None \<Rightarrow> device_status d = DeviceConsumed
     | Some i \<Rightarrow> device_status d = DevicePending \<and> find_row i t \<noteq> None)"

definition devices_ok :: "tables \<Rightarrow> bool" where
  "devices_ok t \<longleftrightarrow> distinct (map device_hmac (widevine_devices t)) \<and>
     list_all (device_ok t) (widevine_devices t)"

lemma find_row_devices [simp]: "find_row i (t\<lparr>widevine_devices := ds\<rparr>) = find_row i t"
  by (simp add: find_row_def)

lemma device_ok_devices [simp]: "device_ok (t\<lparr>widevine_devices := ds\<rparr>) = device_ok t"
  by (rule ext) (simp add: device_ok_def split: option.splits)

lemma insert_pending_ok: "devices_ok t \<Longrightarrow> devices_ok (snd (insert_pending h i now t))"
  by (auto simp: insert_pending_def devices_ok_def list_all_iff list_ex_iff)
     (simp add: device_ok_def)

lemma consume_ok:
  assumes "devices_ok t"
  shows "devices_ok (snd (consume_for_reservation i now t))"
proof -
  let ?g = "\<lambda>d. if pending_for i d
      then d\<lparr>device_status := DeviceConsumed, device_reservation := None, device_updated_at := now\<rparr>
      else d"
  have "map device_hmac (map ?g ds) = map device_hmac ds" for ds
    by simp
  moreover have "device_ok t (d\<lparr>device_status := DeviceConsumed, device_reservation := None,
      device_updated_at := now\<rparr>)" for d
    by (simp add: device_ok_def)
  ultimately show ?thesis
    using assms by (auto simp: consume_for_reservation_def devices_ok_def list_all_iff simp del: map_map)
qed

lemma release_ok: "devices_ok t \<Longrightarrow> devices_ok (snd (release_for_reservation i now t))"
  by (auto simp: release_for_reservation_def devices_ok_def list_all_iff distinct_map_filter)

lemma consumed_never_released:
  "d \<in> set (widevine_devices t) \<Longrightarrow> device_status d = DeviceConsumed \<Longrightarrow>
   d \<in> set (widevine_devices (snd (release_for_reservation i now t)))"
  by (simp add: release_for_reservation_def pending_for_def)

lemma consume_keeps_hmacs:
  "map device_hmac (widevine_devices (snd (consume_for_reservation i now t))) =
   map device_hmac (widevine_devices t)"
  by (simp add: consume_for_reservation_def)

lemma device_ops_frame [simp]:
  "username_reservations (snd (insert_pending h i now t)) = username_reservations t"
  "username_reservations (snd (consume_for_reservation i now t)) = username_reservations t"
  "username_reservations (snd (release_for_reservation i now t)) = username_reservations t"
  "writer_lease (snd (insert_pending h i now t)) = writer_lease t"
  "writer_lease (snd (consume_for_reservation i now t)) = writer_lease t"
  "writer_lease (snd (release_for_reservation i now t)) = writer_lease t"
  "next_reservation_id (snd (insert_pending h i now t)) = next_reservation_id t"
  "next_reservation_id (snd (consume_for_reservation i now t)) = next_reservation_id t"
  "next_reservation_id (snd (release_for_reservation i now t)) = next_reservation_id t"
  by (auto simp: insert_pending_def consume_for_reservation_def release_for_reservation_def)

section \<open>Claims\<close>

lemma set_oldest_first: "set (oldest_first c t) = {r \<in> set (username_reservations t). c r}"
  by (auto simp: oldest_first_def)

lemma sorted_oldest_first: "sorted (map r_created_at (oldest_first c t))"
  by (simp add: oldest_first_def)

lemma oldest_first_distinct:
  "distinct (map r_id (username_reservations t)) \<Longrightarrow> distinct (map r_id (oldest_first c t))"
  by (simp add: oldest_first_def distinct_map inj_on_def)

lemma claim_from_rows:
  assumes "distinct (map r_id (username_reservations t))"
    and "r \<in> set (map row_to_reservation (take n (oldest_first c t)))"
  shows "\<exists>row. find_row (res_id r) t = Some row \<and> c row \<and> r = row_to_reservation row"
proof -
  obtain row where row: "row \<in> set (take n (oldest_first c t))" "r = row_to_reservation row"
    using assms(2) by auto
  then have "row \<in> set (username_reservations t)" "c row"
    using set_oldest_first [of c t] by (auto dest: in_set_takeD)
  then show ?thesis
    using row find_row_unique [OF assms(1), of row] by (auto simp: row_to_reservation_def)
qed


section \<open>A small database for the witnesses\<close>

definition demo_new :: new_reservation where
  "demo_new = \<lparr>n_account_id = ''0xaa'', n_candidate_account_id = ''5Alice'', n_base = ''alice'',
     n_digits = ''07'', n_full_username = ''alice.07'', n_candidate_signature = [],
     n_ring_vrf_key = [], n_proof_of_ownership = [], n_consumer_registration_signature = [],
     n_identifier_key = [], n_dotns_signature = Some [1], n_dotns_signed_at = Some 100,
     n_reserved_username = None, n_payload_version = 1\<rparr>"

definition demo_guard :: guard where
  "demo_guard = \<lparr>lease_name = ''writer'', g_holder_id = ''w1'', epoch = 1\<rparr>"

definition demo_leased :: tables where
  "demo_leased = snd (try_acquire ''writer'' ''w1'' 30 0 empty_tables)"

definition demo_tables :: tables where
  "demo_tables = snd (insert_reserved demo_new 5 demo_leased)"

lemmas demo_simps =
  demo_new_def demo_guard_def demo_leased_def demo_tables_def empty_tables_def
  try_acquire_def insert_reserved_def insert_with_def Let_def guard_held_def lease_held_def

lemma demo_ok: "reservations_ok demo_tables" "reservations_ok demo_leased"
  by (simp_all add: demo_simps reservations_ok_def)

lemma demo_held: "guard_held demo_guard 6 demo_tables"
  by (simp add: demo_simps)

section \<open>Properties\<close>

text \<open>C3: a writer whose lease is lost, superseded or expired changes nothing. Every
  guarded transition of either half of a reservation reports failure and leaves the whole
  database as it was when the guard's lease is not held at the instant of the statement.\<close>

theorem marks_fenced:
  assumes "\<not> guard_held g now t"
  shows "mark_submitting g i hash nonce att now t = (False, t) \<and>
    mark_assigned g i now t = (False, t) \<and>
    mark_retry g i nb att err now t = (False, t) \<and>
    mark_failed g i err now t = (False, t) \<and>
    mark_dotns_submitting g i hash att now t = (False, t) \<and>
    mark_dotns_reserved g i now t = (False, t) \<and>
    mark_dotns_retry g i nb att err now t = (False, t) \<and>
    mark_dotns_failed g i err now t = (False, t) \<and>
    mark_dotns_expired g i err now t = (False, t)"
  using assms by (simp add: mark_defs guarded_update_stale)

theorem marks_fenced_witness:
  "\<not> guard_held demo_guard 40000000 demo_tables \<and>
   mark_assigned demo_guard 1 40000000 demo_tables = (False, demo_tables)"
proof -
  have stale: "\<not> guard_held demo_guard 40000000 demo_tables"
    by (simp add: demo_simps)
  show ?thesis using stale marks_fenced [OF stale, of 1] by blast
qed

text \<open>the dotNS half never changes the People half. Whatever a dotNS transition
  records, every row keeps its status, transaction hash, nonce, attempts, retry gate, last
  error and submission time, and no row loses its key, payload, age or queue group.\<close>

theorem dotns_marks_keep_people:
  "map people_half (username_reservations (snd (mark_dotns_submitting g i hash att now t))) =
     map people_half (username_reservations t) \<and>
   map people_half (username_reservations (snd (guarded_dotns_status g i st retry err now t))) =
     map people_half (username_reservations t) \<and>
   map row_identity (username_reservations (snd (mark_dotns_submitting g i hash att now t))) =
     map row_identity (username_reservations t) \<and>
   map row_identity (username_reservations (snd (guarded_dotns_status g i st retry err now t))) =
     map row_identity (username_reservations t)"
  by (simp only: mark_dotns_submitting_def guarded_dotns_status_def mark_identities
      upd_dotns_submitting.people_untouched upd_dotns_status.people_untouched simp_thms)

text \<open>a terminal People failure closes an open dotNS half in the same statement. When
  \<open>mark_failed\<close> succeeds the row is FAILED_TERMINAL with the error recorded, its attempts are
  kept, a PENDING or RETRY_AFTER dotNS half becomes ABANDONED with its gate cleared, any other
  dotNS half and every other row are unchanged, and no claimable dotNS half is left behind.\<close>

theorem mark_failed_closes_dotns:
  assumes "reservations_ok t" and "mark_failed g i err now t = (True, t')"
  shows "\<exists>r r'. find_row i t = Some r \<and> find_row i t' = Some r' \<and>
    r_status r' = FailedTerminal \<and> r_last_error r' = Some err \<and> r_attempt r' = r_attempt r \<and>
    (if dotns_open (r_dotns_status r)
     then r_dotns_status r' = Some DotnsAbandoned \<and> r_dotns_not_before r' = None \<and>
          r_dotns_last_error r' = Some DOTNS_ABANDONED_REASON
     else dotns_half r' = dotns_half r) \<and>
    \<not> dotns_open (r_dotns_status r') \<and> (\<forall>j. j \<noteq> i \<longrightarrow> find_row j t' = find_row j t)"
proof -
  have held: "guard_held g now t" and "find_row i t \<noteq> None"
    using assms upd_status.result [OF assms(1)]
    by (auto simp: mark_failed_def guarded_status_def) (metis fst_conv)+
  then obtain r where r: "find_row i t = Some r" by blast
  let ?r' = "set_status FailedTerminal None (Some err) now r"
  have t': "t' = snd (guarded_update g i (set_status FailedTerminal None (Some err)) now t)"
    using assms(2) by (simp add: mark_failed_def guarded_status_def)
  have "find_row i t' = Some ?r'" and "\<forall>j. j \<noteq> i \<longrightarrow> find_row j t' = find_row j t"
    using r held by (simp_all add: t' upd_status.effect)
  with r show ?thesis
    by (auto simp: set_status_def dotns_half_def dotns_open_def coalesce_def Let_def)
qed

theorem mark_failed_closes_dotns_witness:
  "\<exists>t' r'. mark_failed demo_guard 1 ''boom'' 6 demo_tables = (True, t') \<and>
     find_row 1 t' = Some r' \<and> r_dotns_status r' = Some DotnsAbandoned"
proof -
  obtain t' where run: "mark_failed demo_guard 1 ''boom'' 6 demo_tables = (True, t')"
    by (simp add: mark_defs guarded_update_def update_rows_def demo_simps)
  have "\<exists>r. find_row 1 demo_tables = Some r \<and> dotns_open (r_dotns_status r)"
    by (simp add: find_row_def demo_simps dotns_open_def)
  with mark_failed_closes_dotns [OF demo_ok(1) run] run show ?thesis by fastforce
qed

text \<open>C6: an insert either reserves the name or says why not. A well-formed reservation
  whose name is free gets a fresh id, enters in the requested status with no attempts, with a
  pending dotNS half exactly when it carries a dotNS signature, and leaves every other row as
  it was; a taken name is a conflict; in both cases keys and schema checks stay intact.\<close>

theorem insert_reserves_once:
  assumes "reservations_ok t" "1 \<le> unat (n_payload_version r)"
    "unat (n_payload_version r) < 2 ^ 15" "1 \<le> q" "q \<le> 4"
  shows "case insert_with r st q now t of
      (Inr i, t') \<Rightarrow>
        n_full_username r \<notin> r_full_username ` set (username_reservations t) \<and>
        find_row i t = None \<and>
        (\<exists>row. find_row i t' = Some row \<and> r_new row = r \<and> r_status row = st \<and>
           r_attempt row = 0 \<and> r_queue_group row = q \<and>
           (r_dotns_status row = (if n_dotns_signature r = None then None else Some DotnsPending))) \<and>
        (\<forall>j. j \<noteq> i \<longrightarrow> find_row j t' = find_row j t) \<and> reservations_ok t'
    | (Inl e, t') \<Rightarrow> e = Conflict \<and> t' = t \<and>
        n_full_username r \<in> r_full_username ` set (username_reservations t)"
proof (cases "insert_with r st q now t")
  case (Pair res t')
  show ?thesis
  proof (cases res)
    case (Inl e)
    have "e = Conflict \<and> t' = t"
      using Pair Inl assms by (auto simp: insert_with_def Let_def split: if_splits)
    moreover have "\<not> (\<exists>i. fst (insert_with r st q now t) = Inr i)"
      using Pair Inl by simp
    then have "n_full_username r \<in> r_full_username ` set (username_reservations t)"
      unfolding insert_with_Inr_iff using assms by blast
    ultimately show ?thesis
      using Pair Inl by simp
  next
    case (Inr i)
    have ok: "fst (insert_with r st q now t) = Inr i" using Pair Inr by simp
    show ?thesis
      using insert_with_find [OF assms(1) ok] insert_with_ok [OF assms(1), of r st q now]
        insert_with_Inr_iff [of r st q now t] Pair Inr by auto
  qed
qed

theorem insert_reserves_once_witness:
  "fst (insert_with demo_new Reserved 1 7 demo_tables) = Inl Conflict \<and>
   (\<exists>row. find_row 1 demo_tables = Some row \<and> r_dotns_status row = Some DotnsPending)"
proof -
  have "case insert_with demo_new Reserved 1 5 demo_leased of (Inr i, t') \<Rightarrow>
      (\<exists>row. find_row i t' = Some row \<and> r_new row = demo_new \<and>
        r_dotns_status row = (if n_dotns_signature demo_new = None then None else Some DotnsPending))
      | (Inl e, t') \<Rightarrow> e = Conflict"
    using insert_reserves_once [OF demo_ok(2), of demo_new 1 Reserved 5]
    by (auto simp: demo_new_def split: prod.splits sum.splits)
  moreover have "insert_with demo_new Reserved 1 5 demo_leased = (Inr 1, demo_tables)"
    by (simp add: demo_simps)
  moreover have "fst (insert_with demo_new Reserved 1 7 demo_tables) = Inl Conflict"
    by (simp add: demo_simps)
  ultimately show ?thesis by (auto simp: demo_new_def)
qed

text \<open>a claim returns the oldest due rows and only those. \<open>claim_due\<close> lists distinct
  rows that are RESERVED, or RETRY_AFTER past their gate, oldest first; it leaves the tables
  alone; it returns every due row unless it filled its limit, and a due row it left out is no
  older than any row it took.\<close>

theorem claim_due_oldest:
  assumes "reservations_ok t" and "claim_due n now t = (rs, t')"
  shows "t' = t \<and> length rs \<le> n \<and> sorted (map created_at rs) \<and> distinct (map res_id rs) \<and>
    (\<forall>r \<in> set rs. \<exists>row. find_row (res_id r) t = Some row \<and> due now row \<and> r = row_to_reservation row) \<and>
    (\<forall>row \<in> set (username_reservations t). due now row \<longrightarrow> row_to_reservation row \<notin> set rs \<longrightarrow>
       length rs = n \<and> (\<forall>r \<in> set rs. created_at r \<le> r_created_at row))"
proof -
  let ?o = "oldest_first (due now) t"
  have ids: "distinct (map r_id (username_reservations t))"
    using assms(1) by (simp add: reservations_ok_def)
  have rs: "rs = map row_to_reservation (take n ?o)" and t': "t' = t"
    using assms(2) by (auto simp: claim_due_def)
  have keys: "map created_at rs = take n (map r_created_at ?o)" "map res_id rs = take n (map r_id ?o)"
    by (simp_all add: rs take_map row_to_reservation_def)
  have left: "length rs = n \<and> (\<forall>r \<in> set rs. created_at r \<le> r_created_at row)"
    if row: "row \<in> set (username_reservations t)" "due now row" "row_to_reservation row \<notin> set rs"
    for row
  proof -
    have "row \<in> set ?o" "row \<notin> set (take n ?o)"
      using row by (auto simp: set_oldest_first rs)
    then have later: "row \<in> set (drop n ?o)"
      by (metis Un_iff append_take_drop_id set_append)
    then have "length rs = n" by (cases "n \<le> length ?o") (auto simp: rs)
    moreover have "sorted (map r_created_at (take n ?o @ drop n ?o))"
      using sorted_oldest_first [of "due now" t] by simp
    then have "\<forall>x \<in> set (take n ?o). r_created_at x \<le> r_created_at row"
      using later unfolding map_append sorted_append by auto
    ultimately show ?thesis by (auto simp: rs row_to_reservation_def)
  qed
  show ?thesis
    using claim_from_rows [OF ids, of _ n "due now"] left sorted_oldest_first [of "due now" t]
      oldest_first_distinct [OF ids, of "due now"]
    by (auto simp: t' keys sorted_wrt_take) (simp_all add: rs)
qed

theorem claim_due_oldest_witness:
  "\<exists>rs. claim_due 8 6 demo_tables = (rs, demo_tables) \<and> length rs \<le> 8 \<and> map res_id rs = [1]"
proof -
  obtain rs t' where run: "claim_due 8 6 demo_tables = (rs, t')" by fastforce
  moreover have "map res_id rs = [1]"
    using run by (auto simp: claim_due_def oldest_first_def due_def row_to_reservation_def demo_simps)
  ultimately show ?thesis
    using claim_due_oldest [OF demo_ok(1) run] by auto
qed

end
