(* ===== verification/Queue.thy ===== *)
theory Queue
  imports Outbox
begin

text \<open>
  The registration queue (\<open>queue.rs\<close>): priority groups from balances, the FIFO snapshot,
  the drain simulation behind the queue-status endpoint, the advancer's promotion
  iteration, group refresh, the retirement janitor, the cadence check, and the advancer
  service loop as a step relation.

  The central result is that the simulation is exact: on a quiet database
  \<open>drain_estimate\<close> names the very iteration and pick order in which repeated
  \<open>advance_iteration\<close> promotes the claim. Both sides are proved equal to one abstract
  slot discipline, \<open>serve\<close>, on a FIFO list (the detour Data_Structures takes for queues).
\<close>

section \<open>Groups\<close>

definition SLOTS_PER_ITERATION :: nat where
  "SLOTS_PER_ITERATION = 4"

definition PLANCK_PER_DOT :: u128 where
  "PLANCK_PER_DOT = 10000000000"

definition group_for_balance :: "u128 \<Rightarrow> nat" where
  "group_for_balance p =
     (if p \<ge> 1000 * PLANCK_PER_DOT then 4
      else if p \<ge> 100 * PLANCK_PER_DOT then 3
      else if p \<ge> 10 * PLANCK_PER_DOT then 2
      else 1)"

text \<open>\<open>hexd\<close> is \<open>hex::decode\<close>.\<close>

definition parse_subject :: "(string \<Rightarrow> bytes option) \<Rightarrow> string \<Rightarrow> account option" where
  "parse_subject hexd subject =
     (case strip_prefix ''0x'' subject of
        None \<Rightarrow> None
      | Some h \<Rightarrow> (case hexd h of None \<Rightarrow> None | Some bs \<Rightarrow> try_array 32 bs))"

text \<open>The outcome of a balance read under a timeout: \<open>None\<close> when the timeout fired.\<close>

definition intake_group ::
  "(string \<Rightarrow> bytes option) \<Rightarrow> (account \<Rightarrow> (string + u128) option) \<Rightarrow> string \<Rightarrow> nat" where
  "intake_group hexd free_balance subject =
     (case parse_subject hexd subject of
        None \<Rightarrow> 1
      | Some account \<Rightarrow>
          (case free_balance account of
             Some (Inr balance) \<Rightarrow> group_for_balance balance
           | Some (Inl e) \<Rightarrow> 1
           | None \<Rightarrow> 1))"

section \<open>The snapshot and the drain simulation\<close>

record queued_entry =
  q_id :: int
  q_account_id :: string
  q_group :: nat

definition fifo :: "tables \<Rightarrow> reservation_row list" where
  "fifo t = sort_key (\<lambda>r. (r_created_at r, r_id r))
     (filter (\<lambda>r. r_status r = Queued) (username_reservations t))"

definition to_entry :: "reservation_row \<Rightarrow> queued_entry" where
  "to_entry r = \<lparr>q_id = r_id r, q_account_id = n_account_id (r_new r),
     q_group = nat (max 1 (min 4 (r_queue_group r)))\<rparr>"

definition queued_snapshot :: "(tables, queued_entry list) stmt" where
  "queued_snapshot now t = (map to_entry (fifo t), t)"

record drain_estimate =
  position :: nat
  iterations :: nat

datatype panic = Panic

fun enqueue_groups ::
  "queued_entry list \<Rightarrow> nat \<Rightarrow> (nat \<Rightarrow> nat list) \<Rightarrow> panic + (nat \<Rightarrow> nat list)" where
  "enqueue_groups [] index by_group = Inr by_group"
| "enqueue_groups (e # es) index by_group =
     (if 1 \<le> q_group e \<and> q_group e \<le> 4
      then enqueue_groups es (Suc index)
             (by_group(q_group e := by_group (q_group e) @ [index]))
      else Inl Panic)"

fun min_by_key :: "(nat \<times> nat) list \<Rightarrow> (nat \<times> nat) option" where
  "min_by_key [] = None"
| "min_by_key (x # xs) =
     (case min_by_key xs of
        None \<Rightarrow> Some x
      | Some y \<Rightarrow> if fst y < fst x then Some y else Some x)"

definition drain_pick :: "(nat \<Rightarrow> nat list) \<Rightarrow> nat \<Rightarrow> (nat \<times> nat) option" where
  "drain_pick by_group min_group =
     min_by_key (map (\<lambda>g. (hd (by_group g), g))
       (filter (\<lambda>g. by_group g \<noteq> []) [min_group..<5]))"

fun drain_slots ::
  "queued_entry list \<Rightarrow> int \<Rightarrow> nat \<Rightarrow> nat list \<Rightarrow> (nat \<Rightarrow> nat list) \<Rightarrow> nat \<Rightarrow>
   drain_estimate option \<times> (nat \<Rightarrow> nat list) \<times> nat" where
  "drain_slots entries target it [] by_group pos = (None, by_group, pos)"
| "drain_slots entries target it (slot # slots) by_group pos =
     (case drain_pick by_group (5 - slot) of
        None \<Rightarrow> drain_slots entries target it slots by_group pos
      | Some (index, grp) \<Rightarrow>
          let by_group' = by_group(grp := tl (by_group grp));
              pos' = (pos + 1) mod 2 ^ 32
          in if q_id (entries ! index) = target
             then (Some \<lparr>position = pos', iterations = it\<rparr>, by_group', pos')
             else drain_slots entries target it slots by_group' pos')"

fun drain_iterations ::
  "queued_entry list \<Rightarrow> int \<Rightarrow> nat list \<Rightarrow> (nat \<Rightarrow> nat list) \<Rightarrow> nat \<Rightarrow> drain_estimate option" where
  "drain_iterations entries target [] by_group pos = None"
| "drain_iterations entries target (it # its) by_group pos =
     (case drain_slots entries target it [1..<Suc SLOTS_PER_ITERATION] by_group pos of
        (Some e, _, _) \<Rightarrow> Some e
      | (None, by_group', pos') \<Rightarrow> drain_iterations entries target its by_group' pos')"

definition drain_estimate :: "queued_entry list \<Rightarrow> int \<Rightarrow> panic + drain_estimate option" where
  "drain_estimate entries target =
     (case enqueue_groups entries 0 (\<lambda>_. []) of
        Inl p \<Rightarrow> Inl p
      | Inr by_group \<Rightarrow>
          Inr (drain_iterations entries target [1..<Suc (length entries mod 2 ^ 32)] by_group 0))"

record queue_status =
  queue_position :: nat
  qs_group :: nat
  estimated_iterations_remaining :: nat

definition status_in_snapshot :: "queued_entry list \<Rightarrow> string \<Rightarrow> panic + queue_status option" where
  "status_in_snapshot snapshot subject =
     (case find (\<lambda>e. q_account_id e = subject) snapshot of
        None \<Rightarrow> Inr None
      | Some target \<Rightarrow>
          (case drain_estimate snapshot (q_id target) of
             Inl p \<Rightarrow> Inl p
           | Inr None \<Rightarrow> Inr None
           | Inr (Some est) \<Rightarrow>
               Inr (Some \<lparr>queue_position = position est, qs_group = q_group target,
                          estimated_iterations_remaining = iterations est\<rparr>)))"

section \<open>Promotion and refresh\<close>

definition promote :: "instant \<Rightarrow> reservation_row \<Rightarrow> reservation_row" where
  "promote now r = r\<lparr>r_status := Reserved, r_updated_at := now\<rparr>"

definition promote_slot :: "nat \<Rightarrow> (tables, (int \<times> string) option) stmt" where
  "promote_slot min_group now t =
     (case find (\<lambda>r. r_queue_group r \<ge> int min_group) (fifo t) of
        None \<Rightarrow> (None, t)
      | Some r \<Rightarrow> (Some (r_id r, r_full_username r),
                   snd (update_rows (\<lambda>x. r_id x = r_id r) (promote now) t)))"

record promoted =
  p_id :: int
  p_full_username :: string
  p_slot :: nat

fun advance_slots :: "tables env \<Rightarrow> nat list \<Rightarrow> (tables world, string, promoted list) prog" where
  "advance_slots E [] = ret []"
| "advance_slots E (slot # slots) =
     bindE (sql E (promote_slot (5 - slot))) (\<lambda>row.
     bindE (advance_slots E slots) (\<lambda>rest.
       ret (case row of
              None \<Rightarrow> rest
            | Some (i, name) \<Rightarrow> \<lparr>p_id = i, p_full_username = name, p_slot = slot\<rparr> # rest)))"

definition advance_iteration :: "tables env \<Rightarrow> (tables world, string, promoted list) prog" where
  "advance_iteration E = advance_slots E [1..<Suc SLOTS_PER_ITERATION]"

definition queued_accounts :: "(tables, string list) stmt" where
  "queued_accounts now t =
     (remdups (map (\<lambda>r. n_account_id (r_new r))
        (filter (\<lambda>r. r_status r = Queued) (username_reservations t))), t)"

definition set_group :: "string \<Rightarrow> nat \<Rightarrow> (tables, unit) stmt" where
  "set_group account grp now t =
     ((), snd (update_rows (\<lambda>r. r_status r = Queued \<and> n_account_id (r_new r) = account \<and>
             r_queue_group r \<noteq> int grp)
        (\<lambda>r. r\<lparr>r_queue_group := int grp, r_updated_at := now\<rparr>) t))"

definition refreshed_group ::
  "(string \<Rightarrow> bytes option) \<Rightarrow> (account \<Rightarrow> string + u128) \<Rightarrow> string \<Rightarrow> nat option" where
  "refreshed_group hexd free_balance account_id =
     (case parse_subject hexd account_id of
        None \<Rightarrow> Some 1
      | Some account \<Rightarrow>
          (case free_balance account of
             Inr balance \<Rightarrow> Some (group_for_balance balance)
           | Inl e \<Rightarrow> None))"

text \<open>\<open>completion\<close> is the order in which the concurrent reads finish (\<open>buffer_unordered\<close>).\<close>

definition refresh_groups ::
  "tables env \<Rightarrow> (string \<Rightarrow> bytes option) \<Rightarrow> (account \<Rightarrow> string + u128) \<Rightarrow>
   (string list \<Rightarrow> string list) \<Rightarrow> (tables world, string, unit) prog" where
  "refresh_groups E hexd free_balance completion =
     bindE (sql E queued_accounts) (\<lambda>accounts.
       forE (\<lambda>account_id.
           case refreshed_group hexd free_balance account_id of
             None \<Rightarrow> ret ()
           | Some grp \<Rightarrow> sql E (set_group account_id grp))
         (completion accounts))"

section \<open>The advancer service\<close>

definition ADVANCER_LEASE_NAME :: string where
  "ADVANCER_LEASE_NAME = ''registration-queue-advancer''"

definition ns :: "nat \<Rightarrow> nat" where
  "ns s = s * 1000000000"

text \<open>Durations in nanoseconds; adding two durations panics beyond \<open>u64::MAX\<close> seconds.\<close>

definition validate_cadence :: "nat \<Rightarrow> nat \<Rightarrow> string + unit" where
  "validate_cadence interval lease_ttl =
     (if interval < ns 1 then Inl ''QUEUE_ADVANCE_INTERVAL_SECS must be at least 1''
      else if (interval + lease_ttl div 3) div ns 1 \<ge> 2 ^ 64
      then Inl ''overflow when adding durations''
      else if \<not> lease_ttl > interval + lease_ttl div 3
      then Inl ''QUEUE_LEASE_TTL_SECS must exceed QUEUE_ADVANCE_INTERVAL_SECS''
      else Inr ())"

definition advancer_alive :: "(tables, bool) stmt" where
  "advancer_alive = alive ADVANCER_LEASE_NAME"

definition stranded_queued :: "(tables, int) stmt" where
  "stranded_queued now t =
     (case writer_lease t ADVANCER_LEASE_NAME of
        Some l \<Rightarrow> if lease_expires_at l > now then 0
                 else int (length (filter (\<lambda>r. r_status r = Queued) (username_reservations t)))
      | None \<Rightarrow> int (length (filter (\<lambda>r. r_status r = Queued) (username_reservations t))), t)"

definition fallback_drain :: "u64 \<Rightarrow> (tables, nat) stmt" where
  "fallback_drain grace now t =
     update_rows (\<lambda>r. r_status r = Queued \<and>
       (case writer_lease t ADVANCER_LEASE_NAME of
          None \<Rightarrow> True
        | Some l \<Rightarrow> \<not> lease_expires_at l > now - secs (sint grace)))
       (promote now) t"

text \<open>
  The service loop, one database statement per step: acquire, sleep and renew, then an
  iteration whose refresh and promotion statements interleave with further renewals. A
  renewal that fails or errors abandons the iteration between two of its statements.
\<close>

datatype advancer_mode =
  Acquiring
| Holding int
| Refreshing int "string list"
| Advancing int "nat list"

record advancer_config =
  ac_holder :: string
  ac_ttl :: u64

inductive advancer_step ::
  "(string \<Rightarrow> bytes option) \<Rightarrow> (account \<Rightarrow> string + u128) \<Rightarrow> advancer_config \<Rightarrow> instant \<Rightarrow>
   advancer_mode \<times> tables \<Rightarrow> advancer_mode \<times> tables \<Rightarrow> bool"
  for hexd free_balance cfg now where
  acquired: "try_acquire ADVANCER_LEASE_NAME (ac_holder cfg) (ac_ttl cfg) now t = (Some e, t') \<Longrightarrow>
    advancer_step hexd free_balance cfg now (Acquiring, t) (Holding e, t')"
| waiting: "advancer_step hexd free_balance cfg now (Acquiring, t) (Acquiring, t)"
| renewed: "renew ADVANCER_LEASE_NAME (ac_holder cfg) e (ac_ttl cfg) now t = (True, t') \<Longrightarrow>
    advancer_step hexd free_balance cfg now (Holding e, t)
      (Refreshing e (fst (queued_accounts now t')), t')"
| lost: "advancer_step hexd free_balance cfg now (Holding e, t) (Acquiring, t)"
| refreshed: "account \<in> set accounts \<Longrightarrow>
    refreshed_group hexd free_balance account = Some g \<Longrightarrow>
    advancer_step hexd free_balance cfg now (Refreshing e accounts, t)
      (Refreshing e (remove1 account accounts), snd (set_group account g now t))"
| kept_group: "account \<in> set accounts \<Longrightarrow>
    refreshed_group hexd free_balance account = None \<Longrightarrow>
    advancer_step hexd free_balance cfg now (Refreshing e accounts, t)
      (Refreshing e (remove1 account accounts), t)"
| refresh_over: "advancer_step hexd free_balance cfg now (Refreshing e accounts, t)
      (Advancing e [1..<Suc SLOTS_PER_ITERATION], t)"
| slot: "advancer_step hexd free_balance cfg now (Advancing e (s # slots), t)
      (Advancing e slots, snd (promote_slot (5 - s) now t))"
| slot_failed: "advancer_step hexd free_balance cfg now (Advancing e slots, t) (Holding e, t)"
| kept_alive: "renew ADVANCER_LEASE_NAME (ac_holder cfg) e (ac_ttl cfg) now t = (True, t') \<Longrightarrow>
    m = Refreshing e accounts \<or> m = Advancing e slots \<Longrightarrow>
    advancer_step hexd free_balance cfg now (m, t) (m, t')"
| abandoned: "m = Refreshing e accounts \<or> m = Advancing e slots \<Longrightarrow>
    advancer_step hexd free_balance cfg now (m, t) (Acquiring, t)"

inductive_cases advancer_stepE [elim]: "advancer_step hexd free_balance cfg now s s'"


section \<open>The slot discipline on a FIFO list\<close>

text \<open>
  The abstract specification: \<open>serve_from\<close> lets each minimum group of the list take the
  earliest remaining element of at least that group, \<open>drain_order\<close> repeats it and numbers
  the picks by iteration, and \<open>locate\<close> finds the first pick of a target.
\<close>

fun serve_from :: "('a \<Rightarrow> nat) \<Rightarrow> nat list \<Rightarrow> 'a list \<Rightarrow> 'a list \<times> 'a list" where
  "serve_from grp [] q = ([], q)"
| "serve_from grp (g # gs) q =
     (case find (\<lambda>e. g \<le> grp e) q of
        None \<Rightarrow> serve_from grp gs q
      | Some e \<Rightarrow> (case serve_from grp gs (remove1 e q) of (ps, q') \<Rightarrow> (e # ps, q')))"

abbreviation slot_groups :: "nat list" where
  "slot_groups \<equiv> [4, 3, 2, 1]"

fun drain_order :: "('a \<Rightarrow> nat) \<Rightarrow> nat \<Rightarrow> nat \<Rightarrow> 'a list \<Rightarrow> ('a \<times> nat) list" where
  "drain_order grp 0 k q = []"
| "drain_order grp (Suc n) k q =
     (case serve_from grp slot_groups q of
        (ps, q') \<Rightarrow> map (\<lambda>p. (p, k)) ps @ drain_order grp n (Suc k) q')"

fun locate :: "('a \<Rightarrow> bool) \<Rightarrow> nat \<Rightarrow> ('a \<times> nat) list \<Rightarrow> drain_estimate option" where
  "locate p pos [] = None"
| "locate p pos ((e, it) # xs) =
     (if p e then Some \<lparr>position = pos + 1, iterations = it\<rparr> else locate p (pos + 1) xs)"

lemma find_in_set: "find p xs = Some x \<Longrightarrow> x \<in> set xs \<and> p x"
  by (auto simp: find_Some_iff in_set_conv_nth)

lemma find_map: "find p (map f xs) = map_option f (find (p \<circ> f) xs)"
  by (induction xs) auto

lemma remove1_length: "x \<in> set xs \<Longrightarrow> Suc (length (remove1 x xs)) = length xs"
  by (induction xs) auto

lemma locate_append:
  "locate p pos (xs @ ys) =
     (case locate p pos xs of None \<Rightarrow> locate p (pos + length xs) ys | Some e \<Rightarrow> Some e)"
  by (induction p pos xs rule: locate.induct) (auto split: option.splits)

lemma locate_map: "locate p pos (map (\<lambda>(e, k). (h e, k)) xs) = locate (\<lambda>e. p (h e)) pos xs"
  by (induction "\<lambda>e. p (h e)" pos xs rule: locate.induct) auto

lemma serve_from_conserves:
  "serve_from grp gs q = (ps, q') \<Longrightarrow>
   set ps \<union> set q' = set q \<and> length ps + length q' = length q \<and> length ps \<le> length gs \<and>
   (distinct q \<longrightarrow> distinct (ps @ q'))"
proof (induction gs arbitrary: q ps)
  case (Cons g gs)
  show ?case
  proof (cases "find (\<lambda>e. g \<le> grp e) q")
    case (Some e)
    then obtain ps' where ps': "serve_from grp gs (remove1 e q) = (ps', q')" "ps = e # ps'"
      using Cons.prems by (auto split: prod.splits)
    have e: "e \<in> set q" using Some by (simp add: find_in_set)
    note IH = Cons.IH [OF ps'(1)]
    have "insert e (set (remove1 e q)) = set q"
      using e by (induction q) auto
    then show ?thesis
      using IH ps'(2) remove1_length [OF e] by (auto simp: set_remove1_eq)
  qed (use Cons in \<open>fastforce split: prod.splits\<close>)
qed auto

lemma serve_from_filter:
  "serve_from grp gs q = (ps, q') \<Longrightarrow> distinct q \<Longrightarrow> q' = filter (\<lambda>x. x \<notin> set ps) q"
proof (induction gs arbitrary: q ps)
  case (Cons g gs)
  show ?case
  proof (cases "find (\<lambda>e. g \<le> grp e) q")
    case (Some e)
    then obtain ps' where ps': "serve_from grp gs (remove1 e q) = (ps', q')" "ps = e # ps'"
      using Cons.prems by (auto split: prod.splits)
    have "q' = filter (\<lambda>x. x \<notin> set ps') (remove1 e q)"
      using Cons.IH [OF ps'(1)] Cons.prems(2) by simp
    also have "\<dots> = filter (\<lambda>x. x \<notin> set ps) q"
      using Cons.prems(2) by (auto simp: distinct_remove1_removeAll removeAll_filter_not_eq ps'(2)
          intro: filter_cong)
    finally show ?thesis .
  qed (use Cons in \<open>auto split: prod.splits\<close>)
qed auto

lemma serve_from_sorted:
  "serve_from grp gs q = (ps, q') \<Longrightarrow> distinct q \<Longrightarrow> sorted_wrt r q \<Longrightarrow> sorted_wrt r q'"
  using serve_from_filter [of grp gs q ps q'] by (simp add: sorted_wrt_filter)

lemma serve_from_map:
  "inj_on h (set q) \<Longrightarrow>
   serve_from grp gs (map h q) = map_prod (map h) (map h) (serve_from (\<lambda>e. grp (h e)) gs q)"
proof (induction gs arbitrary: q)
  case (Cons g gs)
  have rem: "e \<in> set q \<Longrightarrow> remove1 (h e) (map h q) = map h (remove1 e q)" for e
    using Cons.prems by (induction q) (auto simp: inj_on_def)
  have sub: "inj_on h (set (remove1 e q))" for e
    using Cons.prems by (rule inj_on_subset) (rule set_remove1_subset)
  show ?case
  proof (cases "find (\<lambda>e. g \<le> grp (h e)) q")
    case None
    then show ?thesis using Cons by (simp add: find_map comp_def)
  next
    case (Some e)
    then show ?thesis
      using Cons.IH [OF sub, of e] rem [of e] find_in_set [OF Some]
      by (simp add: find_map comp_def split: prod.splits)
  qed
qed simp

lemma drain_order_map:
  "inj_on h (set q) \<Longrightarrow>
   drain_order grp n k (map h q) = map (\<lambda>(e, k). (h e, k)) (drain_order (\<lambda>e. grp (h e)) n k q)"
proof (induction n arbitrary: k q)
  case (Suc n)
  obtain ps q' where run: "serve_from (\<lambda>e. grp (h e)) slot_groups q = (ps, q')" by fastforce
  have "inj_on h (set q')"
    using Suc.prems serve_from_conserves [OF run] by (auto intro: inj_on_subset)
  then show ?case
    using Suc run by (simp add: serve_from_map del: serve_from.simps)
qed simp

text \<open>The last slot serves everybody, so an iteration takes the head of the queue.\<close>

lemma serve_from_head:
  assumes "serve_from grp gs q = (ps, q')" "q \<noteq> []" "1 \<in> set gs" "\<And>e. e \<in> set q \<Longrightarrow> 1 \<le> grp e"
  shows "hd q \<in> set ps"
  using assms
proof (induction gs arbitrary: q ps)
  case (Cons g gs)
  show ?case
  proof (cases "find (\<lambda>e. g \<le> grp e) q")
    case None
    have "g \<noteq> 1" using None Cons.prems by (auto simp: find_None_iff neq_Nil_conv)
    then show ?thesis using Cons None by auto
  next
    case (Some e)
    then obtain ps' where ps': "serve_from grp gs (remove1 e q) = (ps', q')" "ps = e # ps'"
      using Cons.prems by (auto split: prod.splits)
    show ?thesis
    proof (cases "e = hd q")
      case False
      obtain x xs where q: "q = x # xs" using Cons.prems(2) by (cases q) auto
      have "g \<noteq> 1" using Some False Cons.prems(4) q by auto
      moreover have "hd (remove1 e q) = hd q" "remove1 e q \<noteq> []"
        using False q by auto
      ultimately show ?thesis
        using Cons.IH [OF ps'(1)] Cons.prems(3,4) ps'(2) set_remove1_subset [of e q] by auto
    qed (simp add: ps'(2))
  qed
qed simp

section \<open>The simulation computes the slot discipline\<close>

definition groups_of :: "(nat \<Rightarrow> nat) \<Rightarrow> nat list \<Rightarrow> nat \<Rightarrow> nat list" where
  "groups_of grp ix = (\<lambda>g. filter (\<lambda>i. grp i = g) ix)"

lemma min_by_key_in: "min_by_key xs = Some x \<Longrightarrow> x \<in> set xs"
  by (induction xs) (auto split: option.splits if_splits)

lemma min_by_key_unique:
  "x \<in> set xs \<Longrightarrow> (\<And>y. y \<in> set xs \<Longrightarrow> y \<noteq> x \<Longrightarrow> fst x < fst y) \<Longrightarrow> min_by_key xs = Some x"
proof (induction xs)
  case (Cons a xs)
  show ?case
  proof (cases "x \<in> set xs")
    case True
    then show ?thesis using Cons by (cases "a = x") auto
  next
    case False
    then have "a = x" using Cons.prems(1) by simp
    then show ?thesis
      using Cons.prems(2) False
      by (auto split: option.splits dest!: min_by_key_in) (metis order_less_asym)
  qed
qed simp

lemma hd_filter_least:
  "sorted_wrt (<) ix \<Longrightarrow> i \<in> set ix \<Longrightarrow> p i \<Longrightarrow> (\<And>j. j \<in> set ix \<Longrightarrow> p j \<Longrightarrow> i \<le> j) \<Longrightarrow>
   hd (filter p ix) = (i :: nat)"
  by (induction ix) (auto simp: not_le dest: leD)

lemma find_least:
  assumes "sorted_wrt (<) ix" "find p ix = Some i" "j \<in> set ix" "p j"
  shows "i \<le> (j :: nat)"
  using assms by (induction ix) (auto split: if_splits)

lemma drain_pick_groups_of:
  assumes "sorted_wrt (<) ix" "\<And>i. i \<in> set ix \<Longrightarrow> grp i \<le> 4"
  shows "drain_pick (groups_of grp ix) mg =
           map_option (\<lambda>i. (i, grp i)) (find (\<lambda>i. mg \<le> grp i) ix)"
proof (cases "find (\<lambda>i. mg \<le> grp i) ix")
  case None
  then have "groups_of grp ix g = []" if "mg \<le> g" for g
    using that by (auto simp: groups_of_def filter_empty_conv find_None_iff)
  then show ?thesis using None by (simp add: drain_pick_def)
next
  case (Some i)
  note i = find_in_set [OF Some]
  have least: "i \<le> j" if "j \<in> set ix" "mg \<le> grp j" for j
    using find_least [OF assms(1) Some] that by simp
  have head: "hd (groups_of grp ix (grp i)) = i"
    unfolding groups_of_def using i least by (intro hd_filter_least [OF assms(1)]) auto
  let ?c = "map (\<lambda>g. (hd (groups_of grp ix g), g)) (filter (\<lambda>g. groups_of grp ix g \<noteq> []) [mg..<5])"
  have "(i, grp i) \<in> set ?c"
    using i head assms(2) [of i] by (auto simp: groups_of_def filter_empty_conv image_iff)
  moreover have "fst (i, grp i) < fst y" if "y \<in> set ?c" "y \<noteq> (i, grp i)" for y
  proof -
    define g where "g = snd y"
    have g: "y = (hd (groups_of grp ix g), g)" "groups_of grp ix g \<noteq> []" "mg \<le> g"
      using that(1) by (auto simp: g_def)
    then have "hd (groups_of grp ix g) \<in> set ix" "grp (hd (groups_of grp ix g)) = g"
      using hd_in_set [OF g(2)] by (auto simp: groups_of_def)
    then show ?thesis using least [of "fst y"] that(2) g by (auto simp: order.order_iff_strict)
  qed
  ultimately have "min_by_key ?c = Some (i, grp i)"
    by (rule min_by_key_unique)
  then show ?thesis by (simp add: drain_pick_def Some)
qed

lemma groups_of_pop:
  assumes "sorted_wrt (<) ix" "find (\<lambda>i. mg \<le> grp i) ix = Some i"
  shows "(groups_of grp ix)(grp i := tl (groups_of grp ix (grp i))) = groups_of grp (remove1 i ix)"
proof
  fix g
  note i = find_in_set [OF assms(2)]
  have "hd (filter (\<lambda>j. grp j = grp i) ix) = i"
    using i find_least [OF assms] by (intro hd_filter_least [OF assms(1)]) auto
  moreover have "filter (\<lambda>j. grp j = grp i) ix \<noteq> []"
    using i by (auto simp: filter_empty_conv)
  ultimately have "tl (filter (\<lambda>j. grp j = grp i) ix) = remove1 i (filter (\<lambda>j. grp j = grp i) ix)"
    by (cases "filter (\<lambda>j. grp j = grp i) ix") auto
  then show "((groups_of grp ix)(grp i := tl (groups_of grp ix (grp i)))) g =
      groups_of grp (remove1 i ix) g"
    by (auto simp: groups_of_def filter_remove1 remove1_idem)
qed

lemma strict_sorted_remove1: "sorted_wrt (<) ix \<Longrightarrow> sorted_wrt (<) (remove1 (i::nat) ix)"
  by (simp add: strict_sorted_iff sorted_remove1)

lemma drain_slots_serve:
  assumes "sorted_wrt (<) ix" "\<And>i. i \<in> set ix \<Longrightarrow> grp i \<le> 4" "pos + length ix < 2 ^ 32"
    and "serve_from grp (map (\<lambda>s. 5 - s) slots) ix = (ps, ix')"
  shows "case locate (\<lambda>i. q_id (entries ! i) = target) pos (map (\<lambda>i. (i, it)) ps) of
      Some e \<Rightarrow> fst (drain_slots entries target it slots (groups_of grp ix) pos) = Some e
    | None \<Rightarrow> drain_slots entries target it slots (groups_of grp ix) pos =
        (None, groups_of grp ix', pos + length ps)"
  using assms
proof (induction slots arbitrary: ix pos ps)
  case (Cons s slots)
  show ?case
  proof (cases "find (\<lambda>i. 5 - s \<le> grp i) ix")
    case None
    then have pick: "drain_pick (groups_of grp ix) (5 - s) = None"
      using Cons.prems(1,2) by (simp add: drain_pick_groups_of)
    have "serve_from grp (map (\<lambda>s. 5 - s) slots) ix = (ps, ix')"
      using Cons.prems(4) None by simp
    from Cons.IH [OF Cons.prems(1-3) this] pick show ?thesis
      by (simp split: option.splits)
  next
    case (Some i)
    obtain ps' where ps': "serve_from grp (map (\<lambda>s. 5 - s) slots) (remove1 i ix) = (ps', ix')"
      "ps = i # ps'"
      using Cons.prems(4) Some by (auto split: prod.splits)
    have i: "i \<in> set ix" using Some by (simp add: find_in_set)
    note len = remove1_length [OF i]
    have "sorted_wrt (<) (remove1 i ix)" "\<And>j. j \<in> set (remove1 i ix) \<Longrightarrow> grp j \<le> 4"
      using Cons.prems(1,2) strict_sorted_remove1 set_remove1_subset [of i ix] by auto
    note IH = Cons.IH [OF this _ ps'(1), of "Suc pos"]
    have "(pos + 1) mod 2 ^ 32 = Suc pos" using Cons.prems(3) len by simp
    moreover have "drain_pick (groups_of grp ix) (5 - s) = Some (i, grp i)"
      using Cons.prems(1,2) Some by (simp add: drain_pick_groups_of)
    ultimately show ?thesis
      using IH Cons.prems(3) len ps'(2) groups_of_pop [OF Cons.prems(1) Some]
      by (simp add: Let_def split: option.splits)
  qed
qed simp


lemma slots_are_slot_groups: "map (\<lambda>s. 5 - s) [1..<Suc SLOTS_PER_ITERATION] = slot_groups"
  by (simp add: SLOTS_PER_ITERATION_def upt_conv_Cons)

lemma drain_iterations_order:
  assumes "sorted_wrt (<) ix" "\<And>i. i \<in> set ix \<Longrightarrow> grp i \<le> 4" "pos + length ix < 2 ^ 32"
  shows "drain_iterations entries target [k..<k + n] (groups_of grp ix) pos =
           locate (\<lambda>i. q_id (entries ! i) = target) pos (drain_order grp n k ix)"
  using assms
proof (induction n arbitrary: k ix pos)
  case (Suc n)
  obtain ps ix' where run: "serve_from grp slot_groups ix = (ps, ix')" by fastforce
  note cons = serve_from_conserves [OF run]
  have "distinct ix" using Suc.prems(1) by (simp add: strict_sorted_iff)
  then have "sorted_wrt (<) ix'"
    using Suc.prems(1) serve_from_sorted [OF run] by simp
  moreover have "\<And>i. i \<in> set ix' \<Longrightarrow> grp i \<le> 4" "pos + length ps + length ix' < 2 ^ 32"
    using cons Suc.prems(2,3) by auto
  ultimately have IH: "drain_iterations entries target [Suc k..<Suc k + n] (groups_of grp ix') (pos + length ps) =
      locate (\<lambda>i. q_id (entries ! i) = target) (pos + length ps) (drain_order grp n (Suc k) ix')"
    by (rule Suc.IH)
  have upt: "[k..<k + Suc n] = k # [Suc k..<Suc k + n]"
    by (simp add: upt_conv_Cons del: upt_Suc)
  let ?p = "\<lambda>i. q_id (entries ! i) = target" and ?slots = "[1..<Suc SLOTS_PER_ITERATION]"
  have slots: "case locate ?p pos (map (\<lambda>i. (i, k)) ps) of
      Some e \<Rightarrow> fst (drain_slots entries target k ?slots (groups_of grp ix) pos) = Some e
    | None \<Rightarrow> drain_slots entries target k ?slots (groups_of grp ix) pos =
        (None, groups_of grp ix', pos + length ps)"
    by (rule drain_slots_serve) (use Suc.prems run slots_are_slot_groups in auto)
  show ?case
  proof (cases "locate ?p pos (map (\<lambda>i. (i, k)) ps)")
    case None
    then show ?thesis
      using slots run IH unfolding upt by (simp add: locate_append del: serve_from.simps upt_Suc)
  next
    case (Some e)
    then show ?thesis
      using slots run unfolding upt
      by (auto simp: locate_append simp del: serve_from.simps upt_Suc split: prod.splits)
  qed
qed simp

lemma enqueue_groups_Inr:
  assumes "\<And>e. e \<in> set es \<Longrightarrow> 1 \<le> q_group e \<and> q_group e \<le> 4"
  shows "enqueue_groups es n bg =
    Inr (\<lambda>g. bg g @ filter (\<lambda>i. q_group (es ! (i - n)) = g) [n..<n + length es])"
  using assms
proof (induction es arbitrary: n bg)
  case (Cons e es)
  have "filter (\<lambda>i. q_group ((e # es) ! (i - n)) = g) [Suc n..<Suc n + length es] =
      filter (\<lambda>i. q_group (es ! (i - Suc n)) = g) [Suc n..<Suc n + length es]" for g
    by (rule filter_cong) (auto simp: nth_Cons')
  moreover have "[n..<n + length (e # es)] = n # [Suc n..<Suc n + length es]"
    by (simp add: upt_conv_Cons del: upt_Suc)
  ultimately show ?case
    using Cons by (auto simp del: upt_Suc intro!: ext)
qed simp

lemma drain_estimate_order:
  assumes "\<And>e. e \<in> set entries \<Longrightarrow> 1 \<le> q_group e \<and> q_group e \<le> 4"
    and "length entries < 2 ^ 32" "distinct entries"
  shows "drain_estimate entries target =
    Inr (locate (\<lambda>e. q_id e = target) 0 (drain_order q_group (length entries) 1 entries))"
proof -
  let ?n = "length entries" and ?grp = "\<lambda>i. q_group (entries ! i)"
  have "enqueue_groups entries 0 (\<lambda>_. []) = Inr (groups_of ?grp [0..<?n])"
    using enqueue_groups_Inr [OF assms(1), where n = 0 and bg = "\<lambda>_. []"] by (simp add: groups_of_def)
  moreover have "drain_iterations entries target [1..<Suc ?n] (groups_of ?grp [0..<?n]) 0 =
      locate (\<lambda>i. q_id (entries ! i) = target) 0 (drain_order ?grp ?n 1 [0..<?n])"
    using drain_iterations_order [where ix = "[0..<?n]" and grp = ?grp and pos = 0 and k = 1 and n = ?n
        and entries = entries and target = target] assms(1,2)
    by (simp del: upt_Suc)
  moreover have "drain_order q_group ?n 1 entries =
      map (\<lambda>(i, k). (entries ! i, k)) (drain_order ?grp ?n 1 [0..<?n])"
    using drain_order_map [of "(!) entries" "[0..<?n]" q_group ?n 1] assms(3)
    by (simp add: map_nth inj_on_def nth_eq_iff_index_eq)
  ultimately show ?thesis
    using assms(2) by (simp add: drain_estimate_def locate_map del: upt_Suc)
qed

section \<open>Everybody ix served\<close>

abbreviation rank :: "'a \<Rightarrow> 'a list \<Rightarrow> nat" where
  "rank e q \<equiv> length (takeWhile (\<lambda>x. x \<noteq> e) q)"

lemma rank_less: "e \<in> set q \<Longrightarrow> rank e q < length q"
  by (induction q) auto

lemma rank_filter: "p e \<Longrightarrow> rank e (filter p xs) \<le> rank e xs"
  by (induction xs) auto

lemma drain_order_serves:
  assumes "e \<in> set q" "distinct q" "\<forall>x \<in> set q. 1 \<le> grp x" "rank e q < n"
  shows "\<exists>it. (e, it) \<in> set (drain_order grp n k q) \<and> it \<le> k + rank e q"
  using assms
proof (induction n arbitrary: k q)
  case (Suc n)
  obtain ps q' where run: "serve_from grp slot_groups q = (ps, q')" by fastforce
  show ?case
  proof (cases "e \<in> set ps")
    case True
    then show ?thesis using run by (auto simp del: serve_from.simps)
  next
    case False
    note cons = serve_from_conserves [OF run]
    have q': "q' = filter (\<lambda>x. x \<notin> set ps) q"
      using serve_from_filter [OF run Suc.prems(2)] .
    have head: "hd q \<in> set ps"
      using serve_from_head [OF run] Suc.prems(1,3) by force
    have "rank e q' < rank e q"
      using rank_filter [of "\<lambda>x. x \<notin> set ps" e "tl q"] head False Suc.prems(1)
      unfolding q' by (cases q) auto
    moreover have "e \<in> set q'" using cons Suc.prems(1) False by auto
    moreover have "distinct q'" "\<forall>x \<in> set q'. 1 \<le> grp x"
      using Suc.prems(2,3) by (auto simp: q')
    ultimately obtain it where "(e, it) \<in> set (drain_order grp n (Suc k) q')" "it \<le> Suc k + rank e q'"
      using Suc.IH [of q' "Suc k"] Suc.prems(4) by force
    then show ?thesis
      using run \<open>rank e q' < rank e q\<close> by (auto simp del: serve_from.simps intro!: exI [of _ it])
  qed
qed simp

lemma locate_Some:
  assumes "(e, it) \<in> set xs" "p e"
  shows "\<exists>m < length xs. locate p pos xs = Some \<lparr>position = pos + m + 1, iterations = snd (xs ! m)\<rparr> \<and>
    p (fst (xs ! m)) \<and> (\<forall>j < m. \<not> p (fst (xs ! j)))"
  using assms
proof (induction xs arbitrary: pos)
  case (Cons x xs)
  obtain y k where x: "x = (y, k)" by (cases x)
  show ?case
  proof (cases "p y")
    case True
    then show ?thesis by (intro exI [of _ 0]) (simp add: x)
  next
    case False
    then have "(e, it) \<in> set xs" using Cons.prems x by auto
    from Cons.IH [OF this Cons.prems(2), of "pos + 1"] obtain m where m: "m < length xs"
      "locate p (pos + 1) xs = Some \<lparr>position = pos + 1 + m + 1, iterations = snd (xs ! m)\<rparr>"
      "p (fst (xs ! m))" "\<forall>j < m. \<not> p (fst (xs ! j))" by blast
    have "\<not> p (fst ((x # xs) ! j))" if "j < Suc m" for j
      using that m(4) False x by (cases j) auto
    with m False x show ?thesis by (intro exI [of _ "Suc m"]) simp
  qed
qed simp


lemma drain_order_subset: "(e, it) \<in> set (drain_order grp n k q) \<Longrightarrow> e \<in> set q"
proof (induction n arbitrary: k q)
  case (Suc n)
  obtain ps q' where run: "serve_from grp slot_groups q = (ps, q')" by fastforce
  then show ?case
    using Suc serve_from_conserves [OF run] by (auto simp del: serve_from.simps)
qed simp

lemma drain_order_nth:
  "j < length (drain_order grp n k q) \<Longrightarrow> fst (drain_order grp n k q ! j) \<in> set q"
  by (metis drain_order_subset nth_mem prod.collapse)

lemma drain_order_from: "(e, it) \<in> set (drain_order grp n k q) \<Longrightarrow> k \<le> it"
proof (induction n arbitrary: k q)
  case (Suc n)
  obtain ps q' where run: "serve_from grp slot_groups q = (ps, q')" by fastforce
  then show ?case
    using Suc.prems Suc.IH [of "Suc k" q'] by (auto simp del: serve_from.simps)
qed simp

lemma drain_order_distinct: "distinct q \<Longrightarrow> distinct (map fst (drain_order grp n k q))"
proof (induction n arbitrary: k q)
  case (Suc n)
  obtain ps q' where run: "serve_from grp slot_groups q = (ps, q')" by fastforce
  note cons = serve_from_conserves [OF run]
  have "set ps \<inter> fst ` set (drain_order grp n (Suc k) q') = {}"
    using cons Suc.prems drain_order_subset [of _ _ grp n "Suc k" q'] by fastforce
  then show ?case
    using run cons Suc by (simp add: comp_def del: serve_from.simps)
qed simp

lemma drain_order_once:
  "distinct q \<Longrightarrow> (e, i) \<in> set (drain_order grp n k q) \<Longrightarrow> (e, j) \<in> set (drain_order grp n k q) \<Longrightarrow> i = j"
  using drain_order_distinct [of q grp n k] by (metis eq_key_imp_eq_value)

text \<open>An earlier element of at least the priority of a later one is picked before it.\<close>

definition precedes :: "'a \<Rightarrow> 'a \<Rightarrow> 'a list \<Rightarrow> bool" where
  "precedes a b xs \<longleftrightarrow> (\<exists>us vs. xs = us @ vs \<and> a \<in> set us \<and> b \<in> set vs)"

lemma precedes_filter:
  "precedes a b xs \<Longrightarrow> p a \<Longrightarrow> p b \<Longrightarrow> precedes a b (filter p xs)"
  unfolding precedes_def by (elim exE conjE) (auto intro!: exI [of _ "filter p _"])

lemma precedes_Cons: "precedes a b xs \<Longrightarrow> precedes a b (x # xs)"
  unfolding precedes_def by (metis append_Cons list.set_intros(2))

lemma precedes_in: "precedes a b xs \<Longrightarrow> a \<in> set xs \<and> b \<in> set xs"
  by (auto simp: precedes_def)

lemma precedes_index:
  assumes "precedes a b xs" "distinct xs" "n < length xs" "xs ! n = b" "\<forall>j < m. xs ! j \<noteq> a"
  shows "m < n"
proof -
  obtain us vs where xs: "xs = us @ vs" "a \<in> set us" "b \<in> set vs"
    using assms(1) by (auto simp: precedes_def)
  then obtain i j where i: "i < length us" "us ! i = a" and j: "j < length vs" "vs ! j = b"
    by (metis in_set_conv_nth)
  have "xs ! (length us + j) = b" "length us + j < length xs"
    using j xs(1) by (simp_all add: nth_append)
  then have "n = length us + j" using assms(2-4) by (metis nth_eq_iff_index_eq)
  moreover have "xs ! i = a" using i xs(1) by (simp add: nth_append)
  then have "\<not> i < m" using assms(5) by blast
  ultimately show ?thesis using i(1) by simp
qed

lemma find_precedes:
  assumes "precedes a b q" "distinct q" "p a" "find p q = Some b"
  shows False
proof -
  obtain us vs where q: "q = us @ vs" "a \<in> set us" "b \<in> set vs"
    using assms(1) by (auto simp: precedes_def)
  have "find p (us @ vs) = find p us" if "x \<in> set us" "p x" for us x
    using that by (induction us) auto
  from this [OF q(2) assms(3)] have "find p us = Some b" using assms(4) q(1) by simp
  then have "b \<in> set us" by (simp add: find_in_set)
  with q assms(2) show False by auto
qed

lemma serve_from_fair:
  assumes "serve_from grp gs q = (ps, q')" "distinct q" "precedes a b q" "grp b \<le> grp a"
    "b \<in> set ps"
  shows "precedes a b ps"
  using assms
proof (induction gs arbitrary: q ps)
  case (Cons g gs)
  show ?case
  proof (cases "find (\<lambda>e. g \<le> grp e) q")
    case (Some e)
    then obtain ps' where ps': "serve_from grp gs (remove1 e q) = (ps', q')" "ps = e # ps'"
      using Cons.prems(1) by (auto split: prod.splits)
    have "e \<noteq> b"
      using find_precedes [OF Cons.prems(3,2), of "\<lambda>e. g \<le> grp e"] Some Cons.prems(4)
        find_in_set [OF Some] by auto
    then have b: "b \<in> set ps'" using Cons.prems(5) ps'(2) by simp
    show ?thesis
    proof (cases "e = a")
      case True
      then show ?thesis using b unfolding precedes_def ps'(2)
        by (intro exI [of _ "[a]"] exI [of _ ps']) auto
    next
      case False
      have "precedes a b (remove1 e q)"
        using precedes_filter [OF Cons.prems(3), of "\<lambda>x. x \<noteq> e"] False \<open>e \<noteq> b\<close> Cons.prems(2)
        by (simp add: distinct_remove1_removeAll removeAll_filter_not_eq) (metis (lifting) filter_cong)
      from Cons.IH [OF ps'(1) _ this Cons.prems(4) b] Cons.prems(2) ps'(2)
      show ?thesis by (simp add: precedes_Cons)
    qed
  qed (use Cons in \<open>auto split: prod.splits\<close>)
qed (auto dest: precedes_in)

lemma drain_order_fair:
  assumes "distinct q" "precedes a b q" "grp b \<le> grp a" "b \<in> fst ` set (drain_order grp n k q)"
  shows "precedes a b (map fst (drain_order grp n k q))"
  using assms
proof (induction n arbitrary: k q)
  case (Suc n)
  obtain ps q' where run: "serve_from grp slot_groups q = (ps, q')" by fastforce
  note q' = serve_from_filter [OF run Suc.prems(1)]
  let ?rest = "drain_order grp n (Suc k) q'"
  have order: "map fst (drain_order grp (Suc n) k q) = ps @ map fst ?rest"
    using run by (simp add: comp_def del: serve_from.simps)
  show ?case
  proof (cases "b \<in> set ps")
    case True
    then have "precedes a b ps"
      using serve_from_fair [OF run Suc.prems(1,2,3)] by simp
    then show ?thesis unfolding order precedes_def by (metis append.assoc UnCI set_append)
  next
    case False
    then have b: "b \<in> fst ` set ?rest"
      using Suc.prems(4) order by (metis UnE image_set set_append)
    show ?thesis
    proof (cases "a \<in> set ps")
      case True
      then show ?thesis using b unfolding order precedes_def
        by (intro exI [of _ ps] exI [of _ "map fst ?rest"]) auto
    next
      case out: False
      have "precedes a b q'" unfolding q'
        using precedes_filter [OF Suc.prems(2)] out False by simp
      then have "precedes a b (map fst ?rest)"
        using Suc.IH [of q' "Suc k"] Suc.prems(1,3) b q' by simp
      then show ?thesis unfolding order precedes_def by (metis append.assoc UnCI set_append)
    qed
  qed
qed simp

section \<open>The advancer implements the slot discipline\<close>

abbreviation row_group :: "reservation_row \<Rightarrow> nat" where
  "row_group r \<equiv> q_group (to_entry r)"

lemma row_group_ok:
  assumes "reservations_ok t" "r \<in> set (username_reservations t)"
  shows "int (row_group r) = r_queue_group r" "1 \<le> row_group r" "row_group r \<le> 4"
  using assms by (auto simp: reservations_ok_def list_all_iff to_entry_def)

lemma set_fifo: "set (fifo t) = {r \<in> set (username_reservations t). r_status r = Queued}"
  by (auto simp: fifo_def)

lemma row_group_fifo: "reservations_ok t \<Longrightarrow> \<forall>r \<in> set (fifo t). 1 \<le> row_group r"
  using row_group_ok(2) [of t] by (auto simp: set_fifo)

lemma reservations_distinct: "reservations_ok t \<Longrightarrow> distinct (username_reservations t)"
  by (simp add: reservations_ok_def distinct_map)

lemma distinct_fifo: "reservations_ok t \<Longrightarrow> distinct (fifo t)"
  by (simp add: fifo_def reservations_distinct)

lemma fifo_ids_inj: "reservations_ok t \<Longrightarrow> inj_on r_id (set (fifo t))"
  by (auto simp: set_fifo reservations_ok_def distinct_map intro: inj_on_subset)

lemma length_fifo: "length (fifo t) \<le> length (username_reservations t)"
  by (simp add: fifo_def)

lemma promote_ok:
  "reservations_ok t \<Longrightarrow> reservations_ok (snd (update_rows c (promote now) t))"
  by (rule reservations_ok_update_rows) (auto simp: promote_def reservations_ok_def list_all_iff)

lemma fifo_promote:
  assumes "reservations_ok t" "r \<in> set (fifo t)"
  shows "fifo (snd (update_rows (\<lambda>x. r_id x = r_id r) (promote now) t)) = remove1 r (fifo t)"
proof -
  let ?g = "\<lambda>x. if r_id x = r_id r then promote now x else x"
  have same: "r_id x = r_id r \<longleftrightarrow> x = r" if "x \<in> set (username_reservations t)" for x
    using that assms by (auto simp: set_fifo reservations_ok_def distinct_map inj_on_def)
  have "filter (\<lambda>x. r_status x = Queued) (map ?g rs) =
      filter (\<lambda>x. x \<noteq> r) (filter (\<lambda>x. r_status x = Queued) rs)"
    if "set rs \<subseteq> set (username_reservations t)" for rs
    using that same by (induction rs) (auto simp: promote_def)
  then show ?thesis
    using distinct_fifo [OF assms(1)]
    by (simp add: fifo_def update_rows_def distinct_remove1_removeAll removeAll_filter_not_eq
        filter_sort [symmetric] conj_commute)
       (metis (mono_tags, lifting) filter_cong)
qed

lemma promote_slot_serves:
  assumes "reservations_ok t" "promote_slot g now t = (res, t')"
  shows "reservations_ok t'"
    and "case find (\<lambda>r. g \<le> row_group r) (fifo t) of
        None \<Rightarrow> res = None \<and> t' = t
      | Some r \<Rightarrow> res = Some (r_id r, r_full_username r) \<and> fifo t' = remove1 r (fifo t)"
proof -
  have "int g \<le> r_queue_group r \<longleftrightarrow> g \<le> row_group r" if "r \<in> set (username_reservations t)" for r
    using row_group_ok(1) [OF assms(1) that] by linarith
  then have "find (\<lambda>r. int g \<le> r_queue_group r) xs = find (\<lambda>r. g \<le> row_group r) xs"
    if "set xs \<subseteq> set (username_reservations t)" for xs
    using that by (induction xs) auto
  then have eq: "find (\<lambda>r. int g \<le> r_queue_group r) (fifo t) = find (\<lambda>r. g \<le> row_group r) (fifo t)"
    using set_fifo by auto
  show "reservations_ok t'"
    using assms promote_ok [OF assms(1)] by (auto simp: promote_slot_def split: option.splits)
  show "case find (\<lambda>r. g \<le> row_group r) (fifo t) of
        None \<Rightarrow> res = None \<and> t' = t
      | Some r \<Rightarrow> res = Some (r_id r, r_full_username r) \<and> fifo t' = remove1 r (fifo t)"
    using assms(2) fifo_promote [OF assms(1)] eq
    by (auto simp: promote_slot_def split: option.splits dest: find_in_set)
qed

text \<open>Iterations run one after the other, each pick with the number of its iteration.\<close>

fun advance_schedule :: "tables env \<Rightarrow> nat \<Rightarrow> nat \<Rightarrow> (tables world, string, (int \<times> nat) list) prog" where
  "advance_schedule E 0 k = ret []"
| "advance_schedule E (Suc n) k =
     bindE (advance_iteration E) (\<lambda>ps.
     bindE (advance_schedule E n (Suc k)) (\<lambda>rest.
       ret (map (\<lambda>p. (p_id p, k)) ps @ rest)))"

lemma advance_slots_quiet:
  assumes "reservations_ok (w_db w)"
    and "serve_from row_group (map (\<lambda>s. 5 - s) slots) (fifo (w_db w)) = (rs, q')"
  shows "\<exists>ps w'. advance_slots (quiet now) slots w = (Inr ps, w') \<and>
    map p_id ps = map r_id rs \<and> fifo (w_db w') = q' \<and> reservations_ok (w_db w')"
  using assms
proof (induction slots arbitrary: w rs)
  case (Cons s slots)
  obtain res t' where slot: "promote_slot (5 - s) now (w_db w) = (res, t')" by fastforce
  note served = promote_slot_serves [OF Cons.prems(1) slot]
  let ?w = "w\<lparr>w_db := t', w_step := Suc (w_step w)\<rparr>"
  have sql: "sql (quiet now) (promote_slot (5 - s)) w = (Inr res, ?w)"
    by (simp add: sql_quiet slot)
  obtain rs' where rest: "serve_from row_group (map (\<lambda>s. 5 - s) slots) (fifo t') = (rs', q')"
    "map r_id rs = (case res of None \<Rightarrow> [] | Some x \<Rightarrow> [fst x]) @ map r_id rs'"
    using Cons.prems(2) served(2) by (auto split: option.splits prod.splits)
  obtain ps w' where "advance_slots (quiet now) slots ?w = (Inr ps, w')"
    "map p_id ps = map r_id rs'" "fifo (w_db w') = q'" "reservations_ok (w_db w')"
    using Cons.IH [of ?w rs'] served(1) rest(1) by auto
  then show ?case
    using sql rest(2) by (auto simp: bindE_def ret_def split: option.splits)
qed (auto simp: ret_def)

lemma advance_schedule_quiet:
  assumes "reservations_ok (w_db w)"
  shows "fst (advance_schedule (quiet now) n k w) =
    Inr (map (\<lambda>(r, k). (r_id r, k)) (drain_order row_group n k (fifo (w_db w))))"
  using assms
proof (induction n arbitrary: k w)
  case (Suc n)
  obtain rs q' where run: "serve_from row_group slot_groups (fifo (w_db w)) = (rs, q')" by fastforce
  then obtain ps w' where it: "advance_iteration (quiet now) w = (Inr ps, w')"
    "map p_id ps = map r_id rs" "fifo (w_db w') = q'" "reservations_ok (w_db w')"
    using advance_slots_quiet [OF Suc.prems, of "[1..<Suc SLOTS_PER_ITERATION]" rs q' now]
    unfolding slots_are_slot_groups advance_iteration_def by blast
  have "map (\<lambda>p. (p_id p, k)) ps = map (\<lambda>i. (i, k)) (map p_id ps)" by simp
  then have "map (\<lambda>p. (p_id p, k)) ps = map (\<lambda>r. (r_id r, k)) rs" using it(2) by simp
  then show ?case
    using Suc.IH [OF it(4), of "Suc k"] it(1,3) run
    by (auto simp: bindE_def ret_def simp del: serve_from.simps split: prod.splits sum.splits)
qed (simp add: ret_def)

definition drain_rows :: "tables \<Rightarrow> (reservation_row \<times> nat) list" where
  "drain_rows t = drain_order row_group (length (fifo t)) 1 (fifo t)"

lemma snapshot_order:
  assumes "reservations_ok t" "length (username_reservations t) < 2 ^ 32"
  shows "drain_estimate (fst (queued_snapshot now t)) target =
    Inr (locate (\<lambda>r. r_id r = target) 0 (drain_rows t))"
proof -
  have inj: "inj_on to_entry (set (fifo t))"
    using fifo_ids_inj [OF assms(1)] by (auto simp: inj_on_def to_entry_def)
  have "drain_estimate (map to_entry (fifo t)) target = Inr (locate (\<lambda>e. q_id e = target) 0
      (drain_order q_group (length (fifo t)) 1 (map to_entry (fifo t))))"
    using drain_estimate_order [of "map to_entry (fifo t)" target] inj distinct_fifo [OF assms(1)]
      length_fifo [of t] assms(2) row_group_ok(2,3) [OF assms(1)]
    by (auto simp: distinct_map set_fifo)
  also have "drain_order q_group (length (fifo t)) 1 (map to_entry (fifo t)) =
      map (\<lambda>(r, k). (to_entry r, k)) (drain_rows t)"
    unfolding drain_rows_def by (rule drain_order_map [OF inj])
  finally show ?thesis
    by (simp add: queued_snapshot_def locate_map) (simp add: to_entry_def)
qed

lemma drain_rows_nth: "j < length (drain_rows t) \<Longrightarrow> fst (drain_rows t ! j) \<in> set (fifo t)"
  unfolding drain_rows_def by (rule drain_order_nth)

lemma drain_rows_serves:
  assumes "reservations_ok t" "r \<in> set (fifo t)"
  shows "\<exists>it. (r, it) \<in> set (drain_rows t) \<and> it \<le> 1 + rank r (fifo t)"
  unfolding drain_rows_def
  by (rule drain_order_serves [OF assms(2) distinct_fifo [OF assms(1)] row_group_fifo [OF assms(1)]
        rank_less [OF assms(2)]])

text \<open>A queued claim is located in the drain of its snapshot.\<close>

lemma queued_located:
  assumes "reservations_ok t" "r \<in> set (fifo t)"
  obtains m where "m < length (drain_rows t)"
    and "locate (\<lambda>x. r_id x = r_id r) 0 (drain_rows t) =
      Some \<lparr>position = m + 1, iterations = snd (drain_rows t ! m)\<rparr>"
    and "fst (drain_rows t ! m) = r" and "\<forall>j < m. r_id (fst (drain_rows t ! j)) \<noteq> r_id r"
proof -
  obtain it where "(r, it) \<in> set (drain_rows t)"
    using drain_rows_serves [OF assms] by blast
  from locate_Some [OF this, of "\<lambda>x. r_id x = r_id r" 0]
  obtain m where m: "m < length (drain_rows t)" "locate (\<lambda>x. r_id x = r_id r) 0 (drain_rows t) =
      Some \<lparr>position = 0 + m + 1, iterations = snd (drain_rows t ! m)\<rparr>"
    "r_id (fst (drain_rows t ! m)) = r_id r" "\<forall>j < m. r_id (fst (drain_rows t ! j)) \<noteq> r_id r"
    by blast
  have "fst (drain_rows t ! m) = r"
    using m(3) drain_rows_nth [OF m(1)] fifo_ids_inj [OF assms(1)] assms(2) by (auto simp: inj_on_def)
  then show thesis
    using m by (intro that [of m]) simp_all
qed

section \<open>What the queue may change\<close>

text \<open>
  The queue moves a row only from QUEUED to RESERVED and only re-groups a QUEUED row;
  the key, payload, age, attempts and dotNS half of every row stay as they were.
\<close>

definition queue_move :: "reservation_row \<Rightarrow> reservation_row \<Rightarrow> bool" where
  "queue_move r r' \<longleftrightarrow> r' = r \<or>
     r_status r = Queued \<and> (r_status r' = Queued \<or> r_status r' = Reserved) \<and>
     r_id r' = r_id r \<and> r_new r' = r_new r \<and> r_created_at r' = r_created_at r \<and>
     r_attempt r' = r_attempt r \<and> dotns_half r' = dotns_half r \<and>
     1 \<le> r_queue_group r' \<and> r_queue_group r' \<le> 4"

definition queue_moves :: "tables \<Rightarrow> tables \<Rightarrow> bool" where
  "queue_moves t t' \<longleftrightarrow> list_all2 queue_move (username_reservations t) (username_reservations t')"

lemma queue_moves_refl [simp]: "queue_moves t t"
  by (simp add: queue_moves_def list_all2_same queue_move_def)

lemma queue_moves_update_rows:
  assumes "\<And>r. r \<in> set (username_reservations t) \<Longrightarrow> c r \<Longrightarrow> queue_move r (f r)"
  shows "queue_moves t (snd (update_rows c f t))"
  using assms
  by (auto simp: queue_moves_def update_rows_def list_all2_conv_all_nth queue_move_def)

lemma queue_move_promote:
  "reservations_ok t \<Longrightarrow> r \<in> set (username_reservations t) \<Longrightarrow> r_status r = Queued \<Longrightarrow>
   queue_move r (promote now r)"
  by (auto simp: queue_move_def promote_def dotns_half_def reservations_ok_def list_all_iff)

lemma promote_slot_moves: "reservations_ok t \<Longrightarrow> queue_moves t (snd (promote_slot g now t))"
proof (cases "find (\<lambda>r. int g \<le> r_queue_group r) (fifo t)")
  case (Some r)
  assume ok: "reservations_ok t"
  have r: "r \<in> set (username_reservations t)" "r_status r = Queued"
    using find_in_set [OF Some] by (auto simp: set_fifo)
  have "x = r" if "x \<in> set (username_reservations t)" "r_id x = r_id r" for x
    using ok r that by (auto simp: reservations_ok_def distinct_map inj_on_def)
  then have "queue_moves t (snd (update_rows (\<lambda>x. r_id x = r_id r) (promote now) t))"
    using r queue_move_promote [OF ok] by (intro queue_moves_update_rows) blast
  then show ?thesis by (simp add: promote_slot_def Some)
qed (simp add: promote_slot_def)

lemma set_group_moves: "1 \<le> g \<Longrightarrow> g \<le> 4 \<Longrightarrow> queue_moves t (snd (set_group a g now t))"
  unfolding set_group_def snd_conv
  by (rule queue_moves_update_rows) (auto simp: queue_move_def dotns_half_def)

lemma set_group_ok: "1 \<le> g \<Longrightarrow> g \<le> 4 \<Longrightarrow> reservations_ok t \<Longrightarrow> reservations_ok (snd (set_group a g now t))"
  unfolding set_group_def snd_conv by (rule reservations_ok_update_rows) auto

lemma group_for_balance_range: "1 \<le> group_for_balance p" "group_for_balance p \<le> 4"
  by (auto simp: group_for_balance_def)

lemma refreshed_group_range: "refreshed_group hexd fb a = Some g \<Longrightarrow> 1 \<le> g \<and> g \<le> 4"
  using group_for_balance_range by (auto simp: refreshed_group_def split: option.splits sum.splits)

lemma promote_slot_ok: "reservations_ok t \<Longrightarrow> reservations_ok (snd (promote_slot g now t))"
  using promote_slot_serves(1) by (metis prod.collapse)

lemma keeps_advance_iteration [prog_intro]:
  "stable E reservations_ok \<Longrightarrow> keeps (on_db reservations_ok) (advance_iteration E)"
proof -
  assume "stable E reservations_ok"
  then have "keeps (on_db reservations_ok) (advance_slots E slots)" for slots
    by (induction slots) (auto intro!: prog_intro promote_slot_ok)
  then show ?thesis by (simp add: advance_iteration_def)
qed

lemma keeps_refresh_groups [prog_intro]:
  "stable E reservations_ok \<Longrightarrow> keeps (on_db reservations_ok) (refresh_groups E hexd fb perm)"
  unfolding refresh_groups_def
  by (auto intro!: prog_intro set_group_ok simp: queued_accounts_def dest: refreshed_group_range)

section \<open>A small queue for the witnesses\<close>

definition demo_entry :: "string \<Rightarrow> new_reservation" where
  "demo_entry name = demo_new\<lparr>n_full_username := name\<rparr>"

definition demo_queue :: tables where
  "demo_queue =
     snd (insert_queued (demo_entry ''c.01'') 3 30
       (snd (insert_queued (demo_entry ''b.01'') 2 20
         (snd (insert_queued (demo_entry ''a.01'') 1 10 empty_tables)))))"

lemmas demo_queue_simps =
  demo_queue_def demo_entry_def insert_queued_def insert_with_def demo_new_def empty_tables_def
  Let_def

lemma demo_queue_ok: "reservations_ok demo_queue"
  by (simp add: demo_queue_simps reservations_ok_def)

definition demo_row :: "nat \<Rightarrow> reservation_row" where
  "demo_row n = username_reservations demo_queue ! n"

lemma demo_fifo: "fifo demo_queue = [demo_row 0, demo_row 1, demo_row 2]"
  by (simp add: demo_row_def fifo_def demo_queue_simps)

lemma demo_rows: "r_id (demo_row 0) = 1" "r_id (demo_row 1) = 2" "r_id (demo_row 2) = 3"
  "row_group (demo_row 0) = 1" "row_group (demo_row 1) = 2" "row_group (demo_row 2) = 3"
  by (simp_all add: demo_row_def demo_queue_simps to_entry_def)

section \<open>Properties\<close>

text \<open>C4: the queue position shown to a user is exact. For a claim queued in a database
  that no one else touches, the drain simulation on the snapshot returns a position and an
  iteration count, and running the advancer's iterations promotes that very claim as its
  position-th pick overall, in exactly that iteration, and not before.\<close>

theorem drain_estimate_exact:
  assumes "reservations_ok (w_db w)" "r \<in> set (fifo (w_db w))"
    "length (username_reservations (w_db w)) < 2 ^ 32"
  shows "\<exists>est sched. drain_estimate (fst (queued_snapshot now (w_db w))) (r_id r) = Inr (Some est) \<and>
    fst (advance_schedule (quiet now') (length (fifo (w_db w))) 1 w) = Inr sched \<and>
    1 \<le> position est \<and> position est \<le> length sched \<and>
    sched ! (position est - 1) = (r_id r, iterations est) \<and>
    (\<forall>j < position est - 1. fst (sched ! j) \<noteq> r_id r)"
proof -
  let ?d = "drain_rows (w_db w)"
  obtain m where m: "m < length ?d" "locate (\<lambda>x. r_id x = r_id r) 0 ?d =
      Some \<lparr>position = m + 1, iterations = snd (?d ! m)\<rparr>"
    "fst (?d ! m) = r" "\<forall>j < m. r_id (fst (?d ! j)) \<noteq> r_id r"
    by (rule queued_located [OF assms(1,2)])
  have "fst (advance_schedule (quiet now') (length (fifo (w_db w))) 1 w) =
      Inr (map (\<lambda>(r, k). (r_id r, k)) ?d)"
    unfolding drain_rows_def by (rule advance_schedule_quiet [OF assms(1)])
  with snapshot_order [OF assms(1,3), of now "r_id r"] m show ?thesis
    by (simp add: split_beta)
qed

theorem drain_estimate_exact_witness:
  "\<exists>est sched. drain_estimate (fst (queued_snapshot 40 demo_queue)) 3 = Inr (Some est) \<and>
    fst (advance_schedule (quiet 40) 3 1 \<lparr>w_db = demo_queue, w_step = 0\<rparr>) = Inr sched \<and>
    sched ! (position est - 1) = (3, iterations est)"
proof -
  have "length (username_reservations demo_queue) < 2 ^ 32"
    by (simp add: demo_queue_simps)
  then show ?thesis
    using drain_estimate_exact [of "\<lparr>w_db = demo_queue, w_step = 0\<rparr>" "demo_row 2" 40 40]
      demo_queue_ok
    by (simp add: demo_fifo demo_rows numeral_3_eq_3 [symmetric] del: advance_schedule.simps) blast
qed



text \<open>promotion is fair. If one claim was enqueued before another and its balance group is
  at least as high, the drain simulation gives it a strictly smaller position.\<close>

theorem queue_fair:
  assumes "reservations_ok t" "length (username_reservations t) < 2 ^ 32"
    "fifo t = us @ a # vs @ b # ws" "r_queue_group b \<le> r_queue_group a"
  shows "\<exists>ea eb. drain_estimate (fst (queued_snapshot now t)) (r_id a) = Inr (Some ea) \<and>
    drain_estimate (fst (queued_snapshot now t)) (r_id b) = Inr (Some eb) \<and>
    position ea < position eb"
proof -
  let ?d = "drain_rows t"
  have ab: "a \<in> set (fifo t)" "b \<in> set (fifo t)" using assms(3) by auto
  obtain m where m: "m < length ?d" "locate (\<lambda>x. r_id x = r_id a) 0 ?d =
      Some \<lparr>position = m + 1, iterations = snd (?d ! m)\<rparr>"
    "\<forall>j < m. r_id (fst (?d ! j)) \<noteq> r_id a" by (rule queued_located [OF assms(1) ab(1)])
  obtain n where n: "n < length ?d" "locate (\<lambda>x. r_id x = r_id b) 0 ?d =
      Some \<lparr>position = n + 1, iterations = snd (?d ! n)\<rparr>"
    "fst (?d ! n) = b" by (rule queued_located [OF assms(1) ab(2)])
  have "precedes a b (fifo t)"
    unfolding precedes_def assms(3)
    by (intro exI [of _ "us @ [a]"] exI [of _ "vs @ b # ws"]) auto
  moreover have "row_group b \<le> row_group a"
    using assms(4) by (auto simp: to_entry_def)
  moreover have "b \<in> fst ` set ?d"
    using n(1,3) by (auto intro!: rev_image_eqI [OF nth_mem])
  ultimately have "precedes a b (map fst ?d)"
    unfolding drain_rows_def by (rule drain_order_fair [OF distinct_fifo [OF assms(1)]])
  moreover have "distinct (map fst ?d)"
    unfolding drain_rows_def by (rule drain_order_distinct [OF distinct_fifo [OF assms(1)]])
  moreover have "\<forall>j < m. map fst ?d ! j \<noteq> a"
    using m(1,3) by auto
  ultimately have "m < n"
    using precedes_index [of a b "map fst ?d" n m] n by simp
  then show ?thesis
    using snapshot_order [OF assms(1,2), of now] m(2) n(2) by simp
qed

theorem queue_fair_witness:
  "\<exists>ea eb. drain_estimate (map to_entry (fifo (snd (set_group ''0xaa'' 2 35 demo_queue)))) 1 =
      Inr (Some ea) \<and>
    drain_estimate (map to_entry (fifo (snd (set_group ''0xaa'' 2 35 demo_queue)))) 3 =
      Inr (Some eb) \<and> position ea < position eb"
proof -
  let ?t = "snd (set_group ''0xaa'' 2 35 demo_queue)"
  have rows: "reservations_ok ?t" "length (username_reservations ?t) < 2 ^ 32"
    by (simp_all add: set_group_def update_rows_def demo_queue_simps reservations_ok_def)
  obtain a b c where fifo: "fifo ?t = [] @ a # [b] @ c # []" "r_id a = 1" "r_id c = 3"
    "r_queue_group a = 2" "r_queue_group c = 2"
    by (simp add: set_group_def update_rows_def fifo_def demo_queue_simps)
  show ?thesis
    using queue_fair [OF rows fifo(1), of 40] fifo by (simp add: queued_snapshot_def)
qed

text \<open>the advancer service is safe under every interleaving of its statements. A step of
  the service loop (acquire, renew, a group refresh, one promotion slot, a keep-alive renewal,
  or abandoning the iteration) keeps keys and schema checks, never lowers a lease epoch, and
  changes a row only by re-grouping a QUEUED claim or promoting it to RESERVED.\<close>

theorem advancer_step_safe:
  assumes "advancer_step hexd fb cfg now (m, t) (m', t')" "reservations_ok t"
  shows "reservations_ok t' \<and> queue_moves t t' \<and> current_epoch n t \<le> current_epoch n t'"
  using assms(1)
proof (cases rule: advancer_step.cases)
  case (acquired e)
  then have "t' = snd (try_acquire ADVANCER_LEASE_NAME (ac_holder cfg) (ac_ttl cfg) now t)"
    by simp
  then show ?thesis
    using assms(2) wl.acquire_mono by (auto simp: reservations_ok_def queue_moves_def
        list_all2_same queue_move_def)
next
  case (renewed e)
  then have "t' = snd (renew ADVANCER_LEASE_NAME (ac_holder cfg) e (ac_ttl cfg) now t)"
    by simp
  then show ?thesis
    using assms(2) by (auto simp: reservations_ok_def queue_moves_def list_all2_same
        queue_move_def wl.extend_epoch)
next
  case (kept_alive e)
  then have "t' = snd (renew ADVANCER_LEASE_NAME (ac_holder cfg) e (ac_ttl cfg) now t)"
    by simp
  then show ?thesis
    using assms(2) by (auto simp: reservations_ok_def queue_moves_def list_all2_same
        queue_move_def wl.extend_epoch)
next
  case (refreshed account accounts g e)
  then show ?thesis
    using assms(2) refreshed_group_range set_group_ok set_group_moves
    by (auto simp: current_epoch_def set_group_def)
next
  case (slot e s slots)
  then show ?thesis
    using assms(2) promote_slot_ok promote_slot_moves
    by (auto simp: current_epoch_def promote_slot_def split: option.splits)
qed (use assms(2) in simp_all)

theorem advancer_step_safe_witness:
  "\<exists>t'. advancer_step (\<lambda>_. None) (\<lambda>_. Inl ''down'') \<lparr>ac_holder = ''q1'', ac_ttl = 30\<rparr> 40
      (Advancing 1 [4], demo_queue) (Advancing 1 [], t') \<and>
    r_status (username_reservations t' ! 0) = Reserved \<and> queue_moves demo_queue t'"
proof -
  let ?t' = "snd (promote_slot (5 - 4) 40 demo_queue)"
  have step: "advancer_step (\<lambda>_. None) (\<lambda>_. Inl ''down'') \<lparr>ac_holder = ''q1'', ac_ttl = 30\<rparr> 40
      (Advancing 1 [4], demo_queue) (Advancing 1 [], ?t')"
    by (rule advancer_step.slot)
  moreover have "r_status (username_reservations ?t' ! 0) = Reserved"
    by (simp add: promote_slot_def fifo_def update_rows_def promote_def demo_queue_simps)
  ultimately show ?thesis
    using advancer_step_safe [OF step demo_queue_ok] by blast
qed

text \<open>an accepted cadence keeps a healthy advancer's lease alive. Whenever the interval and
  the lease time pass \<open>validate_cadence\<close>, a renewed lease is still held after the longest
  un-renewed gap of the loop, one interval plus one third of the lease time.\<close>

theorem cadence_lease_outlives_gap:
  assumes "validate_cadence (ns i) (ns (unat ttl)) = Inr ()" "unat ttl < 2 ^ 63"
    "renew ADVANCER_LEASE_NAME h e ttl now t = (True, t')"
    "1000 * (now' - now) \<le> int (ns i + ns (unat ttl) div 3)"
  shows "lease_held ADVANCER_LEASE_NAME h e now' t' \<and> fst (advancer_alive now' t')"
proof -
  have "ns i + ns (unat ttl) div 3 < ns (unat ttl)"
    using assms(1) by (auto simp: validate_cadence_def split: if_splits)
  then have "1000 * (now' - now) < int (ns (unat ttl))"
    using assms(4) by linarith
  moreover have "sint ttl = int (unat ttl)"
    using assms(2) by (rule sint_u64_small)
  ultimately have "now' < now + secs (sint ttl)"
    by (simp add: ns_def)
  then have "lease_held ADVANCER_LEASE_NAME h e now' t'"
    using renew_held [OF assms(3)] by simp
  then show ?thesis
    by (auto simp: advancer_alive_def alive_iff_held)
qed

theorem cadence_lease_outlives_gap_witness:
  "\<exists>t'. renew ADVANCER_LEASE_NAME ''q1'' 1 30 10
      (snd (try_acquire ADVANCER_LEASE_NAME ''q1'' 30 0 empty_tables)) = (True, t') \<and>
    lease_held ADVANCER_LEASE_NAME ''q1'' 1 16000010 t'"
proof -
  let ?t = "snd (try_acquire ADVANCER_LEASE_NAME ''q1'' 30 0 empty_tables)"
  obtain t' where run: "renew ADVANCER_LEASE_NAME ''q1'' 1 30 10 ?t = (True, t')"
    by (simp add: renew_def try_acquire_def empty_tables_def Let_def)
  have "validate_cadence (ns 6) (ns (unat (30 :: u64))) = Inr ()"
    by (simp add: validate_cadence_def ns_def)
  with cadence_lease_outlives_gap [of 6 30 "''q1''" 1 10 ?t t' 16000010] run
  show ?thesis by (simp add: ns_def)
qed

text \<open>the retirement janitor respects a live advancer. While the advancer's lease has not
  been expired for longer than the grace period it changes nothing; otherwise (or when there is
  no lease) it promotes every queued claim, and reports exactly how many.\<close>

theorem fallback_drain_gate:
  assumes "reservations_ok t" "fallback_drain grace now t = (n, t')"
  shows "if (\<exists>l. writer_lease t ADVANCER_LEASE_NAME = Some l \<and>
           lease_expires_at l > now - secs (sint grace))
    then n = 0 \<and> t' = t
    else n = length (fifo t) \<and> fifo t' = [] \<and> queue_moves t t' \<and> reservations_ok t'"
proof (cases "\<exists>l. writer_lease t ADVANCER_LEASE_NAME = Some l \<and>
    lease_expires_at l > now - secs (sint grace)")
  case True
  then have "fallback_drain grace now t = (0, t)"
    unfolding fallback_drain_def by (intro update_rows_none) auto
  with True assms(2) show ?thesis by simp
next
  case False
  then have eq: "fallback_drain grace now t = update_rows (\<lambda>r. r_status r = Queued) (promote now) t"
    by (auto simp: fallback_drain_def split: option.splits intro!: arg_cong [where f = "\<lambda>c. update_rows c _ _"])
  have t': "t' = snd (update_rows (\<lambda>r. r_status r = Queued) (promote now) t)"
    "n = length (filter (\<lambda>r. r_status r = Queued) (username_reservations t))"
    using assms(2) eq by (auto simp: update_rows_def)
  have "queue_moves t t'"
    unfolding t' using queue_move_promote [OF assms(1)] by (intro queue_moves_update_rows) blast
  moreover have "filter (\<lambda>r. r_status r = Queued) (username_reservations t') = []"
    by (auto simp: t' update_rows_def filter_empty_conv promote_def)
  then have "fifo t' = []"
    by (simp add: fifo_def)
  moreover have "n = length (fifo t)" "reservations_ok t'"
    using t' promote_ok [OF assms(1)] by (simp_all add: fifo_def)
  ultimately show ?thesis
    unfolding if_not_P [OF False] by blast
qed

theorem fallback_drain_gate_witness:
  "\<exists>t'. fallback_drain 60 50 demo_queue = (3, t') \<and> fifo t' = []"
proof -
  obtain n t' where run: "fallback_drain 60 50 demo_queue = (n, t')" by fastforce
  have none: "writer_lease demo_queue ADVANCER_LEASE_NAME = None"
    by (simp add: demo_queue_simps)
  have "n = length (fifo demo_queue) \<and> fifo t' = []"
    using fallback_drain_gate [OF demo_queue_ok run] none by simp
  then show ?thesis using run by (simp add: demo_fifo)
qed

end
