(* ===== verification/Batch.thy ===== *)
theory Batch
  imports Prelude
begin

text \<open>
  Batching on a chain lane: reading the per-item results of a \<open>force_batch\<close> out of its
  events (\<open>chain-client/src/batch.rs\<close>) and the adaptive batch size (\<open>BatchLane\<close> of
  \<open>writer/lane.rs\<close>). Sizes and counters are 16-bit words, as in the code. Shown here: the
  size stays between one and the configured maximum, a run of failures halves it down to
  one, a run of successes brings it back to the maximum within a stated number of steps,
  it never reaches a known ceiling before the ceiling is probed, and back-off times stay
  between two and sixty-four seconds.
\<close>

section \<open>Item results\<close>

definition batch_item_results :: "('t \<Rightarrow> string \<times> string) \<Rightarrow> 't list \<Rightarrow> ('t + unit) list" where
  "batch_item_results names events =
     List.map_filter (\<lambda>event.
       if names event = (''Utility'', ''ItemCompleted'') then Some (Inr ())
       else if names event = (''Utility'', ''ItemFailed'') then Some (Inl event)
       else None) events"

definition settle_batch_size :: "u16 \<Rightarrow> u16 \<Rightarrow> bool \<Rightarrow> u16" where
  "settle_batch_size current max_size succeeded =
     (if succeeded then min (saturating_add current 1) max_size else max (current div 2) 1)"

section \<open>The adaptive lane\<close>

record batch_lane =
  size_in_use :: u16
  max_size :: u16
  failures :: u16
  ceiling :: "u16 option"
  clean :: u16

definition CEILING_PROBE_RUN :: u16 where
  "CEILING_PROBE_RUN = 20"

definition batch_new :: "u16 \<Rightarrow> batch_lane" where
  "batch_new m =
     \<lparr>size_in_use = max m 1, max_size = max m 1, failures = 0, ceiling = None, clean = 0\<rparr>"

definition grow_limit :: "batch_lane \<Rightarrow> u16" where
  "grow_limit b =
     (case ceiling b of
        Some c \<Rightarrow> max (min (max_size b) (saturating_sub c 1)) 1
      | None \<Rightarrow> max_size b)"

definition probe_ceiling :: "batch_lane \<Rightarrow> batch_lane" where
  "probe_ceiling b =
     (let n = saturating_add (clean b) 1
      in if n \<ge> CEILING_PROBE_RUN
         then b\<lparr>failures := 0, clean := 0,
                ceiling := (case ceiling b of
                    Some c \<Rightarrow> if c < max_size b then Some (c + 1) else None
                  | None \<Rightarrow> None)\<rparr>
         else b\<lparr>failures := 0, clean := n\<rparr>)"

definition batch_succeeded :: "batch_lane \<Rightarrow> batch_lane" where
  "batch_succeeded b =
     (let b' = probe_ceiling b
      in b'\<lparr>size_in_use := settle_batch_size (size_in_use b') (grow_limit b') True\<rparr>)"

text \<open>The lane after a failed batch, and the back-off in seconds.\<close>

definition batch_failed :: "batch_lane \<Rightarrow> batch_lane \<times> int" where
  "batch_failed b =
     (let attempted = size_in_use b;
          new_size = settle_batch_size attempted (max_size b) False;
          run = saturating_add (failures b) 1
      in (b\<lparr>size_in_use := new_size,
            ceiling := (if new_size < attempted
              then Some (case ceiling b of Some c \<Rightarrow> min c attempted | None \<Rightarrow> attempted)
              else ceiling b),
            clean := 0, failures := run\<rparr>,
          2 ^ max 1 (min 6 (unat run))))"

section \<open>Invariant\<close>

definition lane_ok :: "batch_lane \<Rightarrow> bool" where
  "lane_ok b \<longleftrightarrow> 1 \<le> unat (size_in_use b) \<and> unat (size_in_use b) \<le> unat (max_size b) \<and>
     unat (clean b) < 20 \<and>
     (case ceiling b of None \<Rightarrow> True | Some c \<Rightarrow> 2 \<le> unat c \<and> unat c \<le> unat (max_size b))"

lemma unat_lt_u16: "unat (x :: u16) < 65536"
  using unsigned_less [where 'a = nat and w = x] by simp

lemma unat_min: "unat (min a b) = min (unat a) (unat b)"
  by (auto simp: min_def word_le_nat_alt)

lemma unat_max: "unat (max a b) = max (unat a) (unat b)"
  by (auto simp: max_def word_le_nat_alt)

lemma unat_settle:
  "unat (settle_batch_size c m True) = min (min (unat c + 1) 65535) (unat m)"
  "unat (settle_batch_size c m False) = max (unat c div 2) 1"
  by (simp_all add: settle_batch_size_def unat_min unat_max unat_saturating_add unat_div)

lemma unat_grow_limit:
  "unat (grow_limit b) = (case ceiling b of
       Some c \<Rightarrow> max (min (unat (max_size b)) (unat c - 1)) 1
     | None \<Rightarrow> unat (max_size b))"
  by (simp add: grow_limit_def unat_min unat_max unat_saturating_sub split: option.splits)

lemma batch_new_ok: "lane_ok (batch_new m)"
  by (simp add: lane_ok_def batch_new_def unat_max)

lemma probe_ceiling_fields [simp]:
  "size_in_use (probe_ceiling b) = size_in_use b" "max_size (probe_ceiling b) = max_size b"
  by (simp_all add: probe_ceiling_def Let_def)

lemma clean_step: "unat (clean b) < 20 \<Longrightarrow> unat (saturating_add (clean b) 1) = unat (clean b) + 1"
  by (simp add: unat_saturating_add)

lemma ceiling_step: "unat c < unat m \<Longrightarrow> unat (c + 1) = unat c + 1" for c m :: u16
  using unat_lt_u16 [of m] by (simp add: unat_word_ariths)

lemma probe_ceiling_cases:
  assumes "lane_ok b"
  shows "if unat (clean b) = 19
    then clean (probe_ceiling b) = 0 \<and>
      ceiling (probe_ceiling b) = (case ceiling b of
          Some c \<Rightarrow> if unat c < unat (max_size b) then Some (c + 1) else None | None \<Rightarrow> None)
    else unat (clean (probe_ceiling b)) = unat (clean b) + 1 \<and> ceiling (probe_ceiling b) = ceiling b"
proof -
  have c: "unat (clean b) < 20" using assms by (simp add: lane_ok_def)
  have "saturating_add (clean b) 1 \<ge> CEILING_PROBE_RUN \<longleftrightarrow> unat (clean b) = 19"
    using c by (auto simp: CEILING_PROBE_RUN_def word_le_nat_alt clean_step)
  then show ?thesis
    using c by (auto simp: probe_ceiling_def Let_def clean_step word_less_nat_alt split: option.splits)
qed

lemma probe_ceiling_ok:
  assumes "lane_ok b"
  shows "lane_ok (probe_ceiling b)"
proof -
  have "case ceiling (probe_ceiling b) of None \<Rightarrow> True
      | Some c \<Rightarrow> 2 \<le> unat c \<and> unat c \<le> unat (max_size b)"
    using probe_ceiling_cases [OF assms] assms ceiling_step [of _ "max_size b"]
    by (auto simp: lane_ok_def split: option.splits if_splits)
  moreover have "unat (clean (probe_ceiling b)) < 20"
    using probe_ceiling_cases [OF assms] assms by (auto simp: lane_ok_def split: if_splits)
  ultimately show ?thesis
    using assms by (simp add: lane_ok_def split: option.splits)
qed

lemma batch_succeeded_fields:
  "ceiling (batch_succeeded b) = ceiling (probe_ceiling b)"
  "clean (batch_succeeded b) = clean (probe_ceiling b)"
  "max_size (batch_succeeded b) = max_size b"
  "failures (batch_succeeded b) = 0"
  "unat (size_in_use (batch_succeeded b)) =
     min (min (unat (size_in_use b) + 1) 65535) (unat (grow_limit (probe_ceiling b)))"
  by (simp_all add: batch_succeeded_def Let_def unat_settle) (simp add: probe_ceiling_def Let_def)

lemma batch_succeeded_ok: "lane_ok b \<Longrightarrow> lane_ok (batch_succeeded b)"
  using probe_ceiling_ok [of b]
  by (auto simp: lane_ok_def batch_succeeded_fields unat_grow_limit split: option.splits)

lemma batch_failed_ok: "lane_ok b \<Longrightarrow> lane_ok (fst (batch_failed b))"
  by (auto simp: lane_ok_def batch_failed_def Let_def unat_settle unat_min word_less_nat_alt
      split: option.splits)

section \<open>Recovery\<close>

text \<open>Successes left until the known ceiling has been probed away.\<close>

definition probe_debt :: "batch_lane \<Rightarrow> nat" where
  "probe_debt b = (case ceiling b of
     None \<Rightarrow> 0 | Some c \<Rightarrow> 20 * (unat (max_size b) - unat c) + (20 - unat (clean b)))"

lemma probe_debt_decreases:
  assumes "lane_ok b" "ceiling b \<noteq> None"
  shows "probe_debt (batch_succeeded b) < probe_debt b"
proof -
  obtain c where c: "ceiling b = Some c" using assms(2) by blast
  have bounds: "unat c \<le> unat (max_size b)" "unat (clean b) < 20"
    using assms(1) c by (simp_all add: lane_ok_def)
  show ?thesis
  proof (cases "unat (clean b) = 19")
    case True
    then show ?thesis
      using probe_ceiling_cases [OF assms(1)] bounds c ceiling_step [of c "max_size b"]
      by (auto simp: probe_debt_def batch_succeeded_fields)
  next
    case False
    then show ?thesis
      using probe_ceiling_cases [OF assms(1)] bounds c
      by (auto simp: probe_debt_def batch_succeeded_fields)
  qed
qed

lemma no_ceiling_stays:
  "lane_ok b \<Longrightarrow> ceiling b = None \<Longrightarrow> ceiling (batch_succeeded b) = None"
  using probe_ceiling_cases [of b] by (auto simp: batch_succeeded_fields split: if_splits)

lemma grows_without_ceiling:
  assumes "lane_ok b" "ceiling b = None"
  shows "unat (size_in_use (batch_succeeded b)) = min (unat (size_in_use b) + 1) (unat (max_size b))"
proof -
  have "ceiling (probe_ceiling b) = None"
    using no_ceiling_stays [OF assms] by (simp add: batch_succeeded_fields)
  moreover have "unat (max_size b) \<le> 65535"
    using unat_lt_u16 [of "max_size b"] by linarith
  ultimately show ?thesis
    by (simp add: batch_succeeded_fields unat_grow_limit)
qed

lemma iterate_ok: "lane_ok b \<Longrightarrow> lane_ok ((batch_succeeded ^^ n) b)"
  by (induction n) (simp_all add: batch_succeeded_ok)

lemma iterate_max: "max_size ((batch_succeeded ^^ n) b) = max_size b"
  by (induction n) (simp_all add: batch_succeeded_fields)

lemma ceiling_probed_away:
  "lane_ok b \<Longrightarrow> probe_debt b \<le> n \<Longrightarrow> ceiling ((batch_succeeded ^^ n) b) = None"
proof (induction n arbitrary: b)
  case 0
  then show ?case by (auto simp: probe_debt_def lane_ok_def split: option.splits)
next
  case (Suc n)
  have "ceiling ((batch_succeeded ^^ n) (batch_succeeded b)) = None"
  proof (cases "ceiling b = None")
    case True
    then have "probe_debt (batch_succeeded b) = 0"
      using no_ceiling_stays [OF Suc.prems(1)] by (simp add: probe_debt_def)
    then show ?thesis using Suc.IH batch_succeeded_ok Suc.prems(1) by simp
  next
    case False
    then have "probe_debt (batch_succeeded b) \<le> n"
      using probe_debt_decreases [OF Suc.prems(1)] Suc.prems(2) by simp
    then show ?thesis using Suc.IH batch_succeeded_ok Suc.prems(1) by simp
  qed
  then show ?case by (simp add: funpow_swap1)
qed

lemma size_recovers:
  "lane_ok b \<Longrightarrow> ceiling b = None \<Longrightarrow>
   unat (size_in_use ((batch_succeeded ^^ n) b)) = min (unat (size_in_use b) + n) (unat (max_size b))"
proof (induction n)
  case (Suc n)
  let ?b = "(batch_succeeded ^^ n) b"
  have "ceiling ?b = None"
    using ceiling_probed_away [OF Suc.prems(1), of n] Suc.prems(2) by (simp add: probe_debt_def)
  then have "unat (size_in_use (batch_succeeded ?b)) = min (unat (size_in_use ?b) + 1) (unat (max_size b))"
    using grows_without_ceiling [of ?b] iterate_ok [OF Suc.prems(1)] by (simp add: iterate_max)
  then show ?case using Suc by simp
qed (simp add: lane_ok_def)

section \<open>Properties\<close>

text \<open>the adaptive batch size is always usable. A new lane, and a lane after any success
  or failure, keeps its size between one and the maximum it was built with, keeps a known
  ceiling above one, and a failed batch backs off between 2 and 64 seconds.\<close>

theorem batch_size_bounds:
  assumes "lane_ok b"
  shows "lane_ok (batch_new m) \<and> lane_ok (batch_succeeded b) \<and> lane_ok (fst (batch_failed b)) \<and>
    max_size (batch_succeeded b) = max_size b \<and> max_size (fst (batch_failed b)) = max_size b \<and>
    2 \<le> snd (batch_failed b) \<and> snd (batch_failed b) \<le> 64"
proof -
  have "(2::int) ^ 1 \<le> 2 ^ max 1 (min 6 k)" "(2::int) ^ max 1 (min 6 k) \<le> 2 ^ 6" for k
    by (rule power_increasing; simp)+
  then show ?thesis
    using batch_new_ok batch_succeeded_ok [OF assms] batch_failed_ok [OF assms]
    by (simp add: batch_succeeded_fields batch_failed_def Let_def)
qed

theorem batch_size_bounds_witness:
  "lane_ok (batch_new 8) \<and> snd (batch_failed (batch_new 8)) = 2 \<and>
   lane_ok (fst (batch_failed (batch_new 8)))"
  using batch_size_bounds [of "batch_new 8" 8] batch_new_ok [of 8]
  by (simp add: batch_failed_def batch_new_def Let_def unat_saturating_add)

text \<open>a lane that keeps failing converges on single rows, so the row that breaks a batch is
  isolated: after \<open>k\<close> consecutive failures the size is the old one halved \<open>k\<close> times, but at
  least one.\<close>

theorem batch_failures_isolate:
  "unat (size_in_use (((\<lambda>b. fst (batch_failed b)) ^^ k) b)) =
     (if k = 0 then unat (size_in_use b) else max 1 (unat (size_in_use b) div 2 ^ k))"
proof (induction k)
  case (Suc k)
  let ?b = "((\<lambda>b. fst (batch_failed b)) ^^ k) b" and ?s = "unat (size_in_use b)"
  have halve: "unat (size_in_use (fst (batch_failed ?b))) = max 1 (unat (size_in_use ?b) div 2)"
    by (simp add: batch_failed_def Let_def unat_settle)
  have "max 1 (max 1 (?s div 2 ^ k) div 2) = max 1 (?s div 2 ^ k div 2)"
    by (auto simp: max_def)
  then have "max 1 (unat (size_in_use ?b) div 2) = max 1 (?s div 2 ^ k div 2)"
    using Suc by (cases "k = 0") simp_all
  then show ?case
    by (simp add: halve div_mult2_eq [symmetric] mult.commute)
qed simp

text \<open>a lane that keeps succeeding recovers. Whatever ceiling earlier failures left behind,
  after at most \<open>probe_debt + max_size\<close> successes the ceiling is gone and the lane claims its
  configured maximum again.\<close>

theorem batch_successes_recover:
  assumes "lane_ok b" "probe_debt b + unat (max_size b) \<le> n"
  shows "size_in_use ((batch_succeeded ^^ n) b) = max_size b \<and>
    ceiling ((batch_succeeded ^^ n) b) = None"
proof -
  let ?b = "(batch_succeeded ^^ probe_debt b) b"
  obtain k where k: "n = k + probe_debt b" "unat (max_size b) \<le> k"
    using assms(2) by (metis add.commute le_Suc_ex add_le_cancel_left trans_le_add1 le_add_diff_inverse)
  have "ceiling ?b = None" using ceiling_probed_away [OF assms(1)] by simp
  from size_recovers [OF iterate_ok [OF assms(1)] this, of k]
  have "unat (size_in_use ((batch_succeeded ^^ n) b)) = unat (max_size b)"
    using k by (simp add: funpow_add iterate_max)
  then show ?thesis
    using ceiling_probed_away [OF assms(1), of n] assms(2) by (simp add: word_unat_eq_iff)
qed

theorem batch_successes_recover_witness:
  "size_in_use ((batch_succeeded ^^ 40) (fst (batch_failed (batch_new 2)))) = 2"
proof -
  let ?b = "fst (batch_failed (batch_new 2))"
  have "lane_ok ?b" using batch_failed_ok batch_new_ok by blast
  moreover have "probe_debt ?b + unat (max_size ?b) \<le> 40"
    by (simp add: probe_debt_def batch_failed_def batch_new_def Let_def settle_batch_size_def)
  ultimately have "size_in_use ((batch_succeeded ^^ 40) ?b) = max_size ?b"
    using batch_successes_recover by blast
  then show ?thesis by (simp add: batch_failed_def batch_new_def Let_def)
qed

text \<open>item results are positional. The results read from the events of a batch are, in
  order, exactly its item events: completed items give success, failed items carry their own
  event, and no other event adds or removes a result.\<close>

theorem batch_item_results_positional:
  "length (batch_item_results names es) =
     length (filter (\<lambda>e. names e \<in> {(''Utility'', ''ItemCompleted''), (''Utility'', ''ItemFailed'')}) es) \<and>
   (\<forall>i < length (batch_item_results names es).
      let e = filter (\<lambda>e. names e \<in> {(''Utility'', ''ItemCompleted''), (''Utility'', ''ItemFailed'')}) es ! i
      in batch_item_results names es ! i =
           (if names e = (''Utility'', ''ItemCompleted'') then Inr () else Inl e))"
proof -
  let ?p = "\<lambda>e. names e \<in> {(''Utility'', ''ItemCompleted''), (''Utility'', ''ItemFailed'')}"
  have "batch_item_results names es =
      map (\<lambda>e. if names e = (''Utility'', ''ItemCompleted'') then Inr () else Inl e) (filter ?p es)"
    by (induction es) (auto simp: batch_item_results_def map_filter_simps)
  then show ?thesis by (simp add: Let_def)
qed

theorem batch_item_results_positional_witness:
  "batch_item_results (\<lambda>e. (''Utility'', e))
     [''BatchInterrupted'', ''ItemFailed'', ''ItemCompleted''] ! 1 = Inr ()"
proof -
  let ?r = "batch_item_results (\<lambda>e. (''Utility'', e))
     [''BatchInterrupted'', ''ItemFailed'', ''ItemCompleted'']"
  have "length ?r = 2" by (simp add: batch_item_results_def map_filter_simps)
  then show ?thesis
    using batch_item_results_positional [of "\<lambda>e. (''Utility'', e)"
        "[''BatchInterrupted'', ''ItemFailed'', ''ItemCompleted'']"] by (simp add: Let_def)
qed

end
