(* ===== verification/Messages.thy ===== *)
theory Messages
  imports Prelude
begin

text \<open>
  The messages a candidate signs, and their verification (\<open>signature.rs\<close>, \<open>dotns.rs\<close>).
  The sr25519 check and the SCALE codec are libraries, so they are parameters: \<open>vrfy\<close> is
  \<open>subxt_signer::sr25519::verify\<close> and a \<open>scale\<close> record holds the encoders of byte strings,
  optional byte strings and \<open>u64\<close>. What is used of the codec is that its encodings are
  self-delimiting (\<open>self_delimiting\<close>), as SCALE documents.
\<close>

section \<open>Account signatures\<close>

datatype account_signature_form = Plain | InContext account

definition POP_REGISTER_PREFIX :: bytes where
  "POP_REGISTER_PREFIX = as_bytes ''pop:people-lite:register using''"

text \<open>The value of the pallet's \<open>SigningContext\<close> constant, when its metadata has one.\<close>

definition form_from_constant :: "bytes option \<Rightarrow> account_signature_form" where
  "form_from_constant value =
     (case value of
        None \<Rightarrow> Plain
      | Some bs \<Rightarrow> (case try_array 32 bs of Some context \<Rightarrow> InContext context | None \<Rightarrow> Plain))"

definition account_signature_form :: "(string \<Rightarrow> string \<Rightarrow> bytes option) \<Rightarrow> string \<Rightarrow> account_signature_form" where
  "account_signature_form constants pallet = form_from_constant (constants pallet ''SigningContext'')"

definition verify_account_signature ::
  "(bytes \<Rightarrow> bytes \<Rightarrow> account \<Rightarrow> bool) \<Rightarrow> bytes \<Rightarrow> bytes \<Rightarrow> account \<Rightarrow> account_signature_form \<Rightarrow> bool" where
  "verify_account_signature vrfy signature message signer form =
     (case try_array 64 signature of
        None \<Rightarrow> False
      | Some sig \<Rightarrow>
          vrfy sig ((case form of Plain \<Rightarrow> [] | InContext context \<Rightarrow> context) @ message) signer)"

definition candidate_message :: "account \<Rightarrow> bytes \<Rightarrow> bytes" where
  "candidate_message candidate_pubkey ring_vrf_key =
     POP_REGISTER_PREFIX @ candidate_pubkey @ ring_vrf_key"

definition verify_candidate_signature ::
  "(bytes \<Rightarrow> bytes \<Rightarrow> account \<Rightarrow> bool) \<Rightarrow> account \<Rightarrow> bytes \<Rightarrow> bytes \<Rightarrow> account_signature_form \<Rightarrow> bool" where
  "verify_candidate_signature vrfy candidate_pubkey candidate_signature ring_vrf_key form =
     verify_account_signature vrfy candidate_signature
       (candidate_message candidate_pubkey ring_vrf_key) candidate_pubkey form"

section \<open>The dotNS reservation message\<close>

record scale =
  sc_bytes :: "bytes \<Rightarrow> bytes"
  sc_option :: "bytes option \<Rightarrow> bytes"
  sc_u64 :: "u64 \<Rightarrow> bytes"

definition RESERVE_MSG_PREFIX :: bytes where
  "RESERVE_MSG_PREFIX = as_bytes ''pop:dotns-gateway:reserve''"

definition lite_base :: "string \<Rightarrow> string" where
  "lite_base lite_label =
     (case split_once CHR ''.'' lite_label of Some (base, _) \<Rightarrow> base | None \<Rightarrow> lite_label)"

definition reservation_message ::
  "scale \<Rightarrow> account \<Rightarrow> account \<Rightarrow> bytes \<Rightarrow> bytes \<Rightarrow> bytes option \<Rightarrow> u64 \<Rightarrow> bytes" where
  "reservation_message sc candidate attester username_base chat_key reserved_base_label signed_at =
     sc_bytes sc RESERVE_MSG_PREFIX @ candidate @ attester @ sc_bytes sc username_base @
     sc_bytes sc chat_key @ sc_option sc reserved_base_label @ sc_u64 sc signed_at"

definition verify_reservation_signature ::
  "(bytes \<Rightarrow> bytes \<Rightarrow> account \<Rightarrow> bool) \<Rightarrow> scale \<Rightarrow> bytes \<Rightarrow> account \<Rightarrow> account \<Rightarrow> bytes \<Rightarrow> bytes \<Rightarrow>
   bytes option \<Rightarrow> u64 \<Rightarrow> account_signature_form \<Rightarrow> bool" where
  "verify_reservation_signature vrfy sc signature candidate attester username_base chat_key
     reserved_base_label signed_at form =
     verify_account_signature vrfy signature
       (reservation_message sc candidate attester username_base chat_key reserved_base_label signed_at)
       candidate form"

definition reservation_expired :: "int \<Rightarrow> u64 \<Rightarrow> int \<Rightarrow> bool" where
  "reservation_expired signed_at max_validity_secs now \<longleftrightarrow>
     now > sat_i64 (signed_at + int (unat max_validity_secs))"

section \<open>Lemmas\<close>

definition self_delimiting :: "('a \<Rightarrow> bytes) \<Rightarrow> bool" where
  "self_delimiting enc \<longleftrightarrow> (\<forall>a b x y. enc a @ x = enc b @ y \<longrightarrow> a = b \<and> x = y)"

definition scale_ok :: "scale \<Rightarrow> bool" where
  "scale_ok sc \<longleftrightarrow> self_delimiting (sc_bytes sc) \<and> self_delimiting (sc_option sc) \<and>
     self_delimiting (sc_u64 sc)"

lemma self_delimitingD: "self_delimiting enc \<Longrightarrow> enc a @ x = enc b @ y \<Longrightarrow> a = b \<and> x = y"
  by (auto simp: self_delimiting_def)

lemma verify_account_signature_cases:
  "verify_account_signature vrfy sig msg signer form \<longleftrightarrow>
     length sig = 64 \<and>
     vrfy sig ((case form of Plain \<Rightarrow> [] | InContext c \<Rightarrow> c) @ msg) signer"
  by (auto simp: verify_account_signature_def try_array_def)

lemma lite_base_append:
  "CHR ''.'' \<notin> set base \<Longrightarrow> lite_base (base @ CHR ''.'' # digits) = base"
  by (simp add: lite_base_def split_once_append)

lemma lite_base_length: "length (lite_base l) = length l \<longleftrightarrow> CHR ''.'' \<notin> set l"
proof (cases "split_once CHR ''.'' l")
  case None
  then show ?thesis using split_once_None [of "CHR ''.''" l] by (simp add: lite_base_def)
next
  case (Some p)
  then obtain a b where p: "p = (a, b)" "l = a @ CHR ''.'' # b"
    by (cases p) (auto dest: split_once_SomeD)
  then show ?thesis using Some by (simp add: lite_base_def)
qed

text \<open>
  A self-delimiting codec, for the witnesses: a length in unary, then the bytes.
\<close>

definition unary_bytes :: "bytes \<Rightarrow> bytes" where
  "unary_bytes bs = replicate (length bs) 1 @ 0 # bs"

definition unary_scale :: scale where
  "unary_scale = \<lparr>sc_bytes = unary_bytes,
     sc_option = (\<lambda>opt. case opt of None \<Rightarrow> [0] | Some bs \<Rightarrow> 1 # unary_bytes bs),
     sc_u64 = (\<lambda>n. replicate (unat n) 1 @ [0])\<rparr>"

lemma replicate_delimited:
  "replicate m (1::u8) @ 0 # x = replicate n 1 @ 0 # y \<Longrightarrow> m = n \<and> x = y"
proof (induction m arbitrary: n)
  case 0
  then show ?case by (cases n) auto
next
  case (Suc m)
  then show ?case by (cases n) auto
qed

lemma unary_bytes_delimiting: "self_delimiting unary_bytes"
  unfolding self_delimiting_def
proof (intro allI impI)
  fix a b x y
  assume "unary_bytes a @ x = unary_bytes b @ y"
  then have "length a = length b \<and> a @ x = b @ y"
    unfolding unary_bytes_def append_assoc append_Cons by (rule replicate_delimited)
  then show "a = b \<and> x = y" by auto
qed

lemma unary_option_delimiting: "self_delimiting (sc_option unary_scale)"
  unfolding self_delimiting_def
proof (intro allI impI)
  fix a b x y
  assume eq: "sc_option unary_scale a @ x = sc_option unary_scale b @ y"
  show "a = b \<and> x = y"
  proof (cases a; cases b)
    fix p q
    assume "a = Some p" "b = Some q"
    moreover from this have "unary_bytes p @ x = unary_bytes q @ y"
      using eq by (simp add: unary_scale_def)
    ultimately show ?thesis
      using self_delimitingD [OF unary_bytes_delimiting] by blast
  qed (use eq in \<open>simp_all add: unary_scale_def\<close>)
qed

lemma unary_u64_delimiting: "self_delimiting (sc_u64 unary_scale)"
  unfolding self_delimiting_def
proof (intro allI impI)
  fix a b x y
  assume "sc_u64 unary_scale a @ x = sc_u64 unary_scale b @ y"
  then have "replicate (unat a) (1::u8) @ 0 # x = replicate (unat b) 1 @ 0 # y"
    by (simp add: unary_scale_def)
  then have "unat a = unat b \<and> x = y" by (rule replicate_delimited)
  then show "a = b \<and> x = y" by (simp only: word_unat_eq_iff)
qed

lemma unary_scale_ok: "scale_ok unary_scale"
  unfolding scale_ok_def
  using unary_option_delimiting unary_u64_delimiting unary_bytes_delimiting
  by (simp add: unary_scale_def)

section \<open>Properties\<close>

text \<open>a candidate signature authorises one registration only. Two candidate messages of
  32-byte candidates are equal only if both the candidate and the ring key are, so a verified
  signature cannot be replayed for another account or another key.\<close>

theorem candidate_message_binds:
  assumes "length c = 32" "length c' = 32" "candidate_message c k = candidate_message c' k'"
  shows "c = c' \<and> k = k'"
  using assms by (simp add: candidate_message_def)

theorem candidate_message_binds_witness:
  "candidate_message (replicate 32 1) [7] = candidate_message (replicate 32 1) [7] \<and>
   candidate_message (replicate 32 1) [7] \<noteq> candidate_message (replicate 32 2) [7]"
  using candidate_message_binds [of "replicate 32 1" "replicate 32 2" "[7]" "[7]"]
  by (auto simp: replicate_eq_replicate)

text \<open>a reservation signature binds every field of the reservation. With a self-delimiting
  codec, equal reservation messages have the same candidate, attester, base name, chat key,
  reserved label and signing time, so none of them can be swapped under a valid signature.\<close>

theorem reservation_message_binds:
  assumes "scale_ok sc" "length c = 32" "length c' = 32" "length a = 32" "length a' = 32"
    "reservation_message sc c a b k l s = reservation_message sc c' a' b' k' l' s'"
  shows "c = c' \<and> a = a' \<and> b = b' \<and> k = k' \<and> l = l' \<and> s = s'"
proof -
  have sd: "self_delimiting (sc_bytes sc)" "self_delimiting (sc_option sc)"
    "self_delimiting (sc_u64 sc)" using assms(1) by (simp_all add: scale_ok_def)
  have "c = c' \<and> a = a' \<and>
      sc_bytes sc b @ sc_bytes sc k @ sc_option sc l @ sc_u64 sc s =
      sc_bytes sc b' @ sc_bytes sc k' @ sc_option sc l' @ sc_u64 sc s'"
    using assms(2-6) by (simp add: reservation_message_def)
  moreover from this have "b = b' \<and>
      sc_bytes sc k @ sc_option sc l @ sc_u64 sc s = sc_bytes sc k' @ sc_option sc l' @ sc_u64 sc s'"
    using self_delimitingD [OF sd(1)] by blast
  moreover from this have "k = k' \<and> sc_option sc l @ sc_u64 sc s = sc_option sc l' @ sc_u64 sc s'"
    using self_delimitingD [OF sd(1)] by blast
  moreover from this have "l = l' \<and> sc_u64 sc s @ [] = sc_u64 sc s' @ []"
    using self_delimitingD [OF sd(2)] unfolding append_Nil2 by blast
  ultimately show ?thesis
    using self_delimitingD [OF sd(3)] by blast
qed

theorem reservation_message_binds_witness:
  "scale_ok unary_scale \<and>
   reservation_message unary_scale (replicate 32 1) (replicate 32 2) [3] [4] None 5 \<noteq>
   reservation_message unary_scale (replicate 32 1) (replicate 32 2) [3] [4] (Some []) 5"
  using reservation_message_binds [OF unary_scale_ok, of "replicate 32 1" "replicate 32 1"
      "replicate 32 2" "replicate 32 2" "[3]" "[4]" None 5 "[3]" "[4]" "Some []" 5] unary_scale_ok
  by auto

end
