(* ===== verification/WriterCore.thy ===== *)
theory WriterCore
  imports Outbox Batch Messages
begin

text \<open>
  What both chain lanes of the writer share (\<open>chain/writer/\<close>): its errors, the outcomes a
  row can have, the transaction payloads, reading the events of a finalized extrinsic,
  waiting for finalization while renewing the lease, and the classification of a failed
  submission.

  The chain is a record of step-indexed oracles: what it answers to an ownership read, a
  nonce read, signing, submission and watching may be anything at every step.
\<close>

section \<open>Errors and outcomes\<close>

datatype op =
  Landing | Failing | Expiring | Retrying | Parking | Deferring | MarkSubmitting | Draining | Finalizing

fun op_str :: "op \<Rightarrow> string" where
  "op_str Landing = ''recording a row as landed''"
| "op_str Failing = ''failing a row''"
| "op_str Expiring = ''expiring a reservation''"
| "op_str Retrying = ''scheduling a retry''"
| "op_str Parking = ''parking a row''"
| "op_str Deferring = ''re-queueing a batch''"
| "op_str MarkSubmitting = ''marking rows submitting''"
| "op_str Draining = ''draining''"
| "op_str Finalizing = ''awaiting finalization''"

datatype writer_error = LeaseLost op | Db string | Chain string

fun writer_error_str :: "writer_error \<Rightarrow> string" where
  "writer_error_str (LeaseLost p) = ''lost the writer lease while '' @ op_str p"
| "writer_error_str (Db e) = e"
| "writer_error_str (Chain e) = e"

definition is_lease_lost :: "writer_error \<Rightarrow> bool" where
  "is_lease_lost e = (case e of LeaseLost _ \<Rightarrow> True | _ \<Rightarrow> False)"

datatype defer_cause = DeferBatch | DeferSigner | DeferStaleNonce | DeferNotYet

datatype outcome =
  Landed
| Observed
| Retry string
| Park string
| Defer instant string defer_cause
| Failed string
| Expired string

datatype gate =
  GateFailed string
| GateExpired string
| GateNotYet instant string

fun gate_outcome :: "gate \<Rightarrow> outcome" where
  "gate_outcome (GateFailed reason) = Failed reason"
| "gate_outcome (GateExpired reason) = Expired reason"
| "gate_outcome (GateNotYet until reason) = Defer until reason DeferNotYet"

section \<open>Classifying a failed submission\<close>

datatype submit_failure_action = Assign | ParkRow | RetryRow | DeferRow | Fail

definition ALREADY_REGISTERED :: string where
  "ALREADY_REGISTERED = ''PeopleLite::AlreadyRegistered''"

definition UNFUNDED_SIGNER :: string where
  "UNFUNDED_SIGNER = ''Inability to pay some fees''"

definition UNFUNDED_PARK_BACKOFF_SECS :: int where
  "UNFUNDED_PARK_BACKOFF_SECS = 300"

definition SIGNER_CONTENTION :: "string list" where
  "SIGNER_CONTENTION =
     [''Priority is too low'',
      ''priority of the transaction is too low'',
      ''too low priority'',
      ''Transaction Already Imported'',
      ''chainHead_follow emitted '' @ [CHR 0x27] @ ''stop'' @ [CHR 0x27] @
        '' event during transaction submission'',
      ''the connection was lost'']"

definition SIGNER_CONTENTION_BACKOFF_SECS :: int where
  "SIGNER_CONTENTION_BACKOFF_SECS = 30"

definition STALE_NONCE :: string where
  "STALE_NONCE = ''Transaction is outdated''"

definition STALE_NONCE_BACKOFF_SECS :: int where
  "STALE_NONCE_BACKOFF_SECS = 6"

definition FINALIZE_TIMEOUT :: string where
  "FINALIZE_TIMEOUT = ''finalization timed out''"

definition is_signer_contention :: "string \<Rightarrow> bool" where
  "is_signer_contention reason \<longleftrightarrow>
     contains_str reason FINALIZE_TIMEOUT \<or> contains_str reason STALE_NONCE \<or>
     list_ex (contains_str reason) SIGNER_CONTENTION"

definition DETERMINISTIC_REJECTIONS :: "string list" where
  "DETERMINISTIC_REJECTIONS =
     [''Resources::UsernameReservationTaken'', ''Resources::QueueFull'',
      ''Resources::AlreadyHasReservation'']"

definition is_deterministic_rejection :: "string \<Rightarrow> bool" where
  "is_deterministic_rejection reason = list_ex (contains_str reason) DETERMINISTIC_REJECTIONS"

definition terminal_reason :: "string \<Rightarrow> string" where
  "terminal_reason reason =
     (if is_deterministic_rejection reason
      then ''rejected deterministically, not retried: '' @ reason
      else ''max attempts reached: '' @ reason)"

definition classify_submit_failure ::
  "string \<Rightarrow> account option \<Rightarrow> account \<Rightarrow> int \<Rightarrow> int \<Rightarrow> submit_failure_action" where
  "classify_submit_failure reason observed_owner candidate completed_attempts max_attempts =
     (if observed_owner = Some candidate \<or> contains_str reason ALREADY_REGISTERED then Assign
      else if contains_str reason UNFUNDED_SIGNER then ParkRow
      else if is_signer_contention reason then DeferRow
      else if is_deterministic_rejection reason \<or> completed_attempts \<ge> max_attempts then Fail
      else RetryRow)"

definition signer_defer_cause :: "string \<Rightarrow> int \<times> defer_cause" where
  "signer_defer_cause reason =
     (if contains_str reason STALE_NONCE then (STALE_NONCE_BACKOFF_SECS, DeferStaleNonce)
      else (SIGNER_CONTENTION_BACKOFF_SECS, DeferSigner))"

definition signer_defer :: "instant \<Rightarrow> string \<Rightarrow> outcome" where
  "signer_defer now reason =
     (case signer_defer_cause reason of (backoff, cause) \<Rightarrow> Defer (now + secs backoff) reason cause)"

definition park_until :: "instant \<Rightarrow> instant" where
  "park_until now = now + secs UNFUNDED_PARK_BACKOFF_SECS"

definition row_backoff :: "int \<Rightarrow> int" where
  "row_backoff att = 2 ^ nat (max 0 (min 6 att))"

section \<open>Transaction payloads\<close>

datatype tx_value =
  VBytes bytes
| VVariant string "tx_value list"
| VComposite "tx_value list"
| VNamed "(string \<times> tx_value) list"
| VU128 nat

record payload =
  pallet :: string
  call :: string
  args :: "tx_value list"

definition dynamic_tx :: "string \<Rightarrow> string \<Rightarrow> tx_value list \<Rightarrow> payload" where
  "dynamic_tx p c vs = \<lparr>pallet = p, call = c, args = vs\<rparr>"

definition sr25519_signature :: "bytes \<Rightarrow> tx_value" where
  "sr25519_signature bs = VVariant ''Sr25519'' [VBytes bs]"

definition option_value :: "string option \<Rightarrow> tx_value" where
  "option_value opt =
     (case opt of Some name \<Rightarrow> VVariant ''Some'' [VBytes (as_bytes name)] | None \<Rightarrow> VVariant ''None'' [])"

definition attest_args :: "reservation \<Rightarrow> account \<Rightarrow> tx_value list" where
  "attest_args r candidate =
     [VBytes candidate,
      sr25519_signature (candidate_signature r),
      VBytes (ring_vrf_key r),
      VBytes (proof_of_ownership r),
      VVariant ''Some'' [VNamed
        [(''signature'', sr25519_signature (consumer_registration_signature r)),
         (''account'', VBytes candidate),
         (''identifier_key'', VBytes (identifier_key r)),
         (''username'', VBytes (as_bytes (full_username r))),
         (''reserved_username'', option_value (reserved_username r))]]]"

definition attest_call :: "reservation \<Rightarrow> account \<Rightarrow> tx_value" where
  "attest_call r candidate =
     VVariant ''PeopleLite'' [VVariant ''attest'' (attest_args r candidate)]"

definition reserve_name_args :: "reservation \<Rightarrow> account \<Rightarrow> tx_value list" where
  "reserve_name_args r candidate =
     [VBytes candidate,
      sr25519_signature (case dotns_signature r of Some s \<Rightarrow> s | None \<Rightarrow> []),
      VBytes (as_bytes (full_username r)),
      VBytes (identifier_key r),
      option_value (reserved_username r),
      VU128 (nat \<bar>case dotns_signed_at r of Some s \<Rightarrow> s | None \<Rightarrow> 0\<bar>)]"

definition reserve_name_call :: "reservation \<Rightarrow> account \<Rightarrow> tx_value" where
  "reserve_name_call r candidate =
     VVariant ''DotnsGateway'' [VVariant ''reserve_name'' (reserve_name_args r candidate)]"

definition force_batch_call :: "tx_value \<Rightarrow> tx_value" where
  "force_batch_call calls = VVariant ''Utility'' [VVariant ''force_batch'' [calls]]"

definition proxied :: "account \<Rightarrow> tx_value \<Rightarrow> payload" where
  "proxied real c =
     dynamic_tx ''Proxy'' ''proxy'' [VVariant ''Id'' [VBytes real], VVariant ''None'' [], c]"

definition build_registration_tx :: "reservation \<Rightarrow> account \<Rightarrow> account option \<Rightarrow> payload" where
  "build_registration_tx r candidate proxy_for =
     (case proxy_for of
        Some real \<Rightarrow> proxied real (attest_call r candidate)
      | None \<Rightarrow> dynamic_tx ''PeopleLite'' ''attest'' (attest_args r candidate))"

definition build_registration_batch_tx ::
  "(reservation \<times> account) list \<Rightarrow> account option \<Rightarrow> payload" where
  "build_registration_batch_tx rows proxy_for =
     (let calls = VComposite (map (\<lambda>(r, candidate). attest_call r candidate) rows)
      in case proxy_for of
           Some real \<Rightarrow> proxied real (force_batch_call calls)
         | None \<Rightarrow> dynamic_tx ''Utility'' ''force_batch'' [calls])"

definition build_reserve_name_tx :: "reservation \<Rightarrow> account \<Rightarrow> account option \<Rightarrow> payload" where
  "build_reserve_name_tx r candidate proxy_for =
     (case proxy_for of
        Some real \<Rightarrow> proxied real (reserve_name_call r candidate)
      | None \<Rightarrow> dynamic_tx ''DotnsGateway'' ''reserve_name'' (reserve_name_args r candidate))"

definition build_reserve_name_batch_tx ::
  "(reservation \<times> account) list \<Rightarrow> account option \<Rightarrow> payload" where
  "build_reserve_name_batch_tx rows proxy_for =
     (let calls = VComposite (map (\<lambda>(r, candidate). reserve_name_call r candidate) rows)
      in case proxy_for of
           Some real \<Rightarrow> proxied real (force_batch_call calls)
         | None \<Rightarrow> dynamic_tx ''Utility'' ''force_batch'' [calls])"

section \<open>Events of a finalized extrinsic\<close>

record chain_event =
  pallet_name :: string
  event_name :: string
  field_bytes :: bytes

text \<open>What the metadata makes of an encoded dispatch error (\<open>DispatchError::decode_from\<close>).\<close>

datatype decoded_error = ModuleError string | OtherError string | Undecodable string

fun describe :: "decoded_error \<Rightarrow> string" where
  "describe (ModuleError details) = details"
| "describe (OtherError debug) = debug"
| "describe (Undecodable e) = ''undecodable dispatch error: '' @ e"

definition check_dispatch_result :: "(bytes \<Rightarrow> decoded_error) \<Rightarrow> bytes \<Rightarrow> string + unit" where
  "check_dispatch_result decode bs =
     (case bs of
        b # error \<Rightarrow>
          if b = 0 then Inr ()
          else if b = 1 then Inl (''proxied call failed: '' @ describe (decode error))
          else Inl (''ProxyExecuted'' @ [CHR 0x27] @ ''s result is not a Result<(), DispatchError>'')
      | [] \<Rightarrow> Inl (''ProxyExecuted'' @ [CHR 0x27] @ ''s result is not a Result<(), DispatchError>''))"

fun check_proxied_call ::
  "(bytes \<Rightarrow> decoded_error) \<Rightarrow> (string + chain_event) list \<Rightarrow> string + unit" where
  "check_proxied_call decode [] = Inr ()"
| "check_proxied_call decode (item # items) =
     (case item of
        Inl e \<Rightarrow> Inl ''decoding events''
      | Inr event \<Rightarrow>
          if pallet_name event \<noteq> ''Proxy'' \<or> event_name event \<noteq> ''ProxyExecuted''
          then check_proxied_call decode items
          else (case check_dispatch_result decode (field_bytes event) of
                  Inl e \<Rightarrow> Inl e
                | Inr _ \<Rightarrow> check_proxied_call decode items))"

definition item_results ::
  "(bytes \<Rightarrow> decoded_error) \<Rightarrow> (string + chain_event) list \<Rightarrow> string + (string + unit) list" where
  "item_results decode items =
     (if list_ex isl items then Inl ''decoding batch events''
      else Inr (map (map_sum (\<lambda>event. describe (decode (field_bytes event))) (\<lambda>u. u))
        (batch_item_results (\<lambda>event. (pallet_name event, event_name event)) (map projr items))))"

section \<open>The chain and the pass context\<close>

datatype watch = Tick | Finalized "string + (string + chain_event) list"

record 'ctx chain =
  c_owners :: "nat \<Rightarrow> string list \<Rightarrow> string + (string \<Rightarrow> account option)"
  c_owner :: "nat \<Rightarrow> string \<Rightarrow> string + account option"
  c_nonce :: "nat \<Rightarrow> string + u64"
  c_sign :: "nat \<Rightarrow> payload \<Rightarrow> u64 \<Rightarrow> string + string"
  c_submit :: "nat \<Rightarrow> string \<Rightarrow> string + unit"
  c_watch :: "nat \<Rightarrow> watch list"
  c_decode :: "bytes \<Rightarrow> decoded_error"
  c_context :: "nat \<Rightarrow> string + 'ctx"
  c_dial :: "nat \<Rightarrow> string + (u64 \<times> u64)"

record cx =
  cx_guard :: guard
  proxy_for :: "account option"
  max_attempts :: int
  lease_ttl :: u64

definition heartbeat :: "tables env \<Rightarrow> cx \<Rightarrow> (tables world, writer_error, bool) prog" where
  "heartbeat E cx =
     map_err Db (sql E (renew (lease_name (cx_guard cx)) (g_holder_id (cx_guard cx))
       (epoch (cx_guard cx)) (lease_ttl cx)))"

definition hold :: "tables env \<Rightarrow> cx \<Rightarrow> (tables world, writer_error, unit) prog" where
  "hold E cx =
     bindE (heartbeat E cx) (\<lambda>ok. if ok then ret () else throw (LeaseLost Draining))"

text \<open>
  Waiting for finalization: the lease is renewed at every tick; a watch that ends
  without an answer is the finalization timeout.
\<close>

fun watch_loop ::
  "tables env \<Rightarrow> cx \<Rightarrow> watch list \<Rightarrow> (tables world, string, (string + chain_event) list) prog" where
  "watch_loop E cx [] = throw FINALIZE_TIMEOUT"
| "watch_loop E cx (Finalized (Inl e) # ws) = throw e"
| "watch_loop E cx (Finalized (Inr events) # ws) = ret events"
| "watch_loop E cx (Tick # ws) =
     bindE (map_err writer_error_str (heartbeat E cx)) (\<lambda>ok.
       if ok then watch_loop E cx ws else throw (writer_error_str (LeaseLost Finalizing)))"

definition finalize ::
  "tables env \<Rightarrow> 'ctx chain \<Rightarrow> cx \<Rightarrow> (tables world, string, (string + chain_event) list) prog" where
  "finalize E C cx = bindE (remote (\<lambda>n. Inr (c_watch C n))) (watch_loop E cx)"

text \<open>A guarded statement that reports a lost lease when it changed no row.\<close>

definition guarded :: "tables env \<Rightarrow> op \<Rightarrow> (tables, bool) stmt \<Rightarrow> (tables world, writer_error, unit) prog" where
  "guarded E p st =
     bindE (map_err Db (sql E st)) (\<lambda>ok. if ok then ret () else throw (LeaseLost p))"

end
