(* ===== verification/Lanes.thy ===== *)
theory Lanes
  imports WriterCore
begin

text \<open>
  The two lanes of the writer (\<open>writer/people.rs\<close>, \<open>writer/dotns.rs\<close>, \<open>writer/link.rs\<close>):
  their gates, submissions and the recording of a row's outcome, and the Asset Hub link
  that parks and redials. The \<open>Lane\<close> trait is a record of its methods; \<open>people_lane\<close> and
  \<open>dotns_lane\<close> are its two implementations. Addresses are parsed by \<open>ss58\<close>
  (\<open>AccountId32::from_str\<close>) and signatures checked by \<open>vrfy\<close>, both parameters.
\<close>

section \<open>The Lane trait\<close>

record ('ctx, 'l) lane =
  NAME :: string
  OWNED_ELSEWHERE :: string
  RECONCILED :: string
  NONCE_FETCH :: string
  l_attempt :: "reservation \<Rightarrow> int"
  l_claim :: "nat \<Rightarrow> (tables, reservation list) stmt"
  l_submitting :: "(tables, reservation list) stmt"
  l_gate :: "reservation \<Rightarrow> 'ctx \<Rightarrow> instant \<Rightarrow> gate + account"
  l_submit_one :: "tables env \<Rightarrow> 'ctx chain \<Rightarrow> cx \<Rightarrow> u64 \<Rightarrow> reservation \<Rightarrow> account \<Rightarrow>
    (tables world, string, unit) prog"
  l_submit_batch :: "tables env \<Rightarrow> 'ctx chain \<Rightarrow> cx \<Rightarrow> u64 \<Rightarrow> (reservation \<times> account) list \<Rightarrow>
    (tables world, string, (string + unit) list) prog"
  l_record :: "tables env \<Rightarrow> guard \<Rightarrow> reservation \<Rightarrow> outcome \<Rightarrow> (tables world, writer_error, unit) prog"
  l_up :: "tables env \<Rightarrow> 'ctx chain \<Rightarrow> 'l \<Rightarrow> (tables world, writer_error, bool \<times> 'l) prog"
  l_context :: "'ctx chain \<Rightarrow> 'l \<Rightarrow> (tables world, string, 'ctx) prog"

definition parse_candidate :: "(string \<Rightarrow> account option) \<Rightarrow> reservation \<Rightarrow> gate + account" where
  "parse_candidate ss58 r =
     (case ss58 (candidate_account_id r) of
        Some a \<Rightarrow> Inr a
      | None \<Rightarrow> Inl (GateFailed ''invalid candidate SS58''))"

section \<open>The People lane\<close>

definition people_gate ::
  "(string \<Rightarrow> account option) \<Rightarrow> (bytes \<Rightarrow> bytes \<Rightarrow> account \<Rightarrow> bool) \<Rightarrow> reservation \<Rightarrow>
   account_signature_form \<Rightarrow> instant \<Rightarrow> gate + account" where
  "people_gate ss58 vrfy r form now =
     (case parse_candidate ss58 r of
        Inl g \<Rightarrow> Inl g
      | Inr candidate \<Rightarrow>
          if \<not> verify_candidate_signature vrfy candidate (candidate_signature r) (ring_vrf_key r) form
          then Inl (GateFailed ''candidate signature does not verify'')
          else Inr candidate)"

definition people_tx :: "(reservation \<times> account) list \<Rightarrow> account option \<Rightarrow> payload" where
  "people_tx rows real =
     (case rows of
        [(r, candidate)] \<Rightarrow> build_registration_tx r candidate real
      | _ \<Rightarrow> build_registration_batch_tx rows real)"

definition people_mark ::
  "tables env \<Rightarrow> cx \<Rightarrow> reservation \<Rightarrow> string \<Rightarrow> u64 \<Rightarrow> (tables world, writer_error, unit) prog" where
  "people_mark E cx r tx_hash nonce =
     guarded E MarkSubmitting
       (mark_submitting (cx_guard cx) (res_id r) tx_hash (sint nonce) (attempt_no r + 1))"

definition people_submit_one ::
  "tables env \<Rightarrow> 'ctx chain \<Rightarrow> cx \<Rightarrow> u64 \<Rightarrow> reservation \<Rightarrow> account \<Rightarrow> (tables world, string, unit) prog" where
  "people_submit_one E C cx nonce r candidate =
     bindE (remote (\<lambda>n. c_sign C n (people_tx [(r, candidate)] (proxy_for cx)) nonce)) (\<lambda>tx_hash.
     bindE (map_err writer_error_str (people_mark E cx r tx_hash nonce)) (\<lambda>_.
     bindE (remote (\<lambda>n. c_submit C n tx_hash)) (\<lambda>_.
     bindE (finalize E C cx) (\<lambda>events.
       lift_result (check_proxied_call (c_decode C) events)))))"

definition people_submit_batch ::
  "tables env \<Rightarrow> 'ctx chain \<Rightarrow> cx \<Rightarrow> u64 \<Rightarrow> (reservation \<times> account) list \<Rightarrow>
   (tables world, string, (string + unit) list) prog" where
  "people_submit_batch E C cx nonce rows =
     bindE (remote (\<lambda>n. c_sign C n (people_tx rows (proxy_for cx)) nonce)) (\<lambda>tx_hash.
     bindE (forE (\<lambda>(r, _). map_err writer_error_str (people_mark E cx r tx_hash nonce)) rows) (\<lambda>_.
     bindE (remote (\<lambda>n. c_submit C n tx_hash)) (\<lambda>_.
     bindE (finalize E C cx) (\<lambda>events.
     bindE (lift_result (check_proxied_call (c_decode C) events)) (\<lambda>_.
       lift_result (item_results (c_decode C) events))))))"

text \<open>A terminal outcome of the People half, with the fate of its device record, in one
  transaction that holds the lease row.\<close>

definition fenced_tx ::
  "tables env \<Rightarrow> guard \<Rightarrow> op \<Rightarrow> (tables, bool) stmt \<Rightarrow> (tables, 'a) stmt \<Rightarrow>
   (tables world, writer_error, unit) prog" where
  "fenced_tx E g p mark_st device_st =
     transaction E Db (\<lambda>now.
       bindE (map_err Db (tx_sql E now (fence (lease_name g) (g_holder_id g) (epoch g)))) (\<lambda>ok.
       if \<not> ok then throw (LeaseLost p) else
       bindE (map_err Db (tx_sql E now mark_st)) (\<lambda>ok.
       if \<not> ok then throw (LeaseLost p) else
       bindE (map_err Db (tx_sql E now device_st)) (\<lambda>_. ret (Commit ())))))"

definition people_record ::
  "tables env \<Rightarrow> guard \<Rightarrow> reservation \<Rightarrow> outcome \<Rightarrow> (tables world, writer_error, unit) prog" where
  "people_record E g r outcome =
     (case outcome of
        Landed \<Rightarrow> fenced_tx E g Landing (mark_assigned g (res_id r)) (consume_for_reservation (res_id r))
      | Observed \<Rightarrow> fenced_tx E g Landing (mark_assigned g (res_id r)) (consume_for_reservation (res_id r))
      | Retry reason \<Rightarrow>
          let att = attempt_no r + 1
          in bindE (now_utc E) (\<lambda>now.
               guarded E Retrying (mark_retry g (res_id r) (now + secs (row_backoff att)) att reason))
      | Park reason \<Rightarrow>
          bindE (now_utc E) (\<lambda>now.
            guarded E Parking (mark_retry g (res_id r) (park_until now) (attempt_no r) reason))
      | Defer until reason cause \<Rightarrow>
          guarded E Deferring (mark_retry g (res_id r) until (attempt_no r) reason)
      | Failed reason \<Rightarrow>
          fenced_tx E g Failing (mark_failed g (res_id r) reason) (release_for_reservation (res_id r))
      | Expired reason \<Rightarrow>
          fenced_tx E g Failing (mark_failed g (res_id r) reason) (release_for_reservation (res_id r)))"

definition people_lane ::
  "(string \<Rightarrow> account option) \<Rightarrow> (bytes \<Rightarrow> bytes \<Rightarrow> account \<Rightarrow> bool) \<Rightarrow>
   (account_signature_form, unit) lane" where
  "people_lane ss58 vrfy =
     \<lparr>NAME = ''people'',
      OWNED_ELSEWHERE = ''username owned by another account'',
      RECONCILED = ''reconcile: not yet on-chain, re-queued'',
      NONCE_FETCH = ''nonce fetch'',
      l_attempt = attempt_no, l_claim = claim_due, l_submitting = submitting,
      l_gate = people_gate ss58 vrfy, l_submit_one = people_submit_one,
      l_submit_batch = people_submit_batch, l_record = people_record,
      l_up = (\<lambda>E C l. ret (True, l)),
      l_context = (\<lambda>C l. remote (c_context C))\<rparr>"

section \<open>The dotNS lane\<close>

record validity_window =
  max_validity_secs :: u64
  max_future_skew_secs :: u64

record window =
  window :: validity_window
  attester :: account
  signature_form :: account_signature_form

datatype dotns_reject =
  NotInLane
| UnbuildableLabel string
| UnbuildableReserved string
| BadSignature
| ExpiredReject int u64
| FutureDated int int

definition MAX_LABEL_BYTES :: nat where
  "MAX_LABEL_BYTES = 32"

definition as_i64_or_max :: "u64 \<Rightarrow> int" where
  "as_i64_or_max w = (if unat w < 2 ^ 63 then int (unat w) else 2 ^ 63 - 1)"

definition check_dotns_submittable ::
  "(bytes \<Rightarrow> bytes \<Rightarrow> account \<Rightarrow> bool) \<Rightarrow> scale \<Rightarrow> reservation \<Rightarrow> account \<Rightarrow> window \<Rightarrow> int \<Rightarrow>
   dotns_reject + unit" where
  "check_dotns_submittable vrfy sc r candidate ctx now =
     (case (dotns_signature r, dotns_signed_at r) of
        (Some signature, Some signed_at) \<Rightarrow>
          let label = full_username r;
              base = lite_base label;
              skew = as_i64_or_max (max_future_skew_secs (window.window ctx));
              validity = max_validity_secs (window.window ctx)
          in if length label > MAX_LABEL_BYTES
             then Inl (UnbuildableLabel (''lite label is '' @ nat_to_string (length label) @
               '' bytes, over BaseLabel'' @ [CHR 0x27] @ ''s 32''))
             else if length base = length label
             then Inl (UnbuildableLabel ''lite label has no digit suffix'')
             else if (case reserved_username r of
                 Some reserved \<Rightarrow> length reserved > MAX_LABEL_BYTES | None \<Rightarrow> False)
             then Inl (UnbuildableReserved (''reservedUsername is '' @
               nat_to_string (length (the (reserved_username r))) @
               '' bytes, over BaseLabel'' @ [CHR 0x27] @ ''s 32''))
             else if signed_at > sat_i64 (now + skew)
             then Inl (FutureDated signed_at (sat_i64 (signed_at - skew)))
             else if reservation_expired signed_at validity now
             then Inl (ExpiredReject signed_at validity)
             else if signed_at < 0 then Inl BadSignature
             else if \<not> verify_reservation_signature vrfy sc signature candidate (attester ctx)
               (as_bytes base) (identifier_key r) (map_option as_bytes (reserved_username r))
               (word_of_int signed_at) (signature_form ctx)
             then Inl BadSignature
             else Inr ()
      | _ \<Rightarrow> Inl NotInLane)"

text \<open>\<open>OffsetDateTime::from_unix_timestamp\<close> covers the years -9999 to 9999.\<close>

definition from_unix_timestamp :: "int \<Rightarrow> instant option" where
  "from_unix_timestamp s =
     (if - 377705116800 \<le> s \<and> s \<le> 253402300799 then Some (secs s) else None)"

definition reject_gate :: "dotns_reject \<Rightarrow> validity_window \<Rightarrow> instant \<Rightarrow> gate" where
  "reject_gate reject win nowt =
     (let now = unix_timestamp nowt
      in case reject of
        ExpiredReject signed_at deadline \<Rightarrow>
          GateExpired (''reservation signature expired: signed_at='' @ int_to_string signed_at @
            '', window '' @ nat_to_string (unat deadline) @ ''s, now='' @ int_to_string now @
            ''. Only the client can re-sign.'')
      | NotInLane \<Rightarrow> GateFailed ''row has no complete dotns block''
      | BadSignature \<Rightarrow> GateFailed ''dotns signature does not verify''
      | UnbuildableLabel why \<Rightarrow> GateFailed why
      | UnbuildableReserved why \<Rightarrow> GateFailed why
      | FutureDated signed_at submittable_at \<Rightarrow>
          GateNotYet (case from_unix_timestamp submittable_at of Some t \<Rightarrow> t | None \<Rightarrow> nowt)
            (''reservation signature is future-dated: signed_at='' @ int_to_string signed_at @
             '', now='' @ int_to_string now @ '', gateway tolerates '' @
             nat_to_string (unat (max_future_skew_secs win)) @ ''s of skew. Re-queued until '' @
             int_to_string submittable_at @ ''.''))"

definition dotns_gate ::
  "(string \<Rightarrow> account option) \<Rightarrow> (bytes \<Rightarrow> bytes \<Rightarrow> account \<Rightarrow> bool) \<Rightarrow> scale \<Rightarrow> reservation \<Rightarrow>
   window \<Rightarrow> instant \<Rightarrow> gate + account" where
  "dotns_gate ss58 vrfy sc r ctx now =
     (case parse_candidate ss58 r of
        Inl g \<Rightarrow> Inl g
      | Inr candidate \<Rightarrow>
          (case check_dotns_submittable vrfy sc r candidate ctx (unix_timestamp now) of
             Inr _ \<Rightarrow> Inr candidate
           | Inl reject \<Rightarrow> Inl (reject_gate reject (window.window ctx) now)))"

definition dotns_tx :: "(reservation \<times> account) list \<Rightarrow> account option \<Rightarrow> payload" where
  "dotns_tx rows real =
     (case rows of
        [(r, candidate)] \<Rightarrow> build_reserve_name_tx r candidate real
      | _ \<Rightarrow> build_reserve_name_batch_tx rows real)"

definition dotns_mark ::
  "tables env \<Rightarrow> cx \<Rightarrow> reservation \<Rightarrow> string \<Rightarrow> (tables world, writer_error, unit) prog" where
  "dotns_mark E cx r tx_hash =
     guarded E MarkSubmitting
       (mark_dotns_submitting (cx_guard cx) (res_id r) tx_hash (dotns_attempt r + 1))"

definition dotns_submit_one ::
  "tables env \<Rightarrow> 'ctx chain \<Rightarrow> cx \<Rightarrow> u64 \<Rightarrow> reservation \<Rightarrow> account \<Rightarrow> (tables world, string, unit) prog" where
  "dotns_submit_one E C cx nonce r candidate =
     bindE (remote (\<lambda>n. c_sign C n (dotns_tx [(r, candidate)] (proxy_for cx)) nonce)) (\<lambda>tx_hash.
     bindE (map_err writer_error_str (dotns_mark E cx r tx_hash)) (\<lambda>_.
     bindE (remote (\<lambda>n. c_submit C n tx_hash)) (\<lambda>_.
     bindE (finalize E C cx) (\<lambda>events.
       lift_result (check_proxied_call (c_decode C) events)))))"

definition dotns_submit_batch ::
  "tables env \<Rightarrow> 'ctx chain \<Rightarrow> cx \<Rightarrow> u64 \<Rightarrow> (reservation \<times> account) list \<Rightarrow>
   (tables world, string, (string + unit) list) prog" where
  "dotns_submit_batch E C cx nonce rows =
     bindE (remote (\<lambda>n. c_sign C n (dotns_tx rows (proxy_for cx)) nonce)) (\<lambda>tx_hash.
     bindE (forE (\<lambda>(r, _). map_err writer_error_str (dotns_mark E cx r tx_hash)) rows) (\<lambda>_.
     bindE (remote (\<lambda>n. c_submit C n tx_hash)) (\<lambda>_.
     bindE (finalize E C cx) (\<lambda>events.
     bindE (lift_result (check_proxied_call (c_decode C) events)) (\<lambda>_.
       lift_result (item_results (c_decode C) events))))))"

definition dotns_record ::
  "tables env \<Rightarrow> guard \<Rightarrow> reservation \<Rightarrow> outcome \<Rightarrow> (tables world, writer_error, unit) prog" where
  "dotns_record E g r outcome =
     (case outcome of
        Landed \<Rightarrow> guarded E Landing (mark_dotns_reserved g (res_id r))
      | Observed \<Rightarrow> guarded E Landing (mark_dotns_reserved g (res_id r))
      | Retry reason \<Rightarrow>
          let att = dotns_attempt r + 1
          in bindE (now_utc E) (\<lambda>now.
               guarded E Retrying
                 (mark_dotns_retry g (res_id r) (now + secs (row_backoff att)) att reason))
      | Park reason \<Rightarrow>
          bindE (now_utc E) (\<lambda>now.
            guarded E Parking (mark_dotns_retry g (res_id r) (park_until now) (dotns_attempt r) reason))
      | Defer until reason cause \<Rightarrow>
          guarded E Deferring (mark_dotns_retry g (res_id r) until (dotns_attempt r) reason)
      | Failed reason \<Rightarrow> guarded E Failing (mark_dotns_failed g (res_id r) reason)
      | Expired reason \<Rightarrow> guarded E Expiring (mark_dotns_expired g (res_id r) reason))"

section \<open>The Asset Hub link\<close>

record dotns_link =
  connected :: "validity_window option"
  last_error :: "string option"
  retry_at :: "instant option"

datatype dotns_dial = DialReady | DialNow | DialSkip

definition DOTNS_RECONNECT_INTERVAL :: int where
  "DOTNS_RECONNECT_INTERVAL = 30"

definition dial_state :: "dotns_link \<Rightarrow> instant \<Rightarrow> dotns_dial" where
  "dial_state l now =
     (if connected l \<noteq> None then DialReady
      else case retry_at l of Some at \<Rightarrow> if now < at then DialSkip else DialNow | None \<Rightarrow> DialNow)"

definition record_dial_failure :: "string \<Rightarrow> instant \<Rightarrow> dotns_link \<Rightarrow> bool \<times> dotns_link" where
  "record_dial_failure reason now l =
     (let is_new = (last_error l \<noteq> Some reason);
          l' = l\<lparr>retry_at := Some (now + secs DOTNS_RECONNECT_INTERVAL)\<rparr>
      in (is_new, if is_new then l'\<lparr>last_error := Some reason\<rparr> else l'))"

definition record_dial_success :: "validity_window \<Rightarrow> dotns_link \<Rightarrow> dotns_link" where
  "record_dial_success w l = l\<lparr>connected := Some w, last_error := None, retry_at := None\<rparr>"

definition dotns_link_new :: dotns_link where
  "dotns_link_new = \<lparr>connected = None, last_error = None, retry_at = None\<rparr>"

definition dotns_up ::
  "tables env \<Rightarrow> 'ctx chain \<Rightarrow> dotns_link \<Rightarrow> (tables world, writer_error, bool \<times> dotns_link) prog" where
  "dotns_up E C l =
     bindE (now_utc E) (\<lambda>now.
       case dial_state l now of
         DialSkip \<Rightarrow> ret (False, l)
       | DialReady \<Rightarrow> ret (True, l)
       | DialNow \<Rightarrow>
           bindE (attempt (remote (c_dial C))) (\<lambda>res.
             case res of
               Inr (validity, skew) \<Rightarrow>
                 ret (True, record_dial_success
                   \<lparr>max_validity_secs = validity, max_future_skew_secs = skew\<rparr> l)
             | Inl reason \<Rightarrow> ret (False, snd (record_dial_failure reason now l))))"

definition dotns_context ::
  "account \<Rightarrow> window chain \<Rightarrow> dotns_link \<Rightarrow> (tables world, string, window) prog" where
  "dotns_context att C l =
     (case connected l of
        None \<Rightarrow> throw ''dotns lane is not connected''
      | Some w \<Rightarrow>
          bindE (remote (c_context C)) (\<lambda>c.
            ret \<lparr>window = w, attester = att, signature_form = signature_form c\<rparr>))"

definition dotns_lane ::
  "(string \<Rightarrow> account option) \<Rightarrow> (bytes \<Rightarrow> bytes \<Rightarrow> account \<Rightarrow> bool) \<Rightarrow> scale \<Rightarrow> account \<Rightarrow>
   (window, dotns_link) lane" where
  "dotns_lane ss58 vrfy sc att =
     \<lparr>NAME = ''dotns'',
      OWNED_ELSEWHERE = ''lite label reserved by another account'',
      RECONCILED = ''reconcile: not yet on Asset Hub, re-queued'',
      NONCE_FETCH = ''asset hub nonce fetch'',
      l_attempt = dotns_attempt, l_claim = claim_dotns_due, l_submitting = dotns_submitting,
      l_gate = dotns_gate ss58 vrfy sc, l_submit_one = dotns_submit_one,
      l_submit_batch = dotns_submit_batch, l_record = dotns_record,
      l_up = dotns_up, l_context = dotns_context att\<rparr>"

end
