(* ===== verification/Engine.thy ===== *)
theory Engine
  imports Lanes
begin

text \<open>
  One lane's drain (\<open>writer/engine.rs\<close>): a pass claims a set of due rows, triages them
  against the offline gate and one ownership read, submits what is left as one extrinsic
  and records every row's outcome; \<open>reconcile_submitting\<close> resolves the rows an earlier
  writer left behind. The functions are written once over the \<open>lane\<close> record, as the code
  is written once over the \<open>Lane\<close> trait. The state of a pass is the database world
  together with the lane's batch size, cached nonce and link.
\<close>

section \<open>State\<close>

record 'l drain =
  d_batch :: batch_lane
  d_nonce :: "u64 option"
  d_link :: 'l

type_synonym ('l, 'e, 'a) dprog = "(tables world \<times> 'l drain, 'e, 'a) prog"

definition on_world :: "(tables world, 'e, 'a) prog \<Rightarrow> ('l, 'e, 'a) dprog" where
  "on_world m = (\<lambda>(w, d). case m w of (r, w') \<Rightarrow> (r, (w', d)))"

definition get_drain :: "('l, 'e, 'l drain) dprog" where
  "get_drain = gets snd"

definition modify_drain :: "('l drain \<Rightarrow> 'l drain) \<Rightarrow> ('l, 'e, unit) dprog" where
  "modify_drain f = modify (\<lambda>(w, d). (w, f d))"

definition drain_new :: "u16 \<Rightarrow> 'l \<Rightarrow> 'l drain" where
  "drain_new batch_max link = \<lparr>d_batch = batch_new batch_max, d_nonce = None, d_link = link\<rparr>"

definition reset_nonce :: "'l drain \<Rightarrow> 'l drain" where
  "reset_nonce d = d\<lparr>d_nonce := None\<rparr>"

section \<open>Re-queueing\<close>

definition BATCH_RECONCILE_BACKOFF :: int where
  "BATCH_RECONCILE_BACKOFF = 10"

definition RECONCILE_READ_CHUNK :: nat where
  "RECONCILE_READ_CHUNK = 50"

definition defer_rows ::
  "('ctx, 'l) lane \<Rightarrow> tables env \<Rightarrow> cx \<Rightarrow> reservation list \<Rightarrow> int \<Rightarrow> string \<Rightarrow>
   (tables world, writer_error, unit) prog" where
  "defer_rows L E cx rows backoff reason =
     bindE (now_utc E) (\<lambda>now.
       forE (\<lambda>r. l_record L E (cx_guard cx) r (Defer (now + secs backoff) reason DeferBatch)) rows)"

definition retry_batch ::
  "('ctx, 'l) lane \<Rightarrow> tables env \<Rightarrow> cx \<Rightarrow> reservation list \<Rightarrow> string \<Rightarrow>
   ('l, writer_error, unit) dprog" where
  "retry_batch L E cx rows reason =
     bindE get_drain (\<lambda>d.
     case batch_failed (d_batch d) of
       (b, backoff) \<Rightarrow>
         bindE (modify_drain (\<lambda>d. d\<lparr>d_batch := b\<rparr>)) (\<lambda>_.
           on_world (defer_rows L E cx rows backoff reason)))"

definition defer_reconciled ::
  "('ctx, 'l) lane \<Rightarrow> tables env \<Rightarrow> cx \<Rightarrow> (reservation \<times> account) list \<Rightarrow> string \<Rightarrow>
   (tables world, writer_error, unit) prog" where
  "defer_reconciled L E cx rows reason =
     defer_rows L E cx (map fst rows) BATCH_RECONCILE_BACKOFF reason"

section \<open>Settling\<close>

definition settle ::
  "('ctx, 'l) lane \<Rightarrow> tables env \<Rightarrow> cx \<Rightarrow> reservation \<Rightarrow> account \<Rightarrow> account option \<Rightarrow> string \<Rightarrow>
   (tables world, writer_error, unit) prog" where
  "settle L E cx r candidate observed reason =
     (case classify_submit_failure reason observed candidate (l_attempt L r + 1) (max_attempts cx) of
        Assign \<Rightarrow> l_record L E (cx_guard cx) r Landed
      | ParkRow \<Rightarrow> l_record L E (cx_guard cx) r (Park reason)
      | RetryRow \<Rightarrow> l_record L E (cx_guard cx) r (Retry reason)
      | DeferRow \<Rightarrow>
          bindE (now_utc E) (\<lambda>now. l_record L E (cx_guard cx) r (signer_defer now reason))
      | Fail \<Rightarrow> l_record L E (cx_guard cx) r (Failed (terminal_reason reason)))"

text \<open>The rows a batch shows as landed are recorded; the rest is returned.\<close>

fun record_landed ::
  "('ctx, 'l) lane \<Rightarrow> tables env \<Rightarrow> cx \<Rightarrow> (string \<Rightarrow> account option) \<Rightarrow> (reservation \<times> account) list \<Rightarrow>
   (tables world, writer_error, (reservation \<times> account) list) prog" where
  "record_landed L E cx owners [] = ret []"
| "record_landed L E cx owners ((r, candidate) # rows) =
     (if owners (full_username r) = Some candidate
      then bindE (l_record L E (cx_guard cx) r Landed) (\<lambda>_. record_landed L E cx owners rows)
      else bindE (record_landed L E cx owners rows) (\<lambda>unlanded. ret ((r, candidate) # unlanded)))"

definition reconcile_batch ::
  "('ctx, 'l) lane \<Rightarrow> tables env \<Rightarrow> 'ctx chain \<Rightarrow> cx \<Rightarrow> (reservation \<times> account) list \<Rightarrow> string \<Rightarrow>
   (tables world, writer_error, unit) prog" where
  "reconcile_batch L E C cx rows reason =
     bindE (attempt (remote (\<lambda>n. c_owners C n (map (\<lambda>(r, _). full_username r) rows)))) (\<lambda>res.
       case res of
         Inl e \<Rightarrow> defer_reconciled L E cx rows (reason @ ''; owner read failed: '' @ e)
       | Inr owners \<Rightarrow>
           bindE (record_landed L E cx owners rows) (\<lambda>unlanded.
             if unlanded = [] then ret () else defer_reconciled L E cx unlanded reason))"

fun apply_items ::
  "('ctx, 'l) lane \<Rightarrow> tables env \<Rightarrow> cx \<Rightarrow> (string \<Rightarrow> account option) \<Rightarrow>
   ((reservation \<times> account) \<times> (string + unit)) list \<Rightarrow> (tables world, writer_error, unit) prog" where
  "apply_items L E cx owners [] = ret ()"
| "apply_items L E cx owners (((r, candidate), item) # rest) =
     bindE (case item of
              Inr _ \<Rightarrow> l_record L E (cx_guard cx) r Landed
            | Inl reason \<Rightarrow> settle L E cx r candidate (owners (full_username r)) reason)
       (\<lambda>_. apply_items L E cx owners rest)"

definition apply_batch ::
  "('ctx, 'l) lane \<Rightarrow> tables env \<Rightarrow> 'ctx chain \<Rightarrow> cx \<Rightarrow> (reservation \<times> account) list \<Rightarrow>
   (string + unit) list \<Rightarrow> (tables world, writer_error, unit) prog" where
  "apply_batch L E C cx rows items =
     (if length items \<noteq> length rows
      then reconcile_batch L E C cx rows ''batch item events did not match the calls submitted''
      else
        let failed = map (\<lambda>((r, _), _). full_username r) (filter (\<lambda>(_, item). isl item) (zip rows items))
        in bindE (attempt (remote (\<lambda>n. c_owners C n failed))) (\<lambda>res.
             apply_items L E cx (case res of Inr owners \<Rightarrow> owners | Inl _ \<Rightarrow> \<lambda>_. None) (zip rows items)))"

section \<open>Submitting\<close>

definition next_nonce :: "'ctx chain \<Rightarrow> ('l, writer_error, u64) dprog" where
  "next_nonce C =
     bindE get_drain (\<lambda>d.
       case d_nonce d of
         Some n \<Rightarrow> ret n
       | None \<Rightarrow>
           bindE (on_world (map_err Chain (remote (c_nonce C)))) (\<lambda>n.
           bindE (modify_drain (\<lambda>d. d\<lparr>d_nonce := Some n\<rparr>)) (\<lambda>_. ret n)))"

definition submitted :: "u64 \<Rightarrow> ('l, 'e, unit) dprog" where
  "submitted nonce =
     modify_drain (\<lambda>d. d\<lparr>d_nonce := Some (nonce + 1), d_batch := batch_succeeded (d_batch d)\<rparr>)"

definition one ::
  "('ctx, 'l) lane \<Rightarrow> tables env \<Rightarrow> 'ctx chain \<Rightarrow> cx \<Rightarrow> reservation \<Rightarrow> account \<Rightarrow>
   ('l, writer_error, unit) dprog" where
  "one L E C cx r candidate =
     bindE (attempt (next_nonce C)) (\<lambda>res.
       case res of
         Inl e \<Rightarrow> on_world (l_record L E (cx_guard cx) r
                    (Retry (NONCE_FETCH L @ '': '' @ writer_error_str e)))
       | Inr nonce \<Rightarrow>
           bindE (attempt (on_world (l_submit_one L E C cx nonce r candidate))) (\<lambda>res.
             case res of
               Inr _ \<Rightarrow> bindE (submitted nonce) (\<lambda>_. on_world (l_record L E (cx_guard cx) r Landed))
             | Inl reason \<Rightarrow>
                 bindE (modify_drain reset_nonce) (\<lambda>_.
                 bindE (on_world (attempt (remote (\<lambda>n. c_owner C n (full_username r))))) (\<lambda>observed.
                   on_world (settle L E cx r candidate
                     (case observed of Inr own \<Rightarrow> own | Inl _ \<Rightarrow> None) reason)))))"

definition batch ::
  "('ctx, 'l) lane \<Rightarrow> tables env \<Rightarrow> 'ctx chain \<Rightarrow> cx \<Rightarrow> (reservation \<times> account) list \<Rightarrow>
   ('l, writer_error, unit) dprog" where
  "batch L E C cx rows =
     bindE (attempt (next_nonce C)) (\<lambda>res.
       case res of
         Inl e \<Rightarrow> retry_batch L E cx (map fst rows) (NONCE_FETCH L @ '': '' @ writer_error_str e)
       | Inr nonce \<Rightarrow>
           bindE (attempt (on_world (l_submit_batch L E C cx nonce rows))) (\<lambda>res.
             case res of
               Inr items \<Rightarrow> bindE (submitted nonce) (\<lambda>_. on_world (apply_batch L E C cx rows items))
             | Inl reason \<Rightarrow>
                 bindE (modify_drain reset_nonce) (\<lambda>_. retry_batch L E cx (map fst rows) reason)))"

section \<open>Triage and the pass\<close>

fun gate_rows ::
  "('ctx, 'l) lane \<Rightarrow> tables env \<Rightarrow> cx \<Rightarrow> 'ctx \<Rightarrow> instant \<Rightarrow> reservation list \<Rightarrow>
   (tables world, writer_error, (reservation \<times> account) list) prog" where
  "gate_rows L E cx ctx now [] = ret []"
| "gate_rows L E cx ctx now (r # rs) =
     (case l_gate L r ctx now of
        Inr candidate \<Rightarrow>
          bindE (gate_rows L E cx ctx now rs) (\<lambda>gated. ret ((r, candidate) # gated))
      | Inl g \<Rightarrow>
          bindE (l_record L E (cx_guard cx) r (gate_outcome g)) (\<lambda>_. gate_rows L E cx ctx now rs))"

fun split_owned ::
  "('ctx, 'l) lane \<Rightarrow> tables env \<Rightarrow> cx \<Rightarrow> (string \<Rightarrow> account option) \<Rightarrow> (reservation \<times> account) list \<Rightarrow>
   (tables world, writer_error, (reservation \<times> account) list) prog" where
  "split_owned L E cx owners [] = ret []"
| "split_owned L E cx owners ((r, candidate) # rows) =
     (case owners (full_username r) of
        Some owner \<Rightarrow>
          bindE (l_record L E (cx_guard cx) r
                   (if owner = candidate then Observed else Failed (OWNED_ELSEWHERE L)))
            (\<lambda>_. split_owned L E cx owners rows)
      | None \<Rightarrow>
          bindE (split_owned L E cx owners rows) (\<lambda>submittable. ret ((r, candidate) # submittable)))"

text \<open>
  \<open>triage\<close> returns an \<open>anyhow\<close> error: a lost lease inside it reaches the caller as a
  \<open>Chain\<close> error.
\<close>

definition anyhow :: "writer_error \<Rightarrow> writer_error" where
  "anyhow e = Chain (writer_error_str e)"

definition triage ::
  "('ctx, 'l) lane \<Rightarrow> tables env \<Rightarrow> 'ctx chain \<Rightarrow> cx \<Rightarrow> 'ctx \<Rightarrow> reservation list \<Rightarrow>
   ('l, writer_error, (reservation \<times> account) list) dprog" where
  "triage L E C cx ctx due_rows =
     map_err anyhow (
       bindE (on_world (now_utc E)) (\<lambda>now.
       bindE (on_world (gate_rows L E cx ctx now due_rows)) (\<lambda>gated.
       if gated = [] then ret [] else
       bindE (on_world (attempt (remote (\<lambda>n. c_owners C n (map (\<lambda>(r, _). full_username r) gated))))) (\<lambda>res.
         case res of
           Inl e \<Rightarrow>
             bindE (retry_batch L E cx (map fst gated) (''owner read failed: '' @ e)) (\<lambda>_. ret [])
         | Inr owners \<Rightarrow> on_world (split_owned L E cx owners gated)))))"

definition bring_up :: "('ctx, 'l) lane \<Rightarrow> tables env \<Rightarrow> 'ctx chain \<Rightarrow> ('l, writer_error, bool) dprog" where
  "bring_up L E C =
     bindE get_drain (\<lambda>d.
     bindE (on_world (l_up L E C (d_link d))) (\<lambda>(up, l).
     bindE (modify_drain (\<lambda>d. d\<lparr>d_link := l\<rparr>)) (\<lambda>_. ret up)))"

definition pass ::
  "('ctx, 'l) lane \<Rightarrow> tables env \<Rightarrow> 'ctx chain \<Rightarrow> cx \<Rightarrow> ('l, writer_error, bool) dprog" where
  "pass L E C cx =
     bindE (bring_up L E C) (\<lambda>up.
     if \<not> up then ret True else
     bindE get_drain (\<lambda>d.
     bindE (on_world (map_err Db (sql E (l_claim L (unat (size_in_use (d_batch d))))))) (\<lambda>due_rows.
     if due_rows = [] then ret True else
     bindE (on_world (hold E cx)) (\<lambda>_.
     bindE (on_world (attempt (l_context L C (d_link d)))) (\<lambda>res.
       case res of
         Inl e \<Rightarrow>
           bindE (retry_batch L E cx due_rows (''lane context read failed: '' @ e)) (\<lambda>_. ret False)
       | Inr ctx \<Rightarrow>
           bindE (triage L E C cx ctx due_rows) (\<lambda>submittable.
           bindE (case submittable of
                    [] \<Rightarrow> ret ()
                  | [(r, candidate)] \<Rightarrow> one L E C cx r candidate
                  | _ \<Rightarrow> batch L E C cx submittable) (\<lambda>_. ret False)))))))"

section \<open>Reconciling what an earlier writer left\<close>

fun parse_stuck ::
  "('ctx, 'l) lane \<Rightarrow> (string \<Rightarrow> account option) \<Rightarrow> tables env \<Rightarrow> cx \<Rightarrow> reservation list \<Rightarrow>
   (tables world, writer_error, (reservation \<times> account) list) prog" where
  "parse_stuck L ss58 E cx [] = ret []"
| "parse_stuck L ss58 E cx (r # rs) =
     (case parse_candidate ss58 r of
        Inr candidate \<Rightarrow> bindE (parse_stuck L ss58 E cx rs) (\<lambda>parsed. ret ((r, candidate) # parsed))
      | Inl g \<Rightarrow>
          bindE (l_record L E (cx_guard cx) r (gate_outcome g)) (\<lambda>_. parse_stuck L ss58 E cx rs))"

fun chunks :: "nat \<Rightarrow> 'a list \<Rightarrow> 'a list list" where
  "chunks n xs = (if n = 0 \<or> xs = [] then [] else take n xs # chunks n (drop n xs))"

declare chunks.simps [simp del]

text \<open>One chunk: the number of its rows that could not be read.\<close>

definition reconcile_chunk ::
  "('ctx, 'l) lane \<Rightarrow> tables env \<Rightarrow> 'ctx chain \<Rightarrow> cx \<Rightarrow> (reservation \<times> account) list \<Rightarrow>
   (tables world, writer_error, nat) prog" where
  "reconcile_chunk L E C cx chunk =
     bindE (attempt (remote (\<lambda>n. c_owners C n (map (\<lambda>(r, _). full_username r) chunk)))) (\<lambda>res.
       case res of
         Inl e \<Rightarrow> ret (length chunk)
       | Inr owners \<Rightarrow>
           bindE (forE (\<lambda>(r, candidate).
                    l_record L E (cx_guard cx) r
                      (if owners (full_username r) = Some candidate then Observed
                       else Retry (RECONCILED L))) chunk) (\<lambda>_. ret 0))"

definition reconcile_submitting ::
  "('ctx, 'l) lane \<Rightarrow> (string \<Rightarrow> account option) \<Rightarrow> tables env \<Rightarrow> 'ctx chain \<Rightarrow> cx \<Rightarrow>
   ('l, writer_error, unit) dprog" where
  "reconcile_submitting L ss58 E C cx =
     bindE (bring_up L E C) (\<lambda>up.
     if \<not> up then ret () else
     on_world (
       bindE (map_err Db (sql E (l_submitting L))) (\<lambda>stuck.
       bindE (parse_stuck L ss58 E cx stuck) (\<lambda>parsed.
       bindE (mapE (reconcile_chunk L E C cx) (chunks RECONCILE_READ_CHUNK parsed)) (\<lambda>unread.
         if sum_list unread > 0
         then throw (Chain (''reconcile could not read '' @ nat_to_string (sum_list unread) @ '' of '' @
                nat_to_string (length parsed) @ '' SUBMITTING rows''))
         else ret ())))))"

end
