(* ===== verification/EngineInvariant.thy ===== *)
theory EngineInvariant
  imports Engine
begin

text \<open>
  Invariants of a lane's pass. The locale \<open>lane_invariant\<close> is the contract between the
  engine and a lane: which of the lane's operations keep a database invariant, and that
  recording a row as landed needs evidence from the chain. The engine's functions are
  followed once, in the locale; both lanes are interpretations of it, for two invariants:
  rows are landed only on evidence, and a superseded writer writes nothing.
\<close>

section \<open>Evidence that a row landed\<close>

definition shows_landed :: "string + unit \<Rightarrow> bool" where
  "shows_landed item =
     (case item of Inr _ \<Rightarrow> True | Inl reason \<Rightarrow> contains_str reason ALREADY_REGISTERED)"

text \<open>
  What counts as evidence: an ownership read that names the candidate, a submission of
  this very row that succeeded or failed as already registered, or a batch whose item
  results line up with its calls and whose item for this row says so.
\<close>

definition landing_evidence ::
  "('ctx, 'l) lane \<Rightarrow> tables env \<Rightarrow> 'ctx chain \<Rightarrow> cx \<Rightarrow> reservation \<Rightarrow> account \<Rightarrow> bool" where
  "landing_evidence L E C cx r candidate \<longleftrightarrow>
     (\<exists>n names owners. c_owners C n names = Inr owners \<and> owners (full_username r) = Some candidate) \<or>
     (\<exists>n. c_owner C n (full_username r) = Inr (Some candidate)) \<or>
     (\<exists>nonce w. shows_landed (fst (l_submit_one L E C cx nonce r candidate w))) \<or>
     (\<exists>nonce rows items w i. fst (l_submit_batch L E C cx nonce rows w) = Inr items \<and>
        length items = length rows \<and> i < length rows \<and> rows ! i = (r, candidate) \<and>
        shows_landed (items ! i))"

definition may_land ::
  "('ctx, 'l) lane \<Rightarrow> (string \<Rightarrow> account option) \<Rightarrow> tables env \<Rightarrow> 'ctx chain \<Rightarrow> cx \<Rightarrow> reservation \<Rightarrow> bool" where
  "may_land L ss58 E C cx r \<longleftrightarrow>
     (\<exists>candidate. ss58 (candidate_account_id r) = Some candidate \<and>
        landing_evidence L E C cx r candidate)"

lemma classify_Assign:
  "classify_submit_failure reason observed candidate a m = Assign \<longleftrightarrow>
     observed = Some candidate \<or> shows_landed (Inl reason)"
  by (auto simp: classify_submit_failure_def shows_landed_def)

section \<open>Triples over the pass state\<close>

lemma valid_on_world:
  assumes "valid P m Q X"
  shows "valid (\<lambda>s. P (fst s)) (on_world m) (\<lambda>a s. Q a (fst s)) (\<lambda>e s. X e (fst s))"
  using assms by (fastforce simp: valid_def on_world_def split: prod.splits sum.splits)

abbreviation dkeeps :: "(tables \<Rightarrow> bool) \<Rightarrow> ('l, 'e, 'a) dprog \<Rightarrow> bool" where
  "dkeeps I m \<equiv> keeps (\<lambda>s. I (w_db (fst s))) m"

lemma dkeeps_on_world [prog_intro]: "keeps (on_db I) m \<Longrightarrow> dkeeps I (on_world m)"
  using valid_on_world [of "on_db I" m "\<lambda>_. on_db I" "\<lambda>_. on_db I"] by simp

lemma dkeeps_get_drain [prog_intro]: "dkeeps I get_drain"
  unfolding get_drain_def by (rule keeps_gets)

lemma dkeeps_modify_drain [prog_intro]: "dkeeps I (modify_drain f)"
  unfolding modify_drain_def by (auto intro!: prog_intro split: prod.splits)

lemma dkeeps_submitted [prog_intro]: "dkeeps I (submitted n)"
  unfolding submitted_def by (rule dkeeps_modify_drain)

text \<open>A program run for its result: the result is one the program can have.\<close>

lemma valid_attempt_result:
  assumes "keeps I m"
  shows "valid I (attempt m) (\<lambda>res s. I s \<and> (\<exists>s0. fst (m s0) = res)) X"
proof (rule validI)
  fix s res s'
  assume "I s" and run: "attempt m s = (Inr res, s')"
  then have "m s = (res, s')" by (simp add: attempt_def split: prod.splits)
  with keepsD [OF assms \<open>I s\<close>] show "I s' \<and> (\<exists>s0. fst (m s0) = res)"
    by (metis fst_conv snd_conv)
qed (simp add: attempt_def split: prod.splits)

lemma keeps_bind_attempt:
  assumes "keeps I m" and "\<And>res s0. fst (m s0) = res \<Longrightarrow> valid I (f res) Q X"
  shows "valid I (bindE (attempt m) f) Q X"
  by (rule valid_bindE [OF valid_attempt_result [OF assms(1)]], rule valid_conj_pure)
     (erule exE, rule assms(2))

lemma on_world_fst: "fst (on_world m s) = fst (m (fst s))"
  by (cases s) (simp add: on_world_def split: prod.splits)

lemma on_world_bind: "on_world (bindE m f) = bindE (on_world m) (\<lambda>a. on_world (f a))"
  by (rule ext) (auto simp: on_world_def bindE_def split: prod.splits sum.splits)

lemma on_world_attempt: "on_world (attempt m) = attempt (on_world m)"
  by (rule ext) (auto simp: on_world_def attempt_def split: prod.splits)

lemma chunks_subset: "chunk \<in> set (chunks n xs) \<Longrightarrow> set chunk \<subseteq> set xs"
proof (induction n xs rule: chunks.induct)
  case (1 n xs)
  then show ?case
    by (subst (asm) chunks.simps) (auto split: if_splits dest: in_set_takeD in_set_dropD)
qed

lemma remote_fst: "fst (remote f w) = f (w_step w)"
  by (simp add: remote_def)

section \<open>The contract\<close>

locale lane_invariant =
  fixes L :: "('ctx, 'l) lane" and ss58 :: "string \<Rightarrow> account option" and E :: "tables env"
    and C :: "'ctx chain" and cx :: cx and Inv :: "tables \<Rightarrow> bool" and known :: "reservation \<Rightarrow> bool"
  assumes up_keeps: "keeps (on_db Inv) (l_up L E C l)"
    and context_keeps: "keeps (on_db Inv) (l_context L C l)"
    and claim_keeps: "valid (on_db Inv) (sql E (l_claim L n))
      (\<lambda>rs w. Inv (w_db w) \<and> (\<forall>r \<in> set rs. known r)) (\<lambda>_. on_db Inv)"
    and submitting_keeps: "valid (on_db Inv) (sql E (l_submitting L))
      (\<lambda>rs w. Inv (w_db w) \<and> (\<forall>r \<in> set rs. known r)) (\<lambda>_. on_db Inv)"
    and hold_keeps: "keeps (on_db Inv) (hold E cx)"
    and submit_one_keeps: "keeps (on_db Inv) (l_submit_one L E C cx nonce r candidate)"
    and submit_batch_keeps: "keeps (on_db Inv) (l_submit_batch L E C cx nonce rows)"
    and record_keeps: "known r \<Longrightarrow> (outcome = Landed \<or> outcome = Observed \<Longrightarrow> may_land L ss58 E C cx r) \<Longrightarrow>
      keeps (on_db Inv) (l_record L E (cx_guard cx) r outcome)"
    and gate_parses: "l_gate L r ctx now = Inr candidate \<Longrightarrow> ss58 (candidate_account_id r) = Some candidate"
begin

abbreviation parsed :: "(reservation \<times> account) list \<Rightarrow> bool" where
  "parsed rows \<equiv> \<forall>(r, c) \<in> set rows. ss58 (candidate_account_id r) = Some c \<and> known r"

abbreviation all_known :: "reservation list \<Rightarrow> bool" where
  "all_known rs \<equiv> \<forall>r \<in> set rs. known r"

lemma evidence_may_land:
  "ss58 (candidate_account_id r) = Some c \<Longrightarrow> landing_evidence L E C cx r c \<Longrightarrow> may_land L ss58 E C cx r"
  by (auto simp: may_land_def)

lemma defer_rows_keeps: "all_known rows \<Longrightarrow> keeps (on_db Inv) (defer_rows L E cx rows backoff reason)"
  unfolding defer_rows_def by (auto intro!: prog_intro record_keeps)

lemma retry_batch_keeps: "all_known rows \<Longrightarrow> dkeeps Inv (retry_batch L E cx rows reason)"
  unfolding retry_batch_def by (auto intro!: prog_intro defer_rows_keeps)

lemma defer_reconciled_keeps:
  "parsed rows \<Longrightarrow> keeps (on_db Inv) (defer_reconciled L E cx rows reason)"
  unfolding defer_reconciled_def by (rule defer_rows_keeps) auto

lemma settle_keeps:
  assumes "ss58 (candidate_account_id r) = Some c" "known r"
    and "observed = Some c \<or> shows_landed (Inl reason) \<Longrightarrow> landing_evidence L E C cx r c"
  shows "keeps (on_db Inv) (settle L E cx r c observed reason)"
proof (cases "classify_submit_failure reason observed c (l_attempt L r + 1) (max_attempts cx)")
  case Assign
  then have "may_land L ss58 E C cx r"
    using assms evidence_may_land by (simp add: classify_Assign)
  then show ?thesis using Assign assms(2) by (auto simp: settle_def intro!: record_keeps)
next
  case DeferRow
  then show ?thesis
    using assms(2) by (auto simp: settle_def signer_defer_def intro!: prog_intro record_keeps split: prod.splits)
qed (use assms(2) in \<open>auto simp: settle_def intro!: record_keeps\<close>)

lemma owners_evidence:
  "c_owners C n names = Inr owners \<Longrightarrow> owners (full_username r) = Some c \<Longrightarrow>
   landing_evidence L E C cx r c"
  by (auto simp: landing_evidence_def)

lemma record_landed_keeps:
  assumes "c_owners C n names = Inr owners" "parsed rows"
  shows "valid (on_db Inv) (record_landed L E cx owners rows)
    (\<lambda>unlanded w. Inv (w_db w) \<and> parsed unlanded) (\<lambda>_. on_db Inv)"
  using assms(2)
proof (induction rows)
  case (Cons p rows)
  obtain r c where p: "p = (r, c)" by (cases p)
  have IH: "valid (on_db Inv) (record_landed L E cx owners rows)
      (\<lambda>unlanded w. Inv (w_db w) \<and> parsed unlanded) (\<lambda>_. on_db Inv)"
    using Cons by simp
  have rc: "ss58 (candidate_account_id r) = Some c" "known r" using Cons.prems p by simp_all
  show ?case
  proof (cases "owners (full_username r) = Some c")
    case True
    then have "keeps (on_db Inv) (l_record L E (cx_guard cx) r Landed)"
      using rc owners_evidence [OF assms(1) True] evidence_may_land by (auto intro!: record_keeps)
    then show ?thesis using True IH by (auto simp: p intro!: valid_bindE)
  next
    case False
    then show ?thesis using rc by (auto simp: p intro!: valid_bindE [OF IH] valid_ret)
  qed
qed (auto intro!: prog_intro)

lemma reconcile_batch_keeps:
  assumes "parsed rows"
  shows "keeps (on_db Inv) (reconcile_batch L E C cx rows reason)"
  unfolding reconcile_batch_def
proof (rule keeps_bind_attempt)
  fix res w
  assume "fst (remote (\<lambda>n. c_owners C n (map (\<lambda>(r, _). full_username r) rows)) w) = res"
  then show "keeps (on_db Inv) (case res of
      Inl e \<Rightarrow> defer_reconciled L E cx rows (reason @ ''; owner read failed: '' @ e)
    | Inr owners \<Rightarrow> bindE (record_landed L E cx owners rows) (\<lambda>unlanded.
        if unlanded = [] then ret () else defer_reconciled L E cx unlanded reason))"
    using assms unfolding remote_fst
    by (auto intro!: defer_reconciled_keeps valid_bindE [OF record_landed_keeps] valid_conj_pure
        valid_ret split: sum.splits)
qed (rule keeps_remote)

lemma apply_items_keeps:
  assumes "\<And>r c. owners (full_username r) = Some c \<Longrightarrow> landing_evidence L E C cx r c"
    and "\<And>r c item. ((r, c), item) \<in> set xs \<Longrightarrow>
      ss58 (candidate_account_id r) = Some c \<and> known r \<and>
      (shows_landed item \<longrightarrow> landing_evidence L E C cx r c)"
  shows "keeps (on_db Inv) (apply_items L E cx owners xs)"
  using assms(2)
proof (induction xs)
  case (Cons x xs)
  obtain r c item where x: "x = ((r, c), item)" by (metis prod.collapse)
  have rc: "ss58 (candidate_account_id r) = Some c" "shows_landed item \<longrightarrow> landing_evidence L E C cx r c"
    "known r" using Cons.prems [of r c item] x by simp_all
  have "keeps (on_db Inv) (case item of
      Inr _ \<Rightarrow> l_record L E (cx_guard cx) r Landed
    | Inl reason \<Rightarrow> settle L E cx r c (owners (full_username r)) reason)"
  proof (cases item)
    case (Inl reason)
    then show ?thesis
      using settle_keeps [OF rc(1,3)] rc(2) assms(1) by auto
  next
    case (Inr u)
    then have "landing_evidence L E C cx r c" using rc(2) by (simp add: shows_landed_def)
    then show ?thesis using Inr rc(1,3) evidence_may_land by (auto intro!: record_keeps)
  qed
  then show ?case
    using Cons by (auto simp: x intro!: keeps_bindE)
qed (auto intro!: prog_intro)

lemma apply_batch_keeps:
  assumes "parsed rows" "fst (l_submit_batch L E C cx nonce rows w) = Inr items"
  shows "keeps (on_db Inv) (apply_batch L E C cx rows items)"
proof (cases "length items = length rows")
  case True
  have zip: "ss58 (candidate_account_id r) = Some c \<and> known r \<and>
      (shows_landed item \<longrightarrow> landing_evidence L E C cx r c)"
    if item_in: "((r, c), item) \<in> set (zip rows items)" for r c item
  proof -
    obtain i where i: "i < length rows" "rows ! i = (r, c)" "items ! i = item"
      using item_in True by (auto simp: in_set_zip)
    have "(r, c) \<in> set rows" using i nth_mem by force
    then show ?thesis
      using assms i True unfolding landing_evidence_def by fast
  qed
  have owners: "keeps (on_db Inv) (apply_items L E cx
      (case res of Inr owners \<Rightarrow> owners | Inl _ \<Rightarrow> \<lambda>_. None) (zip rows items))"
    if "fst (remote (\<lambda>n. c_owners C n names) w) = res" for res names w
    by (rule apply_items_keeps)
       (use that zip in \<open>auto simp: remote_fst intro: owners_evidence split: sum.splits\<close>)
  show ?thesis
    using True unfolding apply_batch_def
    by (auto simp: Let_def intro!: keeps_bind_attempt keeps_remote owners)
qed (simp add: apply_batch_def reconcile_batch_keeps [OF assms(1)])

lemma next_nonce_keeps: "dkeeps Inv (next_nonce C)"
  unfolding next_nonce_def by (auto intro!: prog_intro)

lemma one_keeps:
  assumes "ss58 (candidate_account_id r) = Some c" "known r"
  shows "dkeeps Inv (one L E C cx r c)"
  unfolding one_def
proof (rule keeps_bindE [OF keeps_attempt [OF next_nonce_keeps]], rule valid_case_sum)
  fix res e
  show "dkeeps Inv (on_world (l_record L E (cx_guard cx) r (Retry (NONCE_FETCH L @ '': '' @ writer_error_str e))))"
    using assms(2) by (auto intro!: prog_intro record_keeps)
next
  fix res nonce
  let ?k = "\<lambda>res. case res of
      Inl reason \<Rightarrow> bindE (modify_drain reset_nonce) (\<lambda>_.
        bindE (on_world (attempt (remote (\<lambda>n. c_owner C n (full_username r))))) (\<lambda>observed.
          on_world (settle L E cx r c (case observed of Inl _ \<Rightarrow> None | Inr own \<Rightarrow> own) reason)))
    | Inr _ \<Rightarrow> bindE (submitted nonce) (\<lambda>_. on_world (l_record L E (cx_guard cx) r Landed))"
  show "dkeeps Inv (bindE (attempt (on_world (l_submit_one L E C cx nonce r c))) ?k)"
  proof (rule keeps_bind_attempt)
    show "dkeeps Inv (on_world (l_submit_one L E C cx nonce r c))"
      by (auto intro!: prog_intro submit_one_keeps)
  next
    fix res s0
    assume "fst (on_world (l_submit_one L E C cx nonce r c) s0) = res"
    then have res: "fst (l_submit_one L E C cx nonce r c (fst s0)) = res"
      by (simp add: on_world_fst)
    have landed: "shows_landed res \<Longrightarrow> landing_evidence L E C cx r c"
      using res by (auto simp: landing_evidence_def)
    show "dkeeps Inv (?k res)"
    proof (cases res)
      case (Inr u)
      then have "may_land L ss58 E C cx r"
        using landed assms evidence_may_land by (simp add: shows_landed_def)
      then show ?thesis using Inr assms(2) by (auto intro!: prog_intro record_keeps)
    next
      case (Inl reason)
      have settled: "keeps (on_db Inv) (settle L E cx r c (case obs of Inl _ \<Rightarrow> None | Inr own \<Rightarrow> own) reason)"
        if "fst (remote (\<lambda>n. c_owner C n (full_username r)) w) = obs" for obs w
        by (rule settle_keeps [OF assms])
           (use that landed Inl in \<open>auto simp: remote_fst landing_evidence_def split: sum.splits\<close>)
      have "keeps (on_db Inv) (bindE (attempt (remote (\<lambda>n. c_owner C n (full_username r))))
          (\<lambda>obs. settle L E cx r c (case obs of Inl _ \<Rightarrow> None | Inr own \<Rightarrow> own) reason))"
        by (rule keeps_bind_attempt [OF keeps_remote settled])
      then have "dkeeps Inv (on_world (bindE (attempt (remote (\<lambda>n. c_owner C n (full_username r))))
          (\<lambda>obs. settle L E cx r c (case obs of Inl _ \<Rightarrow> None | Inr own \<Rightarrow> own) reason)))"
        by (rule dkeeps_on_world)
      then show ?thesis
        unfolding on_world_bind Inl by (auto intro: keeps_bindE [OF dkeeps_modify_drain])
    qed
  qed
qed

lemma batch_keeps:
  assumes "parsed rows"
  shows "dkeeps Inv (batch L E C cx rows)"
  unfolding batch_def
proof (rule keeps_bindE [OF keeps_attempt [OF next_nonce_keeps]], rule valid_case_sum)
  fix res e
  show "dkeeps Inv (retry_batch L E cx (map fst rows) (NONCE_FETCH L @ '': '' @ writer_error_str e))"
    using assms by (intro retry_batch_keeps) auto
next
  fix res nonce
  let ?k = "\<lambda>res. case res of
      Inl reason \<Rightarrow> bindE (modify_drain reset_nonce) (\<lambda>_. retry_batch L E cx (map fst rows) reason)
    | Inr items \<Rightarrow> bindE (submitted nonce) (\<lambda>_. on_world (apply_batch L E C cx rows items))"
  show "dkeeps Inv (bindE (attempt (on_world (l_submit_batch L E C cx nonce rows))) ?k)"
  proof (rule keeps_bind_attempt)
    show "dkeeps Inv (on_world (l_submit_batch L E C cx nonce rows))"
      by (auto intro!: prog_intro submit_batch_keeps)
  next
    fix res s0
    assume "fst (on_world (l_submit_batch L E C cx nonce rows) s0) = res"
    moreover have "all_known (map fst rows)" using assms by auto
    ultimately show "dkeeps Inv (?k res)"
      by (auto simp: on_world_fst intro!: prog_intro retry_batch_keeps apply_batch_keeps [OF assms]
          split: sum.splits)
  qed
qed

lemma gate_rows_keeps:
  "all_known rs \<Longrightarrow>
   valid (on_db Inv) (gate_rows L E cx ctx now rs) (\<lambda>rows w. Inv (w_db w) \<and> parsed rows) (\<lambda>_. on_db Inv)"
proof (induction rs)
  case (Cons r rs)
  have IH: "valid (on_db Inv) (gate_rows L E cx ctx now rs)
      (\<lambda>rows w. Inv (w_db w) \<and> parsed rows) (\<lambda>_. on_db Inv)" using Cons by simp
  have r: "known r" using Cons.prems by simp
  show ?case
  proof (cases "l_gate L r ctx now")
    case (Inl g)
    have "keeps (on_db Inv) (l_record L E (cx_guard cx) r (gate_outcome g))"
      using r by (rule record_keeps) (cases g; simp)
    then show ?thesis using IH Inl by (auto intro!: valid_bindE)
  next
    case (Inr c)
    then show ?thesis
      using gate_parses [OF Inr] r by (auto intro!: valid_bindE [OF IH] valid_ret)
  qed
qed (auto intro!: prog_intro)

lemma split_owned_keeps:
  assumes "c_owners C n names = Inr owners" "parsed rows"
  shows "valid (on_db Inv) (split_owned L E cx owners rows) (\<lambda>rows w. Inv (w_db w) \<and> parsed rows)
    (\<lambda>_. on_db Inv)"
  using assms(2)
proof (induction rows)
  case (Cons p rows)
  obtain r c where p: "p = (r, c)" by (cases p)
  have rc: "ss58 (candidate_account_id r) = Some c" "known r" using Cons.prems p by simp_all
  show ?case
  proof (cases "owners (full_username r)")
    case None
    then show ?thesis
      using rc Cons by (auto simp: p intro!: valid_bindE [OF Cons.IH] valid_ret)
  next
    case (Some owner)
    have "keeps (on_db Inv) (l_record L E (cx_guard cx) r
        (if owner = c then Observed else Failed (OWNED_ELSEWHERE L)))"
      using owners_evidence [OF assms(1), of r c] Some rc evidence_may_land [of r c]
      by (auto intro!: record_keeps split: if_splits)
    then show ?thesis
      using Some Cons by (auto simp: p intro!: valid_bindE)
  qed
qed (auto intro!: prog_intro)

lemma triage_keeps:
  "all_known due_rows \<Longrightarrow> valid (\<lambda>s. Inv (w_db (fst s))) (triage L E C cx ctx due_rows)
     (\<lambda>rows s. Inv (w_db (fst s)) \<and> parsed rows) (\<lambda>_ s. Inv (w_db (fst s)))"
  unfolding triage_def
proof (rule valid_map_err, rule valid_bindE [OF dkeeps_on_world [OF keeps_now_utc]])
  fix now
  assume known: "all_known due_rows"
  let ?read = "\<lambda>gated. attempt (remote (\<lambda>n. c_owners C n (map (\<lambda>(r, _). full_username r) gated)))"
  let ?rest = "\<lambda>gated res. case res of
      Inl e \<Rightarrow> bindE (retry_batch L E cx (map fst gated) (''owner read failed: '' @ e)) (\<lambda>_. ret [])
    | Inr owners \<Rightarrow> on_world (split_owned L E cx owners gated)"
  have rest: "valid (\<lambda>s. Inv (w_db (fst s))) (bindE (on_world (?read gated)) (?rest gated))
      (\<lambda>rows s. Inv (w_db (fst s)) \<and> parsed rows) (\<lambda>_ s. Inv (w_db (fst s)))"
    if "parsed gated" for gated
    unfolding on_world_attempt
  proof (rule keeps_bind_attempt [OF dkeeps_on_world [OF keeps_remote]])
    fix res s0
    assume "fst (on_world (remote (\<lambda>n. c_owners C n (map (\<lambda>(r, _). full_username r) gated))) s0) = res"
    then have res: "c_owners C (w_step (fst s0)) (map (\<lambda>(r, _). full_username r) gated) = res"
      by (simp add: on_world_fst remote_fst)
    show "valid (\<lambda>s. Inv (w_db (fst s))) (?rest gated res)
        (\<lambda>rows s. Inv (w_db (fst s)) \<and> parsed rows) (\<lambda>_ s. Inv (w_db (fst s)))"
    proof (cases res)
      case (Inl e)
      have "all_known (map fst gated)" using that by auto
      with Inl show ?thesis
        by (auto intro!: valid_bindE [OF retry_batch_keeps] valid_ret)
    next
      case (Inr owners)
      then show ?thesis
        using valid_on_world [OF split_owned_keeps [OF _ that]] res by simp
    qed
  qed
  show "valid (\<lambda>s. Inv (w_db (fst s)))
      (bindE (on_world (gate_rows L E cx ctx now due_rows)) (\<lambda>gated.
        if gated = [] then ret [] else bindE (on_world (?read gated)) (?rest gated)))
      (\<lambda>rows s. Inv (w_db (fst s)) \<and> parsed rows) (\<lambda>_ s. Inv (w_db (fst s)))"
    by (rule valid_bindE [OF valid_on_world [OF gate_rows_keeps [OF known]]], rule valid_conj_pure)
       (auto intro!: valid_ret rest)
qed

lemma bring_up_keeps: "dkeeps Inv (bring_up L E C)"
  unfolding bring_up_def by (auto intro!: prog_intro up_keeps)

lemma pass_keeps: "dkeeps Inv (pass L E C cx)"
proof -
  have submit: "dkeeps Inv (case rows of [] \<Rightarrow> ret () | [(r, c)] \<Rightarrow> one L E C cx r c
      | _ \<Rightarrow> batch L E C cx rows)" if "parsed rows" for rows
    using that
    by (auto intro!: valid_ret one_keeps batch_keeps split: list.splits)
  have rest: "dkeeps Inv (bindE (triage L E C cx ctx due_rows) (\<lambda>rows.
      bindE (case rows of [] \<Rightarrow> ret () | [(r, c)] \<Rightarrow> one L E C cx r c | _ \<Rightarrow> batch L E C cx rows)
        (\<lambda>_. ret False)))" if "all_known due_rows" for ctx due_rows
    by (rule valid_bindE [OF triage_keeps [OF that]], rule valid_conj_pure)
       (auto intro!: keeps_bindE submit valid_ret)
  have claim: "valid (\<lambda>s. Inv (w_db (fst s))) (on_world (map_err Db (sql E (l_claim L n))))
      (\<lambda>rs s. Inv (w_db (fst s)) \<and> all_known rs) (\<lambda>_ s. Inv (w_db (fst s)))" for n
    by (rule valid_on_world [OF valid_map_err [OF claim_keeps]])
  show ?thesis
    unfolding pass_def
    by (intro keeps_bindE bring_up_keeps keeps_if valid_ret dkeeps_get_drain
        valid_bindE [OF claim] valid_conj_pure)
       (auto intro!: prog_intro hold_keeps context_keeps retry_batch_keeps rest)
qed

lemma parse_stuck_keeps:
  "all_known rs \<Longrightarrow> valid (on_db Inv) (parse_stuck L ss58 E cx rs) (\<lambda>rows w. Inv (w_db w) \<and> parsed rows) (\<lambda>_. on_db Inv)"
proof (induction rs)
  case (Cons r rs)
  show ?case
  proof (cases "parse_candidate ss58 r")
    case (Inl g)
    have "keeps (on_db Inv) (l_record L E (cx_guard cx) r (gate_outcome g))"
      using Cons.prems by (intro record_keeps) (auto, (cases g; simp)+)
    then show ?thesis using Cons Inl by (auto intro!: valid_bindE)
  next
    case (Inr c)
    have "valid (on_db Inv) (parse_stuck L ss58 E cx rs)
      (\<lambda>rows w. Inv (w_db w) \<and> parsed rows) (\<lambda>_. on_db Inv)" using Cons by simp
    with Inr Cons.prems show ?thesis
      by (auto simp: parse_candidate_def intro!: valid_bindE valid_ret split: option.splits)
  qed
qed (auto intro!: prog_intro)

lemma reconcile_chunk_keeps:
  assumes "parsed chunk"
  shows "keeps (on_db Inv) (reconcile_chunk L E C cx chunk)"
  unfolding reconcile_chunk_def
proof (rule keeps_bind_attempt [OF keeps_remote])
  fix res w
  assume "fst (remote (\<lambda>n. c_owners C n (map (\<lambda>(r, _). full_username r) chunk)) w) = res"
  then have ev: "res = Inr owners \<Longrightarrow> owners (full_username r) = Some c \<Longrightarrow> landing_evidence L E C cx r c"
    for owners r c by (auto simp: remote_fst intro: owners_evidence)
  have "keeps (on_db Inv) (l_record L E (cx_guard cx) r
      (if owners (full_username r) = Some c then Observed else Retry (RECONCILED L)))"
    if "res = Inr owners" "(r, c) \<in> set chunk" for owners r c
    using that ev assms by (intro record_keeps) (auto simp: may_land_def split: if_splits)
  then show "keeps (on_db Inv) (case res of
      Inl e \<Rightarrow> ret (length chunk)
    | Inr owners \<Rightarrow> bindE (forE (\<lambda>(r, candidate). l_record L E (cx_guard cx) r
        (if owners (full_username r) = Some candidate then Observed else Retry (RECONCILED L))) chunk)
        (\<lambda>_. ret 0))"
    by (auto intro!: prog_intro)
qed

lemma reconcile_submitting_keeps: "dkeeps Inv (reconcile_submitting L ss58 E C cx)"
proof -
  have "keeps (on_db Inv) (bindE (mapE (reconcile_chunk L E C cx) (chunks n rows)) f)"
    if "parsed rows" "\<And>a. keeps (on_db Inv) (f a)" for n rows and f :: "nat list \<Rightarrow> (tables world, writer_error, unit) prog"
    using that
    by (intro keeps_bindE keeps_mapE reconcile_chunk_keeps) (auto dest: chunks_subset)
  then have rest: "keeps (on_db Inv) (bindE (parse_stuck L ss58 E cx stuck) (\<lambda>rows.
      bindE (mapE (reconcile_chunk L E C cx) (chunks n rows)) (f rows)))"
    if "all_known stuck" "\<And>rows a. keeps (on_db Inv) (f rows a)"
    for stuck n and f :: "_ \<Rightarrow> nat list \<Rightarrow> (tables world, writer_error, unit) prog"
    using that by (intro valid_bindE [OF parse_stuck_keeps] valid_conj_pure) blast+
  have stuck: "valid (on_db Inv) (map_err Db (sql E (l_submitting L)))
      (\<lambda>rs w. Inv (w_db w) \<and> all_known rs) (\<lambda>_. on_db Inv)"
    by (rule valid_map_err) (rule submitting_keeps)
  show ?thesis
    unfolding reconcile_submitting_def
    by (intro keeps_bindE bring_up_keeps keeps_if valid_ret dkeeps_on_world valid_bindE [OF stuck]
        valid_conj_pure rest) (auto intro!: prog_intro)
qed

end

section \<open>The lanes meet the contract\<close>

text \<open>
  A table invariant is closed under a lane's writes when every write the lane performs
  while its guard holds the lease keeps it; landing a row may assume its evidence.
\<close>

definition people_closed :: "cx \<Rightarrow> (tables \<Rightarrow> bool) \<Rightarrow> (int \<Rightarrow> bool) \<Rightarrow> bool" where
  "people_closed cx P J \<longleftrightarrow> (\<forall>now t i. P t \<longrightarrow> guard_held (cx_guard cx) now t \<longrightarrow>
     P (snd (renew (lease_name (cx_guard cx)) (g_holder_id (cx_guard cx)) (epoch (cx_guard cx))
              (lease_ttl cx) now t)) \<and>
     (\<forall>h n a. P (snd (mark_submitting (cx_guard cx) i h n a now t))) \<and>
     (\<forall>nb a e. P (snd (mark_retry (cx_guard cx) i nb a e now t))) \<and>
     (\<forall>e. P (snd (release_for_reservation i now (snd (mark_failed (cx_guard cx) i e now t))))) \<and>
     (J i \<longrightarrow> P (snd (consume_for_reservation i now (snd (mark_assigned (cx_guard cx) i now t))))))"

definition dotns_closed :: "cx \<Rightarrow> (tables \<Rightarrow> bool) \<Rightarrow> (int \<Rightarrow> bool) \<Rightarrow> bool" where
  "dotns_closed cx P J \<longleftrightarrow> (\<forall>now t i. P t \<longrightarrow> guard_held (cx_guard cx) now t \<longrightarrow>
     P (snd (renew (lease_name (cx_guard cx)) (g_holder_id (cx_guard cx)) (epoch (cx_guard cx))
              (lease_ttl cx) now t)) \<and>
     (\<forall>h a. P (snd (mark_dotns_submitting (cx_guard cx) i h a now t))) \<and>
     (\<forall>nb a e. P (snd (mark_dotns_retry (cx_guard cx) i nb a e now t))) \<and>
     (\<forall>e. P (snd (mark_dotns_failed (cx_guard cx) i e now t))) \<and>
     (\<forall>e. P (snd (mark_dotns_expired (cx_guard cx) i e now t))) \<and>
     (J i \<longrightarrow> P (snd (mark_dotns_reserved (cx_guard cx) i now t))))"

lemma keeps_under: "(H \<Longrightarrow> keeps (on_db P) m) \<Longrightarrow> keeps (on_db (\<lambda>t. H \<longrightarrow> P t)) m"
  by (cases H) (auto simp: valid_def split: prod.splits sum.splits)

lemma stale_stmt:
  assumes "P t" "guard_held g now t \<Longrightarrow> P (snd (guarded_update g i f now t))"
  shows "P (snd (guarded_update g i f now t))"
  using assms by (cases "guard_held g now t") (simp_all add: guarded_update_stale)

lemma keeps_guarded:
  assumes "stable E P" "\<And>now t. P t \<Longrightarrow> P (snd (st now t))"
  shows "keeps (on_db P) (guarded E p st)"
  unfolding guarded_def using assms by (auto intro!: prog_intro)

lemma keeps_read: "stable E P \<Longrightarrow> (\<And>now t. snd (st now t) = t) \<Longrightarrow> keeps (on_db P) (sql E st)"
  by (auto intro!: prog_intro)

lemma keeps_heartbeat:
  assumes "stable E P"
    and "\<And>now t. P t \<Longrightarrow> guard_held (cx_guard cx) now t \<Longrightarrow>
      P (snd (renew (lease_name (cx_guard cx)) (g_holder_id (cx_guard cx)) (epoch (cx_guard cx))
        (lease_ttl cx) now t))"
  shows "keeps (on_db P) (heartbeat E cx)"
  unfolding heartbeat_def
proof (intro valid_map_err keeps_sql [OF assms(1)])
  fix now t
  assume "P t"
  then show "P (snd (renew (lease_name (cx_guard cx)) (g_holder_id (cx_guard cx))
      (epoch (cx_guard cx)) (lease_ttl cx) now t))"
  proof (cases "guard_held (cx_guard cx) now t")
    case False
    with \<open>P t\<close> show ?thesis
      by (auto simp: renew_def guard_held_def lease_held_def split: option.splits)
  qed (rule assms(2))
qed

lemma keeps_hold: "keeps (on_db P) (heartbeat E cx) \<Longrightarrow> keeps (on_db P) (hold E cx)"
  unfolding hold_def by (auto intro!: prog_intro)

lemma keeps_watch_loop:
  "keeps (on_db P) (heartbeat E cx) \<Longrightarrow> keeps (on_db P) (watch_loop E cx ws)"
  by (induction E cx ws rule: watch_loop.induct) (auto intro!: prog_intro)

lemma keeps_finalize:
  "keeps (on_db P) (heartbeat E cx) \<Longrightarrow> keeps (on_db P) (finalize E C cx)"
  unfolding finalize_def by (auto intro!: prog_intro keeps_watch_loop)

text \<open>The fenced transaction: a failing fence rolls back, and then nothing was written.\<close>

lemma keeps_fenced_tx:
  assumes "stable E P"
    and "\<And>now t. P t \<Longrightarrow> guard_held g now t \<Longrightarrow> P (snd (dev now (snd (mark_st now t))))"
  shows "keeps (on_db P) (fenced_tx E g p mark_st dev)"
proof (rule validI)
  fix w u w'
  assume "P (w_db w)" and run: "fenced_tx E g p mark_st dev w = (Inr u, w')"
  let ?n = "w_step w"
  have t: "P (e_others E ?n (w_db w))" using assms(1) \<open>P (w_db w)\<close> by (simp add: stable_def)
  show "P (w_db w')"
    using run assms(2) [OF t]
    by (auto simp: fenced_tx_def transaction_def tx_sql_def map_err_def bindE_def throw_def ret_def
        fence_def guard_held_def Let_def split: option.splits prod.splits if_splits) force+
next
  fix w e w'
  assume "P (w_db w)" and run: "fenced_tx E g p mark_st dev w = (Inl e, w')"
  have "P (e_others E (w_step w) (w_db w))" using assms(1) \<open>P (w_db w)\<close> by (simp add: stable_def)
  then show "P (w_db w')"
    using run by (auto simp: fenced_tx_def transaction_def Let_def
        split: option.splits prod.splits sum.splits tx_end.splits)
qed

lemma people_ops_keep:
  assumes "stable E P" "people_closed cx P J"
  shows "keeps (on_db P) (heartbeat E cx)"
    and "keeps (on_db P) (people_mark E cx r h nonce)"
    and "(oc = Landed \<or> oc = Observed \<Longrightarrow> J (res_id r)) \<Longrightarrow>
      keeps (on_db P) (people_record E (cx_guard cx) r oc)"
proof -
  let ?g = "cx_guard cx"
  note closed = assms(2) [unfolded people_closed_def, rule_format]
  show "keeps (on_db P) (heartbeat E cx)"
    using assms(1) closed by (intro keeps_heartbeat) auto
  have mark: "P t \<Longrightarrow> P (snd (mark_submitting ?g i h n a now t))" for t i h n a now
    using closed unfolding mark_submitting_def by (rule_tac stale_stmt) auto
  have retry: "P t \<Longrightarrow> P (snd (mark_retry ?g i nb a e now t))" for t i nb a e now
    using closed unfolding mark_retry_def guarded_status_def by (rule_tac stale_stmt) auto
  show "keeps (on_db P) (people_mark E cx r h nonce)"
    unfolding people_mark_def using assms(1) mark by (intro keeps_guarded)
  show "keeps (on_db P) (people_record E ?g r oc)" if "oc = Landed \<or> oc = Observed \<Longrightarrow> J (res_id r)"
    using assms(1) closed that retry
    by (cases oc) (auto simp: people_record_def Let_def
        intro!: keeps_fenced_tx keeps_guarded keeps_bindE keeps_now_utc)
qed

lemma dotns_ops_keep:
  assumes "stable E P" "dotns_closed cx P J"
  shows "keeps (on_db P) (heartbeat E cx)"
    and "keeps (on_db P) (dotns_mark E cx r h)"
    and "(oc = Landed \<or> oc = Observed \<Longrightarrow> J (res_id r)) \<Longrightarrow>
      keeps (on_db P) (dotns_record E (cx_guard cx) r oc)"
proof -
  let ?g = "cx_guard cx"
  note closed = assms(2) [unfolded dotns_closed_def, rule_format]
  show "keeps (on_db P) (heartbeat E cx)"
    using assms(1) closed by (intro keeps_heartbeat) auto
  have mark: "P t \<Longrightarrow> P (snd (mark_dotns_submitting ?g i h a now t))" for t i h a now
    using closed unfolding mark_dotns_submitting_def by (rule_tac stale_stmt) auto
  have retry: "P t \<Longrightarrow> P (snd (mark_dotns_retry ?g i nb a e now t))" for t i nb a e now
    using closed unfolding mark_dotns_retry_def guarded_dotns_status_def by (rule_tac stale_stmt) auto
  have failed: "P t \<Longrightarrow> P (snd (mark_dotns_failed ?g i e now t))" for t i e now
    using closed unfolding mark_dotns_failed_def guarded_dotns_status_def by (rule_tac stale_stmt) auto
  have expired: "P t \<Longrightarrow> P (snd (mark_dotns_expired ?g i e now t))" for t i e now
    using closed unfolding mark_dotns_expired_def guarded_dotns_status_def by (rule_tac stale_stmt) auto
  have reserved: "J i \<Longrightarrow> P t \<Longrightarrow> P (snd (mark_dotns_reserved ?g i now t))" for t i now
    using closed unfolding mark_dotns_reserved_def guarded_dotns_status_def by (rule_tac stale_stmt) auto
  show "keeps (on_db P) (dotns_mark E cx r h)"
    unfolding dotns_mark_def using assms(1) mark by (intro keeps_guarded)
  show "keeps (on_db P) (dotns_record E ?g r oc)" if "oc = Landed \<or> oc = Observed \<Longrightarrow> J (res_id r)"
    using assms(1) that retry failed expired reserved
    by (cases oc) (auto simp: dotns_record_def Let_def
        intro!: keeps_guarded keeps_bindE keeps_now_utc)
qed

definition landing_ids ::
  "('ctx, 'l) lane \<Rightarrow> (string \<Rightarrow> account option) \<Rightarrow> tables env \<Rightarrow> 'ctx chain \<Rightarrow> cx \<Rightarrow>
   (reservation \<Rightarrow> bool) \<Rightarrow> int \<Rightarrow> bool" where
  "landing_ids L ss58 E C cx K i \<longleftrightarrow> (\<exists>r. res_id r = i \<and> K r \<and> may_land L ss58 E C cx r)"

text \<open>Every row of the tables, as the lanes read it, satisfies \<open>K\<close>.\<close>

definition rows_satisfy :: "(reservation \<Rightarrow> bool) \<Rightarrow> tables \<Rightarrow> bool" where
  "rows_satisfy K t = list_all (\<lambda>row. K (row_to_reservation row)) (username_reservations t)"

definition lane_hyps ::
  "tables env \<Rightarrow> (tables \<Rightarrow> bool) \<Rightarrow> (reservation \<Rightarrow> bool) \<Rightarrow> bool \<Rightarrow> bool" where
  "lane_hyps E P K closed \<longleftrightarrow> stable E P \<and> (\<forall>t. P t \<longrightarrow> rows_satisfy K t) \<and> closed"

lemma valid_under:
  assumes "H \<Longrightarrow> valid (on_db P) m (\<lambda>rs w. P (w_db w) \<and> (\<forall>r \<in> set rs. K r)) (\<lambda>_. on_db P)"
  shows "valid (on_db (\<lambda>t. H \<longrightarrow> P t)) m
    (\<lambda>rs w. (H \<longrightarrow> P (w_db w)) \<and> (\<forall>r \<in> set rs. H \<longrightarrow> K r)) (\<lambda>_. on_db (\<lambda>t. H \<longrightarrow> P t))"
  using assms by (cases H) (auto simp: valid_def split: prod.splits sum.splits)

text \<open>A read of rows returns rows of the tables.\<close>

lemma claim_known:
  assumes "stable E P" "\<And>t. P t \<Longrightarrow> rows_satisfy K t" "\<And>now t. snd (st now t) = t"
    and "\<And>now t r. r \<in> set (fst (st now t)) \<Longrightarrow>
      \<exists>row \<in> set (username_reservations t). r = row_to_reservation row"
  shows "valid (on_db P) (sql E st) (\<lambda>rs w. P (w_db w) \<and> (\<forall>r \<in> set rs. K r)) (\<lambda>_. on_db P)"
proof (rule validI)
  fix w rs w'
  assume "P (w_db w)" and run: "sql E st w = (Inr rs, w')"
  let ?t = "e_others E (w_step w) (w_db w)"
  have t: "P ?t" using assms(1) \<open>P (w_db w)\<close> by (simp add: stable_def)
  have w': "w_db w' = ?t" and rs: "rs = fst (st (e_clock E (w_step w)) ?t)"
    using run assms(3) [of "e_clock E (w_step w)" ?t]
    by (auto simp: sql_def Let_def split: option.splits prod.splits)
  show "P (w_db w') \<and> (\<forall>r \<in> set rs. K r)"
    using t assms(2) [OF t] assms(4) w' rs by (fastforce simp: rows_satisfy_def list_all_iff)
next
  fix w e w'
  assume "P (w_db w)" and "sql E st w = (Inl e, w')"
  then show "P (w_db w')"
    using assms(1) by (auto simp: sql_def stable_def Let_def split: option.splits prod.splits)
qed

lemma claims_from_rows:
  "r \<in> set (fst (claim_due n now t)) \<Longrightarrow> \<exists>row \<in> set (username_reservations t). r = row_to_reservation row"
  "r \<in> set (fst (claim_dotns_due n now t)) \<Longrightarrow> \<exists>row \<in> set (username_reservations t). r = row_to_reservation row"
  "r \<in> set (fst (submitting now t)) \<Longrightarrow> \<exists>row \<in> set (username_reservations t). r = row_to_reservation row"
  "r \<in> set (fst (dotns_submitting now t)) \<Longrightarrow> \<exists>row \<in> set (username_reservations t). r = row_to_reservation row"
  by (auto simp: claim_due_def claim_dotns_due_def submitting_def dotns_submitting_def
      set_oldest_first dest!: in_set_takeD)

lemma claims_read [simp]:
  "snd (claim_due n now t) = t" "snd (claim_dotns_due n now t) = t"
  "snd (submitting now t) = t" "snd (dotns_submitting now t) = t"
  by (simp_all add: claim_due_def claim_dotns_due_def submitting_def dotns_submitting_def)

interpretation people_pass: lane_invariant "people_lane ss58 vrfy" ss58 E C cx
  "\<lambda>t. lane_hyps E P K (people_closed cx P (landing_ids (people_lane ss58 vrfy) ss58 E C cx K)) \<longrightarrow> P t"
  "\<lambda>r. lane_hyps E P K (people_closed cx P (landing_ids (people_lane ss58 vrfy) ss58 E C cx K)) \<longrightarrow> K r"
  for ss58 vrfy E C cx P K
proof (unfold_locales; (rule keeps_under | rule valid_under)?)
  let ?J = "landing_ids (people_lane ss58 vrfy) ss58 E C cx K"
  assume hyps: "lane_hyps E P K (people_closed cx P ?J)"
  then have st: "stable E P" and cl: "people_closed cx P ?J" and K: "\<And>t. P t \<Longrightarrow> rows_satisfy K t"
    by (simp_all add: lane_hyps_def)
  note ops = people_ops_keep [OF st cl]
  show "keeps (on_db P) (l_up (people_lane ss58 vrfy) E C l)" for l
    by (auto simp: people_lane_def intro!: prog_intro)
  show "keeps (on_db P) (l_context (people_lane ss58 vrfy) C l)" for l
    by (auto simp: people_lane_def intro!: prog_intro)
  show "valid (on_db P) (sql E (l_claim (people_lane ss58 vrfy) n))
      (\<lambda>rs w. P (w_db w) \<and> (\<forall>r \<in> set rs. K r)) (\<lambda>_. on_db P)" for n
    using claim_known [OF st K] claims_from_rows(1) by (simp add: people_lane_def)
  show "valid (on_db P) (sql E (l_submitting (people_lane ss58 vrfy)))
      (\<lambda>rs w. P (w_db w) \<and> (\<forall>r \<in> set rs. K r)) (\<lambda>_. on_db P)"
    using claim_known [OF st K] claims_from_rows(3) by (simp add: people_lane_def)
  show "keeps (on_db P) (hold E cx)"
    using ops(1) by (rule keeps_hold)
  show "keeps (on_db P) (l_submit_one (people_lane ss58 vrfy) E C cx nonce r candidate)"
    for nonce r candidate
    using ops(1,2) by (auto simp: people_lane_def people_submit_one_def
        intro!: prog_intro keeps_finalize)
  show "keeps (on_db P) (l_submit_batch (people_lane ss58 vrfy) E C cx nonce rows)" for nonce rows
    using ops(1,2) by (auto simp: people_lane_def people_submit_batch_def
        intro!: prog_intro keeps_finalize)
  show "keeps (on_db P) (l_record (people_lane ss58 vrfy) E (cx_guard cx) r outcome)"
    if "lane_hyps E P K (people_closed cx P ?J) \<longrightarrow> K r"
      "outcome = Landed \<or> outcome = Observed \<Longrightarrow> may_land (people_lane ss58 vrfy) ss58 E C cx r"
    for outcome r
    using ops(3) [of outcome r] that hyps by (auto simp: people_lane_def landing_ids_def)
next
  show "l_gate (people_lane ss58 vrfy) r ctx now = Inr candidate \<Longrightarrow>
      ss58 (candidate_account_id r) = Some candidate" for r ctx now candidate
    by (auto simp: people_lane_def people_gate_def parse_candidate_def
        split: option.splits if_splits sum.splits)
qed

interpretation dotns_pass: lane_invariant "dotns_lane ss58 vrfy sc att" ss58 E C cx
  "\<lambda>t. lane_hyps E P K (dotns_closed cx P (landing_ids (dotns_lane ss58 vrfy sc att) ss58 E C cx K)) \<longrightarrow> P t"
  "\<lambda>r. lane_hyps E P K (dotns_closed cx P (landing_ids (dotns_lane ss58 vrfy sc att) ss58 E C cx K)) \<longrightarrow> K r"
  for ss58 vrfy sc att E C cx P K
proof (unfold_locales; (rule keeps_under | rule valid_under)?)
  let ?L = "dotns_lane ss58 vrfy sc att"
  let ?J = "landing_ids ?L ss58 E C cx K"
  assume hyps: "lane_hyps E P K (dotns_closed cx P ?J)"
  then have st: "stable E P" and cl: "dotns_closed cx P ?J" and K: "\<And>t. P t \<Longrightarrow> rows_satisfy K t"
    by (simp_all add: lane_hyps_def)
  note ops = dotns_ops_keep [OF st cl]
  show "keeps (on_db P) (l_up ?L E C l)" for l
    by (auto simp: dotns_lane_def dotns_up_def intro!: prog_intro split: dotns_dial.splits)
  show "keeps (on_db P) (l_context ?L C l)" for l
    by (auto simp: dotns_lane_def dotns_context_def intro!: prog_intro)
  show "valid (on_db P) (sql E (l_claim ?L n))
      (\<lambda>rs w. P (w_db w) \<and> (\<forall>r \<in> set rs. K r)) (\<lambda>_. on_db P)" for n
    using claim_known [OF st K] claims_from_rows(2) by (simp add: dotns_lane_def)
  show "valid (on_db P) (sql E (l_submitting ?L))
      (\<lambda>rs w. P (w_db w) \<and> (\<forall>r \<in> set rs. K r)) (\<lambda>_. on_db P)"
    using claim_known [OF st K] claims_from_rows(4) by (simp add: dotns_lane_def)
  show "keeps (on_db P) (hold E cx)"
    using ops(1) by (rule keeps_hold)
  show "keeps (on_db P) (l_submit_one ?L E C cx nonce r candidate)" for nonce r candidate
    using ops(1,2) by (auto simp: dotns_lane_def dotns_submit_one_def
        intro!: prog_intro keeps_finalize)
  show "keeps (on_db P) (l_submit_batch ?L E C cx nonce rows)" for nonce rows
    using ops(1,2) by (auto simp: dotns_lane_def dotns_submit_batch_def
        intro!: prog_intro keeps_finalize)
  show "keeps (on_db P) (l_record ?L E (cx_guard cx) r outcome)"
    if "lane_hyps E P K (dotns_closed cx P ?J) \<longrightarrow> K r"
      "outcome = Landed \<or> outcome = Observed \<Longrightarrow> may_land ?L ss58 E C cx r" for outcome r
    using ops(3) [of outcome r] that hyps by (auto simp: dotns_lane_def landing_ids_def)
next
  show "l_gate (dotns_lane ss58 vrfy sc att) r ctx now = Inr candidate \<Longrightarrow>
      ss58 (candidate_account_id r) = Some candidate" for r ctx now candidate
    by (auto simp: dotns_lane_def dotns_gate_def parse_candidate_def
        split: option.splits if_splits sum.splits)
qed

end
