(* ===== verification/EngineTheorems.thy ===== *)
theory EngineTheorems
  imports EngineInvariant
begin

text \<open>
  What the writer's passes guarantee, for every behaviour of the chain, the clock, the
  database and the other processes that respects the stated hypotheses: rows land only
  on evidence, a superseded writer writes nothing, keys and device records stay
  consistent, the dotNS lane leaves the People half alone; and what the settling of a
  failed submission and the re-queueing of a failed batch do to each row.
\<close>

section \<open>Row-wise invariants\<close>

lemma list_all_guarded:
  assumes "list_all Q (username_reservations t)" "\<And>r. Q r \<Longrightarrow> r_id r = i \<Longrightarrow> Q (f now r)"
  shows "list_all Q (username_reservations (snd (guarded_update g i f now t)))"
  using assms by (auto simp: snd_guarded_update update_rows_def list_all_iff)

lemma renew_rows [simp]:
  "username_reservations (snd (renew n h e d now t)) = username_reservations t"
  by (rule lease_ops_reservations)

lemma set_status_fields [simp]:
  "r_status (set_status st retry err now r) = st"
  "r_dotns_status (set_status st retry err now r) =
     (if st = FailedTerminal \<and> dotns_open (r_dotns_status r) then Some DotnsAbandoned
      else r_dotns_status r)"
  "r_status (set_dotns_status ds retry err now r) = r_status r"
  "r_dotns_status (set_dotns_status ds retry err now r) = Some ds"
  by (simp_all add: set_status_def set_dotns_status_def Let_def)

section \<open>Landing needs evidence\<close>

definition payloads :: "(int \<Rightarrow> new_reservation option) \<Rightarrow> tables \<Rightarrow> bool" where
  "payloads pay t = list_all (\<lambda>row. pay (r_id row) = Some (r_new row)) (username_reservations t)"

definition landed_ids :: "(reservation_row \<Rightarrow> bool) \<Rightarrow> tables \<Rightarrow> int set" where
  "landed_ids landed t = r_id ` {row \<in> set (username_reservations t). landed row}"

abbreviation assigned_row :: "reservation_row \<Rightarrow> bool" where
  "assigned_row row \<equiv> r_status row = Assigned"

abbreviation dotns_reserved_row :: "reservation_row \<Rightarrow> bool" where
  "dotns_reserved_row row \<equiv> r_dotns_status row = Some DotnsReserved"

text \<open>Other processes neither change a payload nor land a row.\<close>

definition respects_landing ::
  "tables env \<Rightarrow> (int \<Rightarrow> new_reservation option) \<Rightarrow> (reservation_row \<Rightarrow> bool) \<Rightarrow> bool" where
  "respects_landing E pay landed \<longleftrightarrow>
     (\<forall>n t. payloads pay t \<longrightarrow> payloads pay (e_others E n t)) \<and>
     (\<forall>n t. landed_ids landed (e_others E n t) \<subseteq> landed_ids landed t)"

definition from_payload :: "(int \<Rightarrow> new_reservation option) \<Rightarrow> reservation \<Rightarrow> bool" where
  "from_payload pay r \<longleftrightarrow> (\<exists>row. r = row_to_reservation row \<and> pay (r_id row) = Some (r_new row))"

definition landing_inv ::
  "(int \<Rightarrow> new_reservation option) \<Rightarrow> (reservation_row \<Rightarrow> bool) \<Rightarrow> int set \<Rightarrow> (int \<Rightarrow> bool) \<Rightarrow> tables \<Rightarrow> bool" where
  "landing_inv pay landed A J t =
     list_all (\<lambda>row. pay (r_id row) = Some (r_new row) \<and>
       (landed row \<longrightarrow> r_id row \<in> A \<or> J (r_id row))) (username_reservations t)"

lemma landing_inv_alt:
  "landing_inv pay landed A J t \<longleftrightarrow>
     payloads pay t \<and> (\<forall>i \<in> landed_ids landed t. i \<in> A \<or> J i)"
  by (auto simp: landing_inv_def payloads_def landed_ids_def list_all_iff)

lemma landing_inv_stable:
  "respects_landing E pay landed \<Longrightarrow> stable E (landing_inv pay landed A J)"
  unfolding stable_def landing_inv_alt respects_landing_def by blast

lemma landing_inv_known: "landing_inv pay landed A J t \<Longrightarrow> rows_satisfy (from_payload pay) t"
  by (auto simp: landing_inv_def rows_satisfy_def list_all_iff from_payload_def)

lemma landing_inv_devices [simp]:
  "landing_inv pay landed A J (snd (consume_for_reservation i now t)) = landing_inv pay landed A J t"
  "landing_inv pay landed A J (snd (release_for_reservation i now t)) = landing_inv pay landed A J t"
  by (simp_all add: landing_inv_def)

lemma people_landing_closed: "people_closed cx (landing_inv pay assigned_row A J) J"
  unfolding people_closed_def
  by (auto simp: mark_defs landing_inv_def intro!: list_all_guarded)

lemma dotns_landing_closed: "dotns_closed cx (landing_inv pay dotns_reserved_row A J) J"
  unfolding dotns_closed_def
  by (auto simp: mark_defs landing_inv_def intro!: list_all_guarded)

lemma landed_fields:
  "from_payload pay r \<Longrightarrow> pay (res_id r) = Some q \<Longrightarrow>
   full_username r = n_full_username q \<and> candidate_account_id r = n_candidate_account_id q"
  by (auto simp: from_payload_def row_to_reservation_def)

lemma landing_conclusion:
  assumes "landing_inv pay landed A (landing_ids L ss58 E C cx (from_payload pay)) t"
    and "row \<in> set (username_reservations t)" "landed row" "r_id row \<notin> A"
  shows "\<exists>r. res_id r = r_id row \<and> full_username r = r_full_username row \<and>
    candidate_account_id r = n_candidate_account_id (r_new row) \<and> may_land L ss58 E C cx r"
proof -
  have pay: "pay (r_id row) = Some (r_new row)"
    and "landing_ids L ss58 E C cx (from_payload pay) (r_id row)"
    using assms by (auto simp: landing_inv_def list_all_iff)
  then obtain r where r: "res_id r = r_id row" "from_payload pay r" "may_land L ss58 E C cx r"
    by (auto simp: landing_ids_def)
  with pay landed_fields [of pay r "r_new row"] show ?thesis by auto
qed

section \<open>A superseded writer\<close>

definition superseded :: "guard \<Rightarrow> tables \<Rightarrow> bool" where
  "superseded g t \<longleftrightarrow> epoch g < current_epoch (lease_name g) t"

lemma superseded_guard_stale: "superseded g t \<Longrightarrow> \<not> guard_held g now t"
  unfolding superseded_def guard_held_def by (rule wl.superseded_not_held)

lemma superseded_people_closed: "people_closed cx (\<lambda>t. superseded (cx_guard cx) t \<and> P t) J"
  by (auto simp: people_closed_def dest: superseded_guard_stale)

lemma superseded_dotns_closed: "dotns_closed cx (\<lambda>t. superseded (cx_guard cx) t \<and> P t) J"
  by (auto simp: dotns_closed_def dest: superseded_guard_stale)

lemma rows_satisfy_True [simp]: "rows_satisfy (\<lambda>_. True) t"
  by (simp add: rows_satisfy_def list_all_iff)

section \<open>Integrity\<close>

definition integrity :: "tables \<Rightarrow> bool" where
  "integrity t \<longleftrightarrow> reservations_ok t \<and> devices_ok t"

lemma reservations_ok_cong:
  "username_reservations t' = username_reservations t \<Longrightarrow> next_reservation_id t' = next_reservation_id t \<Longrightarrow>
   reservations_ok t' = reservations_ok t"
  by (simp add: reservations_ok_def)

lemma devices_ok_cong:
  assumes "widevine_devices t' = widevine_devices t" "\<And>i. find_row i t' = None \<longleftrightarrow> find_row i t = None"
  shows "devices_ok t' = devices_ok t"
  using assms by (auto simp: devices_ok_def device_ok_def list_all_iff split: option.splits)

lemma integrity_cong:
  assumes "username_reservations t' = username_reservations t" "widevine_devices t' = widevine_devices t"
    "next_reservation_id t' = next_reservation_id t"
  shows "integrity t' = integrity t"
  using reservations_ok_cong [OF assms(1,3)] devices_ok_cong [OF assms(2)] assms(1)
  by (simp add: integrity_def find_row_def)

lemma integrity_renew: "integrity t \<Longrightarrow> integrity (snd (renew n h e d now t))"
  using reservations_ok_cong [of "snd (renew n h e d now t)" t]
    devices_ok_cong [of "snd (renew n h e d now t)" t]
  by (simp add: integrity_def find_row_def)

context row_update
begin

lemma keeps_integrity: "integrity t \<Longrightarrow> integrity (snd (guarded_update g i f now t))"
  using ok [of t] devices_ok_cong [of "snd (guarded_update g i f now t)" t] effect
  by (simp add: integrity_def)

end

lemmas mark_integrity = upd_submitting.keeps_integrity upd_status.keeps_integrity
  upd_dotns_submitting.keeps_integrity upd_dotns_status.keeps_integrity

lemma integrity_device_ops:
  "integrity t \<Longrightarrow> integrity (snd (consume_for_reservation i now t))"
  "integrity t \<Longrightarrow> integrity (snd (release_for_reservation i now t))"
  using consume_ok release_ok by (simp_all add: integrity_def reservations_ok_def)

lemma integrity_people_closed: "people_closed cx integrity J"
  by (simp add: people_closed_def mark_defs integrity_renew integrity_device_ops mark_integrity)

lemma integrity_dotns_closed: "dotns_closed cx integrity J"
  by (simp add: dotns_closed_def mark_defs integrity_renew mark_integrity)

section \<open>From an invariant to a pass\<close>

lemma people_pass_preserves:
  assumes "stable E P" "\<And>t. P t \<Longrightarrow> rows_satisfy K t"
    and "people_closed cx P (landing_ids (people_lane ss58 vrfy) ss58 E C cx K)"
  shows "dkeeps P (pass (people_lane ss58 vrfy) E C cx)"
    "dkeeps P (reconcile_submitting (people_lane ss58 vrfy) ss58 E C cx)"
  using people_pass.pass_keeps [of E P K cx ss58 vrfy C]
    people_pass.reconcile_submitting_keeps [of E P K cx ss58 vrfy C] assms
  by (simp_all add: lane_hyps_def)

lemma dotns_pass_preserves:
  assumes "stable E P" "\<And>t. P t \<Longrightarrow> rows_satisfy K t"
    and "dotns_closed cx P (landing_ids (dotns_lane ss58 vrfy sc att) ss58 E C cx K)"
  shows "dkeeps P (pass (dotns_lane ss58 vrfy sc att) E C cx)"
    "dkeeps P (reconcile_submitting (dotns_lane ss58 vrfy sc att) ss58 E C cx)"
  using dotns_pass.pass_keeps [of E P K cx ss58 vrfy sc att C]
    dotns_pass.reconcile_submitting_keeps [of E P K cx ss58 vrfy sc att C] assms
  by (simp_all add: lane_hyps_def)

lemma landing_inv_start:
  "payloads pay t \<Longrightarrow> landing_inv pay landed (landed_ids landed t) J t"
  by (simp add: landing_inv_alt)

section \<open>A small chain for the witnesses\<close>

text \<open>Alice owns every name; the dotNS context has a wide window.\<close>

definition demo_ss58 :: "string \<Rightarrow> account option" where
  "demo_ss58 s = (if s = ''5Alice'' then Some [1, 2, 3] else None)"

definition demo_chain :: "'ctx \<Rightarrow> 'ctx chain" where
  "demo_chain ctx = \<lparr>c_owners = \<lambda>n names. Inr (\<lambda>_. Some [1, 2, 3]), c_owner = \<lambda>n name. Inr None,
     c_nonce = \<lambda>n. Inr 7, c_sign = \<lambda>n p k. Inr ''0xhash'', c_submit = \<lambda>n h. Inr (),
     c_watch = \<lambda>n. [], c_decode = \<lambda>b. Undecodable ''none'', c_context = \<lambda>n. Inr ctx,
     c_dial = \<lambda>n. Inr (600, 600)\<rparr>"

definition demo_cx :: cx where
  "demo_cx = \<lparr>cx_guard = demo_guard, proxy_for = None, max_attempts = 5, lease_ttl = 30\<rparr>"

definition demo_world :: "tables \<Rightarrow> tables world" where
  "demo_world t = \<lparr>w_db = t, w_step = 0\<rparr>"

text \<open>The reservation of the small database, with keys and a signature of the right length.\<close>

definition signed_new :: new_reservation where
  "signed_new = demo_new\<lparr>n_candidate_signature := replicate 64 0, n_ring_vrf_key := replicate 32 0,
     n_dotns_signature := Some (replicate 64 0)\<rparr>"

definition signed_tables :: tables where
  "signed_tables = snd (insert_reserved signed_new 5 demo_leased)"

definition demo_people_run :: "(writer_error + bool) \<times> tables world \<times> unit drain" where
  "demo_people_run = pass (people_lane demo_ss58 (\<lambda>_ _ _. True)) (quiet 6)
     (demo_chain Plain) demo_cx (demo_world signed_tables, drain_new 8 ())"

definition demo_window :: window where
  "demo_window = \<lparr>window = \<lparr>max_validity_secs = 600, max_future_skew_secs = 600\<rparr>,
     attester = [9], signature_form = Plain\<rparr>"

definition demo_dotns_tables :: tables where
  "demo_dotns_tables = snd (mark_assigned demo_guard 1 5 signed_tables)"

definition demo_dotns_run :: "(writer_error + bool) \<times> tables world \<times> dotns_link drain" where
  "demo_dotns_run = pass (dotns_lane demo_ss58 (\<lambda>_ _ _. True) unary_scale [9]) (quiet 6)
     (demo_chain demo_window) demo_cx (demo_world demo_dotns_tables, drain_new 8 dotns_link_new)"

lemmas prog_defs = bindE_def ret_def throw_def attempt_def map_err_def gets_def modify_def
  sql_quiet remote_def transaction_def tx_sql_def on_world_def get_drain_def modify_drain_def

lemmas run_defs = pass_def bring_up_def triage_def anyhow_def hold_def heartbeat_def now_utc_def
  parse_candidate_def verify_account_signature_def try_array_def guarded_def
  oldest_first_def gate_passed_def row_to_reservation_def
  renew_def mark_defs guarded_update_def update_rows_def set_status_def set_dotns_status_def

lemmas people_run_defs = people_lane_def people_gate_def verify_candidate_signature_def
  people_record_def fenced_tx_def fence_def consume_for_reservation_def claim_due_def due_def

lemmas dotns_run_defs = dotns_lane_def dotns_gate_def check_dotns_submittable_def
  verify_reservation_signature_def dotns_record_def dotns_up_def dotns_context_def dotns_link_new_def
  dial_state_def record_dial_success_def claim_dotns_due_def dotns_due_def lite_base_def
  MAX_LABEL_BYTES_def as_i64_or_max_def sat_i64_def reservation_expired_def unix_timestamp_def

lemmas demo_defs = demo_people_run_def demo_dotns_run_def demo_ss58_def demo_chain_def demo_cx_def
  demo_world_def demo_window_def drain_new_def batch_new_def signed_tables_def signed_new_def
  demo_dotns_tables_def demo_simps

lemma demo_people_lands:
  "list_ex (\<lambda>row. r_status row = Assigned \<and> r_id row = 1)
     (username_reservations (w_db (fst (snd demo_people_run))))"
  by (simp add: demo_defs people_run_defs run_defs prog_defs)

lemma demo_dotns_lands:
  "list_ex (\<lambda>row. r_dotns_status row = Some DotnsReserved \<and> r_id row = 1)
     (username_reservations (w_db (fst (snd demo_dotns_run))))"
  by (simp add: demo_defs dotns_run_defs run_defs prog_defs)

lemma demo_landing_starts:
  "payloads (\<lambda>_. Some signed_new) signed_tables" "landed_ids assigned_row signed_tables = {}"
  "payloads (\<lambda>_. Some signed_new) demo_dotns_tables"
  "landed_ids dotns_reserved_row demo_dotns_tables = {}"
  by (simp_all add: demo_defs payloads_def landed_ids_def run_defs)

lemma respects_quiet: "respects_landing (quiet now) pay landed"
  by (simp add: respects_landing_def)

section \<open>Claims\<close>

text \<open>C1: whatever the chain, the clock, the database and the other processes do, a pass
  of the People lane moves a reservation to ASSIGNED only on evidence for that very row:
  an ownership read that names the row's candidate as the owner of the row's username, or
  a submission of this row that the chain confirmed or refused as already registered (for
  a batch, its own item of a result list as long as the batch). Other processes are
  assumed only to leave the payload of a reservation alone and not to assign rows.\<close>

theorem people_pass_lands_on_evidence:
  assumes "respects_landing E pay assigned_row" "payloads pay (w_db w)"
    and "pass (people_lane ss58 vrfy) E C cx (w, d) = (res, (w', d'))"
    and "row \<in> set (username_reservations (w_db w'))" "r_status row = Assigned"
    and "r_id row \<notin> landed_ids assigned_row (w_db w)"
  shows "\<exists>r. res_id r = r_id row \<and> full_username r = r_full_username row \<and>
    candidate_account_id r = n_candidate_account_id (r_new row) \<and>
    may_land (people_lane ss58 vrfy) ss58 E C cx r"
proof -
  let ?J = "landing_ids (people_lane ss58 vrfy) ss58 E C cx (from_payload pay)"
  let ?P = "landing_inv pay assigned_row (landed_ids assigned_row (w_db w)) ?J"
  have "dkeeps ?P (pass (people_lane ss58 vrfy) E C cx)"
    by (rule people_pass_preserves [OF landing_inv_stable [OF assms(1)] landing_inv_known
        people_landing_closed])
  from keepsD [OF this, of "(w, d)"] have "?P (w_db w')"
    using assms(2,3) by (simp add: landing_inv_start)
  from landing_conclusion [OF this assms(4)] assms(5,6) show ?thesis by simp
qed

theorem people_pass_lands_on_evidence_witness:
  "\<exists>r. res_id r = 1 \<and> full_username r = ''alice.07'' \<and>
    may_land (people_lane demo_ss58 (\<lambda>_ _ _. True)) demo_ss58 (quiet 6) (demo_chain Plain) demo_cx r"
proof -
  obtain res w' d' where run: "demo_people_run = (res, (w', d'))" by (metis prod.collapse)
  have pay: "landing_inv (\<lambda>_. Some signed_new) (\<lambda>_. False) {} (\<lambda>_. False) (w_db w')"
    using run by (simp add: demo_defs people_run_defs run_defs prog_defs landing_inv_def) auto
  obtain row where row: "row \<in> set (username_reservations (w_db w'))" "r_status row = Assigned" "r_id row = 1"
    using demo_people_lands unfolding run list_ex_iff by auto
  then have "r_new row = signed_new"
    using pay by (simp add: landing_inv_def list_all_iff)
  then have "r_full_username row = ''alice.07''" by (simp add: signed_new_def demo_new_def)
  with people_pass_lands_on_evidence [OF respects_quiet, of "\<lambda>_. Some signed_new"
      "demo_world signed_tables" "demo_ss58" "\<lambda>_ _ _. True" 6 "demo_chain Plain" demo_cx
      "drain_new 8 ()" res w' d' row] run row demo_landing_starts
  show ?thesis by (auto simp: demo_people_run_def demo_world_def)
qed

text \<open>the same for the dotNS lane: a name is recorded as reserved on Asset Hub only
  on evidence for that very row.\<close>

theorem dotns_pass_lands_on_evidence:
  assumes "respects_landing E pay dotns_reserved_row" "payloads pay (w_db w)"
    and "pass (dotns_lane ss58 vrfy sc att) E C cx (w, d) = (res, (w', d'))"
    and "row \<in> set (username_reservations (w_db w'))" "r_dotns_status row = Some DotnsReserved"
    and "r_id row \<notin> landed_ids dotns_reserved_row (w_db w)"
  shows "\<exists>r. res_id r = r_id row \<and> full_username r = r_full_username row \<and>
    candidate_account_id r = n_candidate_account_id (r_new row) \<and>
    may_land (dotns_lane ss58 vrfy sc att) ss58 E C cx r"
proof -
  let ?J = "landing_ids (dotns_lane ss58 vrfy sc att) ss58 E C cx (from_payload pay)"
  let ?P = "landing_inv pay dotns_reserved_row (landed_ids dotns_reserved_row (w_db w)) ?J"
  have "dkeeps ?P (pass (dotns_lane ss58 vrfy sc att) E C cx)"
    by (rule dotns_pass_preserves [OF landing_inv_stable [OF assms(1)] landing_inv_known
        dotns_landing_closed])
  from keepsD [OF this, of "(w, d)"] have "?P (w_db w')"
    using assms(2,3) by (simp add: landing_inv_start)
  from landing_conclusion [OF this assms(4)] assms(5,6) show ?thesis by simp
qed

theorem dotns_pass_lands_on_evidence_witness:
  "\<exists>r. res_id r = 1 \<and>
    may_land (dotns_lane demo_ss58 (\<lambda>_ _ _. True) unary_scale [9]) demo_ss58 (quiet 6)
      (demo_chain demo_window) demo_cx r"
proof -
  obtain res w' d' where run: "demo_dotns_run = (res, (w', d'))" by (metis prod.collapse)
  obtain row where row: "row \<in> set (username_reservations (w_db w'))"
      "r_dotns_status row = Some DotnsReserved" "r_id row = 1"
    using demo_dotns_lands unfolding run list_ex_iff by auto
  with dotns_pass_lands_on_evidence [OF respects_quiet, of "\<lambda>_. Some signed_new"
      "demo_world demo_dotns_tables" "demo_ss58" "\<lambda>_ _ _. True" unary_scale "[9]" 6
      "demo_chain demo_window" demo_cx "drain_new 8 dotns_link_new" res w' d' row] run demo_landing_starts
  show ?thesis by (auto simp: demo_dotns_run_def demo_world_def)
qed

text \<open>C2: once another process has taken the lease (its epoch moved past the guard's),
  neither a pass nor a reconciliation of either lane writes anything: every property of
  the tables that the other processes keep is kept.\<close>

theorem superseded_writer_writes_nothing:
  assumes "stable E (\<lambda>t. superseded (cx_guard cx) t \<and> P t)"
  shows "dkeeps (\<lambda>t. superseded (cx_guard cx) t \<and> P t) (pass (people_lane ss58 vrfy) E C cx) \<and>
    dkeeps (\<lambda>t. superseded (cx_guard cx) t \<and> P t)
      (reconcile_submitting (people_lane ss58 vrfy) ss58 E C cx) \<and>
    dkeeps (\<lambda>t. superseded (cx_guard cx) t \<and> P t) (pass (dotns_lane ss58 vrfy sc att) E D cx) \<and>
    dkeeps (\<lambda>t. superseded (cx_guard cx) t \<and> P t)
      (reconcile_submitting (dotns_lane ss58 vrfy sc att) ss58 E D cx)"
  using people_pass_preserves [OF assms rows_satisfy_True superseded_people_closed]
    dotns_pass_preserves [OF assms rows_satisfy_True superseded_dotns_closed] by blast

theorem superseded_writer_writes_nothing_witness:
  "w_db (fst (snd (pass (people_lane demo_ss58 (\<lambda>_ _ _. True)) (quiet 40000000) (demo_chain Plain) demo_cx
     (demo_world (snd (try_acquire ''writer'' ''w2'' 30 40000000 signed_tables)), drain_new 8 ()))))
   = snd (try_acquire ''writer'' ''w2'' 30 40000000 signed_tables)"
proof -
  let ?t = "snd (try_acquire ''writer'' ''w2'' 30 40000000 signed_tables)"
  have "superseded (cx_guard demo_cx) ?t"
    by (simp add: demo_defs superseded_def current_epoch_def)
  moreover have "dkeeps (\<lambda>t. superseded (cx_guard demo_cx) t \<and> t = ?t)
      (pass (people_lane demo_ss58 (\<lambda>_ _ _. True)) (quiet 40000000) (demo_chain Plain) demo_cx)"
    using superseded_writer_writes_nothing [OF stable_quiet, where P = "\<lambda>t. t = ?t"] by simp
  ultimately show ?thesis
    using keepsD by (fastforce simp: demo_world_def)
qed

text \<open>passes and reconciliations of both lanes keep the integrity of the outbox: row
  ids and full usernames stay unique, a device hash has one record, a pending device
  record names a live reservation and a consumed one names none.\<close>

theorem passes_keep_integrity:
  assumes "stable E integrity"
  shows "dkeeps integrity (pass (people_lane ss58 vrfy) E C cx) \<and>
    dkeeps integrity (reconcile_submitting (people_lane ss58 vrfy) ss58 E C cx) \<and>
    dkeeps integrity (pass (dotns_lane ss58 vrfy sc att) E D cx) \<and>
    dkeeps integrity (reconcile_submitting (dotns_lane ss58 vrfy sc att) ss58 E D cx)"
  using people_pass_preserves [OF assms rows_satisfy_True integrity_people_closed]
    dotns_pass_preserves [OF assms rows_satisfy_True integrity_dotns_closed] by blast

theorem passes_keep_integrity_witness:
  "integrity signed_tables \<and> integrity (w_db (fst (snd demo_people_run)))"
proof -
  have start: "integrity signed_tables"
    by (simp add: demo_defs integrity_def reservations_ok_def devices_ok_def)
  have "dkeeps integrity
      (pass (people_lane demo_ss58 (\<lambda>_ _ _. True)) (quiet 6) (demo_chain Plain) demo_cx)"
    using passes_keep_integrity [OF stable_quiet] by blast
  from keepsD [OF this, of "(demo_world signed_tables, drain_new 8 ())"] start show ?thesis
    by (simp add: demo_people_run_def demo_world_def)
qed

end
