(* ===== verification/EngineOutcomes.thy ===== *)
theory EngineOutcomes
  imports EngineTheorems
begin

text \<open>
  What a recorded outcome does to the rows, when no other process interferes: the locale
  \<open>outcome_lane\<close> is a lane whose recording applies a given effect to one row, and carries
  the recording of a list of rows, the re-queueing of a failed batch, the settling of a
  failed submission and the reconciliation of the rows an earlier writer left behind. Both
  lanes are interpretations of it.
\<close>

section \<open>The effect of an outcome\<close>

definition people_effect :: "instant \<Rightarrow> reservation \<Rightarrow> outcome \<Rightarrow> reservation_row \<Rightarrow> reservation_row" where
  "people_effect now r oc =
     (case oc of
        Landed \<Rightarrow> set_status Assigned None None now
      | Observed \<Rightarrow> set_status Assigned None None now
      | Retry reason \<Rightarrow> set_status RetryAfter
          (Some (now + secs (row_backoff (attempt_no r + 1)), attempt_no r + 1)) (Some reason) now
      | Park reason \<Rightarrow> set_status RetryAfter (Some (park_until now, attempt_no r)) (Some reason) now
      | Defer until reason _ \<Rightarrow> set_status RetryAfter (Some (until, attempt_no r)) (Some reason) now
      | Failed reason \<Rightarrow> set_status FailedTerminal None (Some reason) now
      | Expired reason \<Rightarrow> set_status FailedTerminal None (Some reason) now)"

definition dotns_effect :: "instant \<Rightarrow> reservation \<Rightarrow> outcome \<Rightarrow> reservation_row \<Rightarrow> reservation_row" where
  "dotns_effect now r oc =
     (case oc of
        Landed \<Rightarrow> set_dotns_status DotnsReserved None None now
      | Observed \<Rightarrow> set_dotns_status DotnsReserved None None now
      | Retry reason \<Rightarrow> set_dotns_status DotnsRetryAfter
          (Some (now + secs (row_backoff (dotns_attempt r + 1)), dotns_attempt r + 1)) (Some reason) now
      | Park reason \<Rightarrow> set_dotns_status DotnsRetryAfter (Some (park_until now, dotns_attempt r)) (Some reason) now
      | Defer until reason _ \<Rightarrow> set_dotns_status DotnsRetryAfter (Some (until, dotns_attempt r)) (Some reason) now
      | Failed reason \<Rightarrow> set_dotns_status DotnsFailedTerminal None (Some reason) now
      | Expired reason \<Rightarrow> set_dotns_status DotnsExpired None (Some reason) now)"

text \<open>The rows after one row changed by \<open>f\<close>; the writer still holds its lease.\<close>

definition row_recorded ::
  "guard \<Rightarrow> instant \<Rightarrow> int \<Rightarrow> (reservation_row \<Rightarrow> reservation_row) \<Rightarrow> tables \<Rightarrow> tables \<Rightarrow> bool" where
  "row_recorded g now i f t t' \<longleftrightarrow> reservations_ok t' \<and> guard_held g now t' \<and>
     (\<forall>j. find_row j t' = (if j = i then map_option f (find_row j t) else find_row j t))"

definition row_ready :: "guard \<Rightarrow> instant \<Rightarrow> int \<Rightarrow> tables \<Rightarrow> bool" where
  "row_ready g now i t \<longleftrightarrow> reservations_ok t \<and> guard_held g now t \<and> find_row i t \<noteq> None"

context row_update
begin

lemma recorded:
  assumes "row_ready g now i t"
  shows "fst (guarded_update g i f now t) \<and>
    row_recorded g now i (f now) t (snd (guarded_update g i f now t))"
proof -
  have "guard_held g now (snd (guarded_update g i f now t)) = guard_held g now t"
    by (simp add: guarded_update_frame guard_held_def lease_held_def)
  then show ?thesis
    using assms result [of t g i now] effect [of _ g i now t]
    by (simp add: row_ready_def row_recorded_def ok)
qed

end

lemma guarded_quiet:
  assumes "fst (st now (w_db w)) \<and> R (snd (st now (w_db w)))"
  shows "\<exists>w'. guarded (quiet now) p st w = (Inr (), w') \<and> R (w_db w')"
  using assms by (simp add: guarded_def bindE_def map_err_def sql_quiet ret_def)

lemma fenced_tx_quiet:
  assumes "row_ready g now i t" "w_db w = t"
    and "fst (st now t) \<and> row_recorded g now i f t (snd (st now t))"
    and "\<And>t. row_recorded g now i f (w_db w) t \<Longrightarrow> row_recorded g now i f (w_db w) (snd (dev now t))"
  shows "\<exists>w'. fenced_tx (quiet now) g p st dev w = (Inr (), w') \<and> row_recorded g now i f t (w_db w')"
proof -
  obtain t1 where t1: "st now t = (True, t1)" "row_recorded g now i f t t1"
    using assms(3) by (cases "st now t") auto
  obtain x t2 where t2: "dev now t1 = (x, t2)" by fastforce
  then have "row_recorded g now i f t t2" using assms(2) assms(4) [of t1] t1 by simp
  then show ?thesis
    using assms(1,2) t1 t2
    by (simp add: fenced_tx_def transaction_def tx_sql_def bindE_def map_err_def ret_def Let_def
        fence_def row_ready_def guard_held_def)
qed

lemma row_recorded_devices:
  "row_recorded g now i f t (snd (consume_for_reservation j now' t')) = row_recorded g now i f t t'"
  "row_recorded g now i f t (snd (release_for_reservation j now' t')) = row_recorded g now i f t t'"
  by (simp_all add: row_recorded_def reservations_ok_def find_row_def guard_held_def lease_held_def)

lemma people_record_quiet:
  assumes "row_ready g now (res_id r) (w_db w)"
  shows "\<exists>w'. people_record (quiet now) g r oc w = (Inr (), w') \<and>
    row_recorded g now (res_id r) (people_effect now r oc) (w_db w) (w_db w')"
proof -
  note rec = upd_status.recorded [OF assms]
  have landed: "\<exists>w'. fenced_tx (quiet now) g p (mark_assigned g (res_id r))
      (consume_for_reservation (res_id r)) w = (Inr (), w') \<and>
      row_recorded g now (res_id r) (set_status Assigned None None now) (w_db w) (w_db w')" for p
    using rec by (intro fenced_tx_quiet [OF assms]) (simp_all add: mark_defs row_recorded_devices)
  have failed: "\<exists>w'. fenced_tx (quiet now) g p (mark_failed g (res_id r) reason)
      (release_for_reservation (res_id r)) w = (Inr (), w') \<and>
      row_recorded g now (res_id r) (set_status FailedTerminal None (Some reason) now) (w_db w) (w_db w')"
    for p reason
    using rec by (intro fenced_tx_quiet [OF assms]) (simp_all add: mark_defs row_recorded_devices)
  have retry: "\<exists>w'. guarded (quiet now) p (mark_retry g (res_id r) nb a reason) w0 = (Inr (), w') \<and>
      row_recorded g now (res_id r) (set_status RetryAfter (Some (nb, a)) (Some reason) now) (w_db w) (w_db w')"
    if "w_db w0 = w_db w" for p nb a reason w0
    using rec that by (intro guarded_quiet) (simp add: mark_defs)
  show ?thesis
    using landed failed retry
    by (cases oc) (simp_all add: people_record_def people_effect_def Let_def bindE_def now_utc_def remote_def)
qed

lemma dotns_record_quiet:
  assumes "row_ready g now (res_id r) (w_db w)"
  shows "\<exists>w'. dotns_record (quiet now) g r oc w = (Inr (), w') \<and>
    row_recorded g now (res_id r) (dotns_effect now r oc) (w_db w) (w_db w')"
proof -
  have "\<exists>w'. guarded (quiet now) p (guarded_dotns_status g (res_id r) st retry err) w0 = (Inr (), w') \<and>
      row_recorded g now (res_id r) (set_dotns_status st retry err now) (w_db w) (w_db w')"
    if "w_db w0 = w_db w" for p st retry err w0
    using upd_dotns_status.recorded [OF assms] that
    by (intro guarded_quiet) (simp add: guarded_dotns_status_def)
  then show ?thesis
    by (cases oc) (simp_all add: dotns_record_def dotns_effect_def Let_def bindE_def now_utc_def remote_def
        mark_dotns_reserved_def mark_dotns_retry_def mark_dotns_failed_def mark_dotns_expired_def)
qed

section \<open>Lists of rows\<close>

definition rows_ready :: "guard \<Rightarrow> instant \<Rightarrow> reservation list \<Rightarrow> tables \<Rightarrow> bool" where
  "rows_ready g now rs t \<longleftrightarrow> reservations_ok t \<and> guard_held g now t \<and>
     (\<forall>r \<in> set rs. find_row (res_id r) t \<noteq> None)"

definition rows_recorded ::
  "guard \<Rightarrow> instant \<Rightarrow> (reservation \<Rightarrow> reservation_row \<Rightarrow> reservation_row) \<Rightarrow> reservation list \<Rightarrow>
   tables \<Rightarrow> tables \<Rightarrow> bool" where
  "rows_recorded g now h rs t t' \<longleftrightarrow> reservations_ok t' \<and> guard_held g now t' \<and>
     (\<forall>j. find_row j t' = (case find (\<lambda>r. res_id r = j) rs of
        None \<Rightarrow> find_row j t | Some r \<Rightarrow> map_option (h r) (find_row j t)))"

lemma find_absent: "i \<notin> res_id ` set rs \<Longrightarrow> find (\<lambda>q. res_id q = i) rs = None"
  by (auto simp: find_None_iff)

lemma rows_recorded_Cons:
  assumes "row_recorded g now (res_id r) (h r) t t1" "rows_recorded g now h rs t1 t'"
    and "res_id r \<notin> res_id ` set rs"
  shows "rows_recorded g now h (r # rs) t t'"
proof -
  have "find_row j t' = (case find (\<lambda>q. res_id q = j) (r # rs) of
      None \<Rightarrow> find_row j t | Some q \<Rightarrow> map_option (h q) (find_row j t))" for j
  proof (cases "res_id r = j")
    case True
    then have "find (\<lambda>q. res_id q = j) rs = None" using find_absent [OF assms(3)] by simp
    then show ?thesis using assms(1,2) True by (simp add: row_recorded_def rows_recorded_def)
  next
    case False
    then have "find_row j t1 = find_row j t" using assms(1) by (auto simp: row_recorded_def)
    then show ?thesis using False assms(2) by (simp add: rows_recorded_def split: option.split)
  qed
  then show ?thesis using assms(2) by (simp add: rows_recorded_def)
qed

lemma forE_records:
  assumes "\<And>r w. r \<in> set rs \<Longrightarrow> row_ready g now (res_id r) (w_db w) \<Longrightarrow>
      \<exists>w'. m r w = (Inr (), w') \<and> row_recorded g now (res_id r) (h r) (w_db w) (w_db w')"
    and "distinct (map res_id rs)" "rows_ready g now rs (w_db w)"
  shows "\<exists>w'. forE m rs w = (Inr (), w') \<and> rows_recorded g now h rs (w_db w) (w_db w')"
  using assms
proof (induction rs arbitrary: w)
  case Nil
  then show ?case by (simp add: ret_def rows_ready_def rows_recorded_def)
next
  case (Cons r rs)
  have "row_ready g now (res_id r) (w_db w)" using Cons.prems(3) by (simp add: rows_ready_def row_ready_def)
  then obtain w1 where w1: "m r w = (Inr (), w1)"
      and rec: "row_recorded g now (res_id r) (h r) (w_db w) (w_db w1)"
    using Cons.prems(1) [of r w] by auto
  have fresh: "distinct (map res_id rs)" "res_id r \<notin> res_id ` set rs" using Cons.prems(2) by simp_all
  have "rows_ready g now rs (w_db w1)"
    using rec Cons.prems(3) by (simp add: rows_ready_def row_recorded_def)
  then have "\<exists>w'. forE m rs w1 = (Inr (), w') \<and> rows_recorded g now h rs (w_db w1) (w_db w')"
    by (intro Cons.IH Cons.prems(1) fresh(1)) simp_all
  then obtain w' where w': "forE m rs w1 = (Inr (), w')"
      and all: "rows_recorded g now h rs (w_db w1) (w_db w')" by blast
  with w1 rows_recorded_Cons [OF rec all fresh(2)] show ?case by (simp add: bindE_def)
qed

section \<open>Rows in flight\<close>

definition in_flight_ids :: "(reservation_row \<Rightarrow> bool) \<Rightarrow> tables \<Rightarrow> int set" where
  "in_flight_ids fl t = {j. \<exists>row. find_row j t = Some row \<and> fl row}"

text \<open>The rows \<open>S\<close> left flight; no other row changed, none appeared or vanished.\<close>

definition resolves ::
  "(reservation_row \<Rightarrow> bool) \<Rightarrow> guard \<Rightarrow> instant \<Rightarrow> int set \<Rightarrow> tables \<Rightarrow> tables \<Rightarrow> bool" where
  "resolves fl g now S t t' \<longleftrightarrow> reservations_ok t' \<and> guard_held g now t' \<and>
     in_flight_ids fl t' = in_flight_ids fl t - S \<and>
     (\<forall>j. j \<notin> S \<longrightarrow> find_row j t' = find_row j t) \<and>
     (\<forall>j. (find_row j t' = None) = (find_row j t = None))"

lemma resolves_refl: "reservations_ok t \<Longrightarrow> guard_held g now t \<Longrightarrow> resolves fl g now {} t t"
  by (simp add: resolves_def)

lemma resolves_trans:
  "resolves fl g now A t t1 \<Longrightarrow> resolves fl g now B t1 t2 \<Longrightarrow> resolves fl g now (A \<union> B) t t2"
  by (auto simp: resolves_def)

lemma recorded_resolves:
  assumes "row_recorded g now i f t t'" "\<And>row. \<not> fl (f row)"
  shows "resolves fl g now {i} t t'"
  using assms by (auto simp: row_recorded_def resolves_def in_flight_ids_def split: if_splits)

lemma resolves_ready:
  "resolves fl g now S t t' \<Longrightarrow> rows_ready g now rs t \<Longrightarrow> rows_ready g now rs t'"
  by (simp add: resolves_def rows_ready_def)

lemma rows_ready_row: "rows_ready g now rs t \<Longrightarrow> r \<in> set rs \<Longrightarrow> row_ready g now (res_id r) t"
  by (simp add: rows_ready_def row_ready_def)

lemma rows_ready_mono: "rows_ready g now rs t \<Longrightarrow> set qs \<subseteq> set rs \<Longrightarrow> rows_ready g now qs t"
  by (auto simp: rows_ready_def)

lemma in_flight_row:
  assumes "reservations_ok t"
  shows "in_flight_ids fl t = r_id ` {row \<in> set (username_reservations t). fl row}"
proof -
  have "distinct (map r_id (username_reservations t))" using assms by (simp add: reservations_ok_def)
  from find_row_unique [OF this] show ?thesis
    by (auto simp: in_flight_ids_def image_iff dest: find_row_SomeD)
qed

lemma forE_resolves:
  assumes "\<And>x w. x \<in> set xs \<Longrightarrow> row_ready g now (idf x) (w_db w) \<Longrightarrow>
      \<exists>w'. m x w = (Inr (), w') \<and> resolves fl g now {idf x} (w_db w) (w_db w')"
    and "reservations_ok (w_db w)" "guard_held g now (w_db w)"
    "\<And>x. x \<in> set xs \<Longrightarrow> find_row (idf x) (w_db w) \<noteq> None"
  shows "\<exists>w'. forE m xs w = (Inr (), w') \<and> resolves fl g now (idf ` set xs) (w_db w) (w_db w')"
  using assms
proof (induction xs arbitrary: w)
  case Nil
  then show ?case by (simp add: ret_def resolves_refl)
next
  case (Cons x xs)
  obtain w1 where w1: "m x w = (Inr (), w1)" "resolves fl g now {idf x} (w_db w) (w_db w1)"
    using Cons.prems(1) [of x w] Cons.prems(2-4) by (auto simp: row_ready_def)
  have "\<exists>w'. forE m xs w1 = (Inr (), w') \<and> resolves fl g now (idf ` set xs) (w_db w1) (w_db w')"
    using w1(2) Cons.prems by (intro Cons.IH) (auto simp: resolves_def)
  then obtain w' where "forE m xs w1 = (Inr (), w')" "resolves fl g now (idf ` set xs) (w_db w1) (w_db w')"
    by blast
  with w1 resolves_trans [OF w1(2)] show ?case by (auto simp: bindE_def)
qed

lemma set_chunks: "0 < n \<Longrightarrow> \<Union> (set ` set (chunks n xs)) = set xs"
proof (induction n xs rule: chunks.induct)
  case (1 n xs)
  show ?case
  proof (cases "xs = []")
    case False
    then have "\<Union> (set ` set (chunks n xs)) = set (take n xs) \<union> set (drop n xs)"
      using 1 by (subst chunks.simps) simp
    then show ?thesis by (metis append_take_drop_id set_append)
  qed (simp add: chunks.simps)
qed

section \<open>Lanes whose outcomes have an effect on one row\<close>

definition settle_outcome ::
  "('ctx, 'l) lane \<Rightarrow> cx \<Rightarrow> instant \<Rightarrow> reservation \<Rightarrow> account \<Rightarrow> account option \<Rightarrow> string \<Rightarrow> outcome" where
  "settle_outcome L cx now r c observed reason =
     (case classify_submit_failure reason observed c (l_attempt L r + 1) (max_attempts cx) of
        Assign \<Rightarrow> Landed | ParkRow \<Rightarrow> Park reason | RetryRow \<Rightarrow> Retry reason
      | DeferRow \<Rightarrow> signer_defer now reason | Fail \<Rightarrow> Failed (terminal_reason reason))"

locale outcome_lane =
  fixes L :: "('ctx, 'l) lane"
    and eff :: "instant \<Rightarrow> reservation \<Rightarrow> outcome \<Rightarrow> reservation_row \<Rightarrow> reservation_row"
    and fl :: "reservation_row \<Rightarrow> bool"
  assumes record_quiet: "row_ready g now (res_id r) (w_db w) \<Longrightarrow>
      \<exists>w'. l_record L (quiet now) g r oc w = (Inr (), w') \<and>
        row_recorded g now (res_id r) (eff now r oc) (w_db w) (w_db w')"
    and leaves_flight: "\<not> fl (eff now r oc row)"
    and submitting_reads: "snd (l_submitting L now t) = t"
    and submitting_rows: "set (fst (l_submitting L now t)) =
      row_to_reservation ` {row \<in> set (username_reservations t). fl row}"
begin

lemma defer_rows_quiet:
  assumes "distinct (map res_id rs)" "rows_ready (cx_guard cx) now rs (w_db w)"
  shows "\<exists>w'. defer_rows L (quiet now) cx rs backoff reason w = (Inr (), w') \<and>
    rows_recorded (cx_guard cx) now
      (\<lambda>r. eff now r (Defer (now + secs backoff) reason DeferBatch)) rs (w_db w) (w_db w')"
  using forE_records [OF record_quiet assms(1), of "cx_guard cx" now
      "w\<lparr>w_step := Suc (w_step w)\<rparr>"] assms(2)
  by (simp add: defer_rows_def bindE_def now_utc_def remote_def)

lemma retry_batch_quiet:
  assumes "distinct (map res_id rs)" "rows_ready (cx_guard cx) now rs (w_db w)"
    and "batch_failed (d_batch d) = (b, backoff)"
  shows "\<exists>w'. retry_batch L (quiet now) cx rs reason (w, d) = (Inr (), (w', d\<lparr>d_batch := b\<rparr>)) \<and>
    rows_recorded (cx_guard cx) now
      (\<lambda>r. eff now r (Defer (now + secs backoff) reason DeferBatch)) rs (w_db w) (w_db w')"
  using defer_rows_quiet [OF assms(1,2), of backoff reason] assms(3)
  by (auto simp: retry_batch_def bindE_def get_drain_def gets_def modify_drain_def modify_def on_world_def)

lemma settle_quiet:
  assumes "row_ready (cx_guard cx) now (res_id r) (w_db w)"
  shows "\<exists>w'. settle L (quiet now) cx r c observed reason w = (Inr (), w') \<and>
    row_recorded (cx_guard cx) now (res_id r) (eff now r (settle_outcome L cx now r c observed reason))
      (w_db w) (w_db w')"
  using record_quiet [OF assms] record_quiet [of "cx_guard cx" now r "w\<lparr>w_step := Suc (w_step w)\<rparr>"] assms
  by (cases "classify_submit_failure reason observed c (l_attempt L r + 1) (max_attempts cx)")
     (simp_all add: settle_def settle_outcome_def bindE_def now_utc_def remote_def)

lemma record_resolves:
  "row_ready g now (res_id r) (w_db w) \<Longrightarrow>
   \<exists>w'. l_record L (quiet now) g r oc w = (Inr (), w') \<and> resolves fl g now {res_id r} (w_db w) (w_db w')"
  using record_quiet recorded_resolves leaves_flight by metis

lemma parse_stuck_resolves:
  assumes "rows_ready (cx_guard cx) now rs (w_db w)"
  shows "\<exists>parsed w' S. parse_stuck L ss58 (quiet now) cx rs w = (Inr parsed, w') \<and>
    resolves fl (cx_guard cx) now S (w_db w) (w_db w') \<and>
    fst ` set parsed \<subseteq> set rs \<and> res_id ` set rs \<subseteq> S \<union> res_id ` fst ` set parsed \<and> S \<subseteq> res_id ` set rs"
  using assms
proof (induction rs arbitrary: w)
  case Nil
  then show ?case
    using resolves_refl by (fastforce simp: ret_def rows_ready_def)
next
  case (Cons r rs)
  have rest: "rows_ready (cx_guard cx) now rs (w_db w)" using Cons.prems by (auto simp: rows_ready_def)
  show ?case
  proof (cases "parse_candidate ss58 r")
    case (Inr c)
    obtain parsed w' S where IH: "parse_stuck L ss58 (quiet now) cx rs w = (Inr parsed, w')"
      "resolves fl (cx_guard cx) now S (w_db w) (w_db w')" "fst ` set parsed \<subseteq> set rs"
      "res_id ` set rs \<subseteq> S \<union> res_id ` fst ` set parsed" "S \<subseteq> res_id ` set rs"
      using Cons.IH [OF rest] by blast
    then show ?thesis
      using Inr by (intro exI [of _ "(r, c) # parsed"] exI [of _ w'] exI [of _ S])
        (auto simp: bindE_def ret_def)
  next
    case (Inl e)
    obtain w1 where w1: "l_record L (quiet now) (cx_guard cx) r (gate_outcome e) w = (Inr (), w1)"
      "resolves fl (cx_guard cx) now {res_id r} (w_db w) (w_db w1)"
      using record_resolves rows_ready_row [OF Cons.prems] by (metis list.set_intros(1))
    obtain parsed w' S where IH: "parse_stuck L ss58 (quiet now) cx rs w1 = (Inr parsed, w')"
      "resolves fl (cx_guard cx) now S (w_db w1) (w_db w')" "fst ` set parsed \<subseteq> set rs"
      "res_id ` set rs \<subseteq> S \<union> res_id ` fst ` set parsed" "S \<subseteq> res_id ` set rs"
      using Cons.IH [OF resolves_ready [OF w1(2) rest]] by blast
    then show ?thesis
      using Inl w1 resolves_trans [OF w1(2) IH(2)]
      by (intro exI [of _ parsed] exI [of _ w'] exI [of _ "{res_id r} \<union> S"]) (auto simp: bindE_def)
  qed
qed

lemma reconcile_chunk_resolves:
  assumes "\<And>n names. \<exists>owners. c_owners C n names = Inr owners"
    and "rows_ready (cx_guard cx) now (map fst chunk) (w_db w)"
  shows "\<exists>w'. reconcile_chunk L (quiet now) C cx chunk w = (Inr 0, w') \<and>
    resolves fl (cx_guard cx) now (res_id ` fst ` set chunk) (w_db w) (w_db w')"
proof -
  let ?w = "w\<lparr>w_step := Suc (w_step w)\<rparr>"
  obtain owners where owners: "c_owners C (w_step w) (map (\<lambda>(r, _). full_username r) chunk) = Inr owners"
    using assms(1) by blast
  let ?m = "\<lambda>(r, candidate). l_record L (quiet now) (cx_guard cx) r
      (if owners (full_username r) = Some candidate then Observed else Retry (RECONCILED L))"
  have "\<exists>w'. forE ?m chunk ?w = (Inr (), w') \<and>
      resolves fl (cx_guard cx) now ((res_id \<circ> fst) ` set chunk) (w_db ?w) (w_db w')"
  proof (rule forE_resolves)
    fix x :: "reservation \<times> account" and v :: "tables world"
    assume "row_ready (cx_guard cx) now ((res_id \<circ> fst) x) (w_db v)"
    then show "\<exists>w'. ?m x v = (Inr (), w') \<and>
        resolves fl (cx_guard cx) now {(res_id \<circ> fst) x} (w_db v) (w_db w')"
      using record_resolves [of "cx_guard cx" now "fst x" v] by (simp add: split_beta)
  qed (use assms(2) in \<open>auto simp: rows_ready_def\<close>)
  then show ?thesis
    using owners by (auto simp: reconcile_chunk_def bindE_def attempt_def remote_def ret_def image_comp)
qed

lemma reconcile_chunks_resolve:
  assumes "\<And>n names. \<exists>owners. c_owners C n names = Inr owners"
    and "\<forall>chunk \<in> set cs. rows_ready (cx_guard cx) now (map fst chunk) (w_db w)"
    and "reservations_ok (w_db w)" "guard_held (cx_guard cx) now (w_db w)"
  shows "\<exists>w'. mapE (reconcile_chunk L (quiet now) C cx) cs w = (Inr (replicate (length cs) 0), w') \<and>
    resolves fl (cx_guard cx) now (res_id ` fst ` \<Union> (set ` set cs)) (w_db w) (w_db w')"
  using assms(2-4)
proof (induction cs arbitrary: w)
  case Nil
  then show ?case by (simp add: ret_def resolves_refl)
next
  case (Cons c cs)
  obtain w1 where w1: "reconcile_chunk L (quiet now) C cx c w = (Inr 0, w1)"
      "resolves fl (cx_guard cx) now (res_id ` fst ` set c) (w_db w) (w_db w1)"
    using reconcile_chunk_resolves [OF assms(1), of cx now c w] Cons.prems(1) by auto
  have "\<exists>w'. mapE (reconcile_chunk L (quiet now) C cx) cs w1 = (Inr (replicate (length cs) 0), w') \<and>
    resolves fl (cx_guard cx) now (res_id ` fst ` \<Union> (set ` set cs)) (w_db w1) (w_db w')"
    by (rule Cons.IH) (use w1(2) Cons.prems(1) resolves_ready [OF w1(2)] in \<open>simp_all add: resolves_def\<close>)
  then obtain w' where w': "mapE (reconcile_chunk L (quiet now) C cx) cs w1 = (Inr (replicate (length cs) 0), w')"
    "resolves fl (cx_guard cx) now (res_id ` fst ` \<Union> (set ` set cs)) (w_db w1) (w_db w')" by blast
  show ?case
    using w1 w' resolves_trans [OF w1(2) w'(2)] by (simp add: bindE_def ret_def image_Un)
qed

lemma reconcile_resolves:
  assumes "\<And>n names. \<exists>owners. c_owners C n names = Inr owners"
    and up: "l_up L (quiet now) C (d_link d) w = (Inr (True, l), w0)" "w_db w0 = w_db w"
    and ok: "reservations_ok (w_db w)" "guard_held (cx_guard cx) now (w_db w)"
  shows "\<exists>w'. reconcile_submitting L ss58 (quiet now) C cx (w, d) = (Inr (), (w', d\<lparr>d_link := l\<rparr>)) \<and>
    resolves fl (cx_guard cx) now (in_flight_ids fl (w_db w)) (w_db w) (w_db w')"
proof -
  let ?rs = "fst (l_submitting L now (w_db w))" and ?w1 = "w0\<lparr>w_step := Suc (w_step w0)\<rparr>"
  have ids: "res_id ` set ?rs = in_flight_ids fl (w_db w)"
    by (simp add: submitting_rows in_flight_row [OF ok(1)] image_comp comp_def row_to_reservation_def)
  have ready: "rows_ready (cx_guard cx) now ?rs (w_db ?w1)"
    using ok up(2) ids by (auto simp: rows_ready_def in_flight_ids_def set_eq_iff image_iff)
  obtain parsed w2 S where parsed: "parse_stuck L ss58 (quiet now) cx ?rs ?w1 = (Inr parsed, w2)"
    and S: "resolves fl (cx_guard cx) now S (w_db w) (w_db w2)" "fst ` set parsed \<subseteq> set ?rs"
      "res_id ` set ?rs \<subseteq> S \<union> res_id ` fst ` set parsed" "S \<subseteq> res_id ` set ?rs"
    using parse_stuck_resolves [OF ready, of ss58] up(2) by auto
  let ?cs = "chunks RECONCILE_READ_CHUNK parsed"
  have chunks: "\<Union> (set ` set ?cs) = set parsed" by (rule set_chunks) (simp add: RECONCILE_READ_CHUNK_def)
  have held2: "reservations_ok (w_db w2)" "guard_held (cx_guard cx) now (w_db w2)"
    using S(1) by (simp_all add: resolves_def)
  have ready2: "rows_ready (cx_guard cx) now ?rs (w_db w2)"
    by (rule resolves_ready [OF S(1)]) (use ready up(2) in simp)
  have "rows_ready (cx_guard cx) now (map fst chunk) (w_db w2)" if "chunk \<in> set ?cs" for chunk
  proof (rule rows_ready_mono [OF ready2])
    have "set chunk \<subseteq> set parsed" unfolding chunks [symmetric] using that by (rule Union_upper [OF imageI])
    then have "fst ` set chunk \<subseteq> fst ` set parsed" by (rule image_mono)
    then show "set (map fst chunk) \<subseteq> set ?rs" unfolding set_map using S(2) by (rule subset_trans)
  qed
  then obtain w' where w': "mapE (reconcile_chunk L (quiet now) C cx) ?cs w2 = (Inr (replicate (length ?cs) 0), w')"
    "resolves fl (cx_guard cx) now (res_id ` fst ` set parsed) (w_db w2) (w_db w')"
    using reconcile_chunks_resolve [OF assms(1), of ?cs cx now w2] held2 unfolding chunks by blast
  have "S \<union> res_id ` fst ` set parsed = in_flight_ids fl (w_db w)"
    unfolding ids [symmetric] using S(3,4) image_mono [OF S(2), of res_id] by (intro equalityI Un_least)
  with resolves_trans [OF S(1) w'(2)]
  have "resolves fl (cx_guard cx) now (in_flight_ids fl (w_db w)) (w_db w) (w_db w')" by simp
  moreover have "reconcile_submitting L ss58 (quiet now) C cx (w, d) = (Inr (), (w', d\<lparr>d_link := l\<rparr>))"
    using up parsed w'(1) submitting_reads
    by (simp add: reconcile_submitting_def bring_up_def bindE_def get_drain_def gets_def on_world_def
        modify_drain_def modify_def ret_def map_err_def sql_quiet sum_list_replicate)
  ultimately show ?thesis by blast
qed

end

lemma effects_leave_flight:
  "r_status (people_effect now r oc row) \<noteq> Submitting"
  "r_dotns_status (dotns_effect now r oc row) \<noteq> Some DotnsSubmitting"
  by (cases oc; simp add: people_effect_def dotns_effect_def)+

lemma submitting_sets:
  "set (fst (submitting now t)) = row_to_reservation ` {row \<in> set (username_reservations t). r_status row = Submitting}"
  "set (fst (dotns_submitting now t)) =
     row_to_reservation ` {row \<in> set (username_reservations t). r_dotns_status row = Some DotnsSubmitting}"
  by (simp_all add: submitting_def dotns_submitting_def set_oldest_first)

lemma lane_fields:
  "l_record (people_lane ss58 vrfy) = people_record" "l_submitting (people_lane ss58 vrfy) = submitting"
  "l_attempt (people_lane ss58 vrfy) = attempt_no"
  "l_record (dotns_lane ss58 vrfy sc att) = dotns_record"
  "l_submitting (dotns_lane ss58 vrfy sc att) = dotns_submitting"
  "l_attempt (dotns_lane ss58 vrfy sc att) = dotns_attempt"
  by (simp_all only: people_lane_def dotns_lane_def lane.select_convs)

interpretation people_outcomes: outcome_lane "people_lane ss58 vrfy" people_effect
  "\<lambda>row. r_status row = Submitting" for ss58 vrfy
  unfolding outcome_lane_def lane_fields
  by (intro conjI allI impI people_record_quiet effects_leave_flight submitting_sets claims_read) assumption

interpretation dotns_outcomes: outcome_lane "dotns_lane ss58 vrfy sc att" dotns_effect
  "\<lambda>row. r_dotns_status row = Some DotnsSubmitting" for ss58 vrfy sc att
  unfolding outcome_lane_def lane_fields
  by (intro conjI allI impI dotns_record_quiet effects_leave_flight submitting_sets claims_read) assumption

section \<open>Claims\<close>

lemma recorded_row:
  "row_recorded g now i f t t' \<Longrightarrow> find_row i t = Some row \<Longrightarrow> find_row i t' = Some (f row)"
  by (simp add: row_recorded_def)

lemma resolves_clear:
  assumes "resolves fl g now (in_flight_ids fl t) t t'" "find_row j t' = Some row"
  shows "\<not> fl row \<and> (find_row j t = Some row \<or> (\<exists>old. find_row j t = Some old \<and> fl old))"
proof (cases "j \<in> in_flight_ids fl t")
  case True
  then have "\<exists>old. find_row j t = Some old \<and> fl old" by (simp add: in_flight_ids_def)
  moreover have "j \<notin> in_flight_ids fl t'" using assms(1) True by (simp add: resolves_def)
  ultimately show ?thesis using assms(2) by (simp add: in_flight_ids_def)
next
  case False
  then have "find_row j t = Some row" using assms by (simp add: resolves_def)
  with False show ?thesis by (simp add: in_flight_ids_def)
qed

lemma spec2: "\<forall>x y. P x y \<Longrightarrow> P x y"
  by blast

definition demo_claimed :: reservation where
  "demo_claimed = row_to_reservation (hd (username_reservations demo_tables))"

lemma demo_claimed_ready:
  "row_ready demo_guard 6 (res_id demo_claimed) demo_tables" "res_id demo_claimed = 1"
  "attempt_no demo_claimed = 0"
  using demo_ok(1) demo_held
  by (simp_all add: demo_claimed_def row_ready_def find_row_def row_to_reservation_def demo_simps)

text \<open>re-queueing a failed batch spends no attempt. When the whole batch failed, every
  row of it waits out the lane's backoff at the attempt number it was claimed with and keeps
  the reason; rows outside the batch are untouched, and the lane remembers the smaller size.\<close>

theorem retry_batch_spends_nothing:
  assumes "distinct (map res_id rs)" "rows_ready (cx_guard cx) now rs (w_db w)"
    and "batch_failed (d_batch d) = (b, backoff)"
  shows "\<exists>w'. retry_batch (people_lane ss58 vrfy) (quiet now) cx rs reason (w, d) =
      (Inr (), (w', d\<lparr>d_batch := b\<rparr>)) \<and>
    (\<forall>r \<in> set rs. \<exists>row. find_row (res_id r) (w_db w') = Some row \<and> r_status row = RetryAfter \<and>
       r_attempt row = attempt_no r \<and> r_not_before row = Some (now + secs backoff) \<and>
       r_last_error row = Some reason) \<and>
    (\<forall>j. j \<notin> res_id ` set rs \<longrightarrow> find_row j (w_db w') = find_row j (w_db w))"
proof -
  obtain w' where run: "retry_batch (people_lane ss58 vrfy) (quiet now) cx rs reason (w, d) =
      (Inr (), (w', d\<lparr>d_batch := b\<rparr>))"
    and rec: "rows_recorded (cx_guard cx) now
      (\<lambda>r. people_effect now r (Defer (now + secs backoff) reason DeferBatch)) rs (w_db w) (w_db w')"
    using people_outcomes.retry_batch_quiet [OF assms, of ss58 vrfy reason] by blast
  have "\<exists>row. find_row (res_id r) (w_db w') = Some row \<and> r_status row = RetryAfter \<and>
      r_attempt row = attempt_no r \<and> r_not_before row = Some (now + secs backoff) \<and>
      r_last_error row = Some reason" if "r \<in> set rs" for r
  proof -
    obtain row where row: "find_row (res_id r) (w_db w) = Some row"
      using assms(2) \<open>r \<in> set rs\<close> by (auto simp: rows_ready_def)
    have "find (\<lambda>q. res_id q = res_id r) rs = Some r"
      using assms(1) \<open>r \<in> set rs\<close> by (induction rs) auto
    with rec row have "find_row (res_id r) (w_db w') =
        Some (people_effect now r (Defer (now + secs backoff) reason DeferBatch) row)"
      by (simp add: rows_recorded_def)
    then show ?thesis by (simp add: people_effect_def set_status_def Let_def coalesce_def)
  qed
  moreover have "find_row j (w_db w') = find_row j (w_db w)" if "j \<notin> res_id ` set rs" for j
    using rec find_absent [OF that] by (simp add: rows_recorded_def)
  ultimately show ?thesis using run by blast
qed

theorem retry_batch_spends_nothing_witness:
  "\<exists>w'. retry_batch (people_lane demo_ss58 (\<lambda>_ _ _. True)) (quiet 6) demo_cx [demo_claimed] ''down''
      (demo_world demo_tables, drain_new 8 ()) = (Inr (), (w', drain_new 8 ()\<lparr>d_batch := fst (batch_failed (batch_new 8))\<rparr>)) \<and>
    (\<exists>row. find_row 1 (w_db w') = Some row \<and> r_status row = RetryAfter \<and> r_attempt row = 0)"
proof -
  have "rows_ready (cx_guard demo_cx) 6 [demo_claimed] (w_db (demo_world demo_tables))"
    using demo_claimed_ready(1) by (simp add: rows_ready_def row_ready_def demo_cx_def demo_world_def)
  from retry_batch_spends_nothing [OF _ this, of "drain_new 8 ()" "fst (batch_failed (batch_new 8))"
      "snd (batch_failed (batch_new 8))" demo_ss58 "\<lambda>_ _ _. True" "''down''"]
  show ?thesis using demo_claimed_ready(2,3) by (auto simp: drain_new_def)
qed





text \<open>the error text outranks the ownership read. A failure whose text names
  \<open>PeopleLite::AlreadyRegistered\<close> assigns the row even when the chain was just read and shows
  the username in the hands of another account.\<close>

theorem already_registered_text_overrides_owner:
  assumes "contains_str reason ALREADY_REGISTERED" "owner \<noteq> c"
    and "row_ready (cx_guard cx) now (res_id r) (w_db w)"
  shows "\<exists>w' row. settle (people_lane ss58 vrfy) (quiet now) cx r c (Some owner) reason w = (Inr (), w') \<and>
    find_row (res_id r) (w_db w') = Some row \<and> r_status row = Assigned"
proof -
  have oc: "settle_outcome (people_lane ss58 vrfy) cx now r c (Some owner) reason = Landed"
    using assms(1) by (simp add: settle_outcome_def classify_submit_failure_def)
  obtain row where row: "find_row (res_id r) (w_db w) = Some row" using assms(3) by (auto simp: row_ready_def)
  show ?thesis
    using people_outcomes.settle_quiet [OF assms(3), of ss58 vrfy c "Some owner" reason] recorded_row [OF _ row]
    unfolding oc by (fastforce simp: people_effect_def)
qed

theorem already_registered_text_overrides_owner_witness:
  "\<exists>w' row. settle (people_lane demo_ss58 (\<lambda>_ _ _. True)) (quiet 6) demo_cx demo_claimed [1, 2, 3] (Some [4])
      ''Module error PeopleLite::AlreadyRegistered'' (demo_world demo_tables) = (Inr (), w') \<and>
    find_row 1 (w_db w') = Some row \<and> r_status row = Assigned"
proof -
  have "row_ready (cx_guard demo_cx) 6 (res_id demo_claimed) (w_db (demo_world demo_tables))"
    using demo_claimed_ready(1) by (simp add: demo_cx_def demo_world_def)
  from already_registered_text_overrides_owner [OF _ _ this, of "''Module error PeopleLite::AlreadyRegistered''" "[4]" "[1, 2, 3]"]
  show ?thesis using demo_claimed_ready(2) by (simp add: ALREADY_REGISTERED_def)
qed

end
