(* ===== verification/Writer.thy ===== *)
theory Writer
  imports Env Queue EngineOutcomes
begin

text \<open>
  The chain writer as a process (\<open>chain/writer.rs\<close>, \<open>writer/passes.rs\<close>,
  \<open>writer/observe.rs\<close>): it waits for the lease, reconciles what an earlier writer left, and then
  alternates heartbeats, periodic work and one pass of each lane until the lease is lost. The
  loops take fuel: a run of \<open>n\<close> rounds that comes back is a prefix of a run that is still going,
  and what is shown of it holds for every fuel. Metrics and log lines are left out; the
  low-resource warnings are returned as values.
\<close>

section \<open>Periodic work\<close>

record ticker =
  tk_every :: u64
  tk_last :: "instant option"

definition ticker_new :: "u64 \<Rightarrow> ticker" where
  "ticker_new e = \<lparr>tk_every = e, tk_last = None\<rparr>"

text \<open>\<open>elapsed\<close> saturates at zero.\<close>

definition ticker_due :: "instant \<Rightarrow> ticker \<Rightarrow> bool \<times> ticker" where
  "ticker_due now tk =
     (if (case tk_last tk of None \<Rightarrow> True | Some t \<Rightarrow> max 0 (now - t) \<ge> secs (int (unat (tk_every tk))))
      then (True, tk\<lparr>tk_last := Some now\<rparr>)
      else (False, tk))"

record passes =
  pa_resources :: ticker
  pa_stranded :: ticker

definition passes_new :: "writer_config \<Rightarrow> passes" where
  "passes_new wc = \<lparr>pa_resources = ticker_new (resource_poll_interval wc),
     pa_stranded = ticker_new (queue_fallback_after wc)\<rparr>"

record resource_chain =
  rc_allowance :: "nat \<Rightarrow> account \<Rightarrow> string + u32"
  rc_balance :: "nat \<Rightarrow> account \<Rightarrow> string + u128"

datatype resource_warning = LowAllowance | LowSignerBalance | LowDotnsAllowance | LowDotnsSignerBalance

section \<open>The process\<close>

record deps =
  dp_env :: "tables env"
  dp_people :: "account_signature_form chain"
  dp_hub :: "window chain"
  dp_people_res :: resource_chain
  dp_hub_res :: resource_chain
  dp_ss58 :: "string \<Rightarrow> account option"
  dp_vrfy :: "bytes \<Rightarrow> bytes \<Rightarrow> account \<Rightarrow> bool"
  dp_scale :: scale
  dp_signer :: account
  dp_config :: writer_config

record writer =
  wr_people :: "unit drain"
  wr_dotns :: "dotns_link drain"
  wr_passes :: passes

type_synonym ('e, 'a) wprog = "(tables world \<times> writer, 'e, 'a) prog"

abbreviation people_of :: "deps \<Rightarrow> (account_signature_form, unit) lane" where
  "people_of dp \<equiv> people_lane (dp_ss58 dp) (dp_vrfy dp)"

abbreviation dotns_of :: "deps \<Rightarrow> (window, dotns_link) lane" where
  "dotns_of dp \<equiv> dotns_lane (dp_ss58 dp) (dp_vrfy dp) (dp_scale dp) (wc_attester (dp_config dp))"

definition on_people :: "(unit, 'e, 'a) dprog \<Rightarrow> ('e, 'a) wprog" where
  "on_people m = (\<lambda>(w, wr). case m (w, wr_people wr) of (r, (w', d)) \<Rightarrow> (r, (w', wr\<lparr>wr_people := d\<rparr>)))"

definition on_dotns :: "(dotns_link, 'e, 'a) dprog \<Rightarrow> ('e, 'a) wprog" where
  "on_dotns m = (\<lambda>(w, wr). case m (w, wr_dotns wr) of (r, (w', d)) \<Rightarrow> (r, (w', wr\<lparr>wr_dotns := d\<rparr>)))"

definition on_tables :: "(tables world, 'e, 'a) prog \<Rightarrow> ('e, 'a) wprog" where
  "on_tables m = (\<lambda>(w, wr). case m w of (r, w') \<Rightarrow> (r, (w', wr)))"

definition tick_with :: "deps \<Rightarrow> (passes \<Rightarrow> ticker) \<Rightarrow> (ticker \<Rightarrow> passes \<Rightarrow> passes) \<Rightarrow> ('e, bool) wprog" where
  "tick_with dp get put =
     bindE (on_tables (now_utc (dp_env dp))) (\<lambda>now.
     bindE (gets (\<lambda>(w, wr). ticker_due now (get (wr_passes wr)))) (\<lambda>(due, tk).
     bindE (modify (\<lambda>(w, wr). (w, wr\<lparr>wr_passes := put tk (wr_passes wr)\<rparr>))) (\<lambda>_. ret due)))"

text \<open>\<open>WriterSigner::proxy_for\<close>: the attester, unless the signer is the attester itself.\<close>

definition proxy_of :: "deps \<Rightarrow> account option" where
  "proxy_of dp = (if dp_signer dp = wc_attester (dp_config dp) then None else Some (wc_attester (dp_config dp)))"

definition read_chain :: "(nat \<Rightarrow> string + 'a) \<Rightarrow> (writer_error, 'a) wprog" where
  "read_chain f = on_tables (map_err Chain (remote f))"

definition attester_resources :: "deps \<Rightarrow> (writer_error, resource_warning list) wprog" where
  "attester_resources dp =
     (let wc = dp_config dp
      in bindE (read_chain (\<lambda>n. rc_allowance (dp_people_res dp) n (wc_attester wc))) (\<lambda>allowance.
         bindE (read_chain (\<lambda>n. rc_balance (dp_people_res dp) n (dp_signer dp))) (\<lambda>bal.
         bindE (case proxy_of dp of
                  Some primary \<Rightarrow> bindE (read_chain (\<lambda>n. rc_balance (dp_people_res dp) n primary)) (\<lambda>b. ret (Some b))
                | None \<Rightarrow> ret None) (\<lambda>_.
         let warn = (if allowance < allowance_floor wc then [LowAllowance] else []) @
                    (if bal < signer_balance_floor_planck wc then [LowSignerBalance] else [])
         in bindE (on_dotns (bring_up (dotns_of dp) (dp_env dp) (dp_hub dp))) (\<lambda>up.
            if \<not> up then ret warn else
            bindE (read_chain (\<lambda>n. rc_allowance (dp_hub_res dp) n (wc_attester wc))) (\<lambda>hub_allowance.
            bindE (read_chain (\<lambda>n. rc_balance (dp_hub_res dp) n (dp_signer dp))) (\<lambda>hub_bal.
            ret (warn @ (if hub_allowance < allowance_floor wc then [LowDotnsAllowance] else []) @
                 (if hub_bal < signer_balance_floor_planck wc then [LowDotnsSignerBalance] else [])))))))))"

definition record_outbox_gauges ::
  "tables env \<Rightarrow> (tables world, string, (status \<times> status_depth) list \<times> (dotns_status \<times> status_depth) list) prog" where
  "record_outbox_gauges E =
     bindE (sql E depth_by_status) (\<lambda>people.
     bindE (sql E dotns_depth_by_status) (\<lambda>dotns. ret (people, dotns)))"

definition passes_queue :: "deps \<Rightarrow> ('e, unit) wprog" where
  "passes_queue dp =
     (if wc_queue_enabled (dp_config dp)
      then bindE (tick_with dp pa_stranded (\<lambda>tk p. p\<lparr>pa_stranded := tk\<rparr>)) (\<lambda>due.
           if \<not> due then ret ()
           else bindE (on_tables (attempt (sql (dp_env dp) stranded_queued))) (\<lambda>_. ret ()))
      else bindE (on_tables (attempt (sql (dp_env dp) (fallback_drain (queue_fallback_after (dp_config dp))))))
             (\<lambda>_. ret ()))"

definition passes_tick :: "deps \<Rightarrow> ('e, unit) wprog" where
  "passes_tick dp =
     bindE (tick_with dp pa_resources (\<lambda>tk p. p\<lparr>pa_resources := tk\<rparr>)) (\<lambda>due.
     bindE (if due
            then bindE (attempt (attester_resources dp)) (\<lambda>_.
                 bindE (on_tables (attempt (record_outbox_gauges (dp_env dp)))) (\<lambda>_. ret ()))
            else ret ()) (\<lambda>_. passes_queue dp))"

definition cx_of :: "deps \<Rightarrow> guard \<Rightarrow> cx" where
  "cx_of dp g = \<lparr>cx_guard = g, proxy_for = proxy_of dp, max_attempts = wc_max_attempts (dp_config dp),
     lease_ttl = wc_lease_ttl (dp_config dp)\<rparr>"

fun acquire_lease :: "nat \<Rightarrow> deps \<Rightarrow> (writer_error, guard option) wprog" where
  "acquire_lease 0 dp = ret None"
| "acquire_lease (Suc n) dp =
     (let wc = dp_config dp
      in bindE (on_tables (map_err Db (sql (dp_env dp)
           (try_acquire (wc_lease_name wc) (wc_holder_id wc) (wc_lease_ttl wc))))) (\<lambda>got.
         case got of
           Some e \<Rightarrow> ret (Some \<lparr>lease_name = wc_lease_name wc, g_holder_id = wc_holder_id wc, epoch = e\<rparr>)
         | None \<Rightarrow> acquire_lease n dp))"

definition writer_heartbeat :: "deps \<Rightarrow> guard \<Rightarrow> (writer_error, bool) wprog" where
  "writer_heartbeat dp g =
     on_tables (map_err Db (sql (dp_env dp) (renew (lease_name g) (g_holder_id g) (epoch g)
       (wc_lease_ttl (dp_config dp)))))"

definition active_iteration :: "deps \<Rightarrow> guard \<Rightarrow> (writer_error, bool) wprog" where
  "active_iteration dp g =
     bindE (writer_heartbeat dp g) (\<lambda>ok.
     if \<not> ok then throw (LeaseLost Draining) else
     bindE (passes_tick dp) (\<lambda>_.
     bindE (on_people (pass (people_of dp) (dp_env dp) (dp_people dp) (cx_of dp g))) (\<lambda>people_idle.
     bindE (on_dotns (pass (dotns_of dp) (dp_env dp) (dp_hub dp) (cx_of dp g))) (\<lambda>_.
     ret people_idle))))"

fun active_loop :: "nat \<Rightarrow> deps \<Rightarrow> guard \<Rightarrow> (writer_error, unit) wprog" where
  "active_loop 0 dp g = ret ()"
| "active_loop (Suc n) dp g = bindE (active_iteration dp g) (\<lambda>_. active_loop n dp g)"

definition reconcile :: "deps \<Rightarrow> guard \<Rightarrow> ('e, unit) wprog" where
  "reconcile dp g =
     bindE (attempt (on_people (reconcile_submitting (people_of dp) (dp_ss58 dp) (dp_env dp) (dp_people dp) (cx_of dp g)))) (\<lambda>_.
     bindE (attempt (on_dotns (reconcile_submitting (dotns_of dp) (dp_ss58 dp) (dp_env dp) (dp_hub dp) (cx_of dp g)))) (\<lambda>_.
     ret ()))"

fun run_forever :: "nat \<Rightarrow> nat \<Rightarrow> nat \<Rightarrow> deps \<Rightarrow> (writer_error, unit) wprog" where
  "run_forever 0 k m dp = ret ()"
| "run_forever (Suc n) k m dp =
     bindE (acquire_lease k dp) (\<lambda>got.
     case got of
       None \<Rightarrow> ret ()
     | Some g \<Rightarrow>
         bindE (modify (\<lambda>(w, wr). (w, wr\<lparr>wr_people := reset_nonce (wr_people wr),
           wr_dotns := reset_nonce (wr_dotns wr)\<rparr>))) (\<lambda>_.
         bindE (reconcile dp g) (\<lambda>_.
         bindE (attempt (active_loop m dp g)) (\<lambda>_. run_forever n k m dp))))"

definition writer_new :: "writer_config \<Rightarrow> writer" where
  "writer_new wc = \<lparr>wr_people = drain_new (batch_size wc) (), wr_dotns = drain_new (dotns_batch_size wc) dotns_link_new,
     wr_passes = passes_new wc\<rparr>"

section \<open>What the whole run keeps\<close>

abbreviation wkeeps :: "(tables \<Rightarrow> bool) \<Rightarrow> ('e, 'a) wprog \<Rightarrow> bool" where
  "wkeeps P m \<equiv> keeps (\<lambda>s. P (w_db (fst s))) m"

lemma wkeeps_on_tables [prog_intro]: "keeps (on_db P) m \<Longrightarrow> wkeeps P (on_tables m)"
  by (fastforce simp: valid_def on_tables_def split: prod.splits sum.splits)

lemma wkeeps_on_people [prog_intro]: "dkeeps P m \<Longrightarrow> wkeeps P (on_people m)"
  by (fastforce simp: valid_def on_people_def split: prod.splits sum.splits)

lemma wkeeps_on_dotns [prog_intro]: "dkeeps P m \<Longrightarrow> wkeeps P (on_dotns m)"
  by (fastforce simp: valid_def on_dotns_def split: prod.splits sum.splits)

lemma wkeeps_gets [prog_intro]: "wkeeps P (gets f)"
  by (rule keeps_gets)

lemma wkeeps_modify: "(\<And>s. fst (f s) = fst s) \<Longrightarrow> wkeeps P (modify f)"
  by (auto simp: valid_def modify_def)

lemma wkeeps_read_chain [prog_intro]: "wkeeps P (read_chain f)"
  unfolding read_chain_def by (intro prog_intro)

lemma wkeeps_tick_with [prog_intro]: "wkeeps P (tick_with dp get put)"
  unfolding tick_with_def
  by (intro prog_intro wkeeps_modify) (auto split: prod.splits intro!: prog_intro wkeeps_modify)

text \<open>
  A table property the whole process keeps: it survives the other processes, both lanes'
  writes under any guard of this process, taking and renewing the lease, and the janitor.
\<close>

definition writer_closed :: "deps \<Rightarrow> (tables \<Rightarrow> bool) \<Rightarrow> (reservation \<Rightarrow> bool) \<Rightarrow> bool" where
  "writer_closed dp P K \<longleftrightarrow> stable (dp_env dp) P \<and> (\<forall>t. P t \<longrightarrow> rows_satisfy K t) \<and>
     (\<forall>now t. P t \<longrightarrow> P (snd (try_acquire (wc_lease_name (dp_config dp)) (wc_holder_id (dp_config dp))
        (wc_lease_ttl (dp_config dp)) now t))) \<and>
     (\<forall>n h e ttl now t. P t \<longrightarrow> P (snd (renew n h e ttl now t))) \<and>
     (\<forall>now t. P t \<longrightarrow> P (snd (fallback_drain (queue_fallback_after (dp_config dp)) now t))) \<and>
     (\<forall>g. people_closed (cx_of dp g) P
        (landing_ids (people_of dp) (dp_ss58 dp) (dp_env dp) (dp_people dp) (cx_of dp g) K)) \<and>
     (\<forall>g. dotns_closed (cx_of dp g) P
        (landing_ids (dotns_of dp) (dp_ss58 dp) (dp_env dp) (dp_hub dp) (cx_of dp g) K))"

lemma depth_reads [simp]:
  "snd (depth_by_status now t) = t" "snd (dotns_depth_by_status now t) = t" "snd (stranded_queued now t) = t"
  by (simp_all add: depth_by_status_def dotns_depth_by_status_def stranded_queued_def)

lemma keeps_gauges: "stable E P \<Longrightarrow> keeps (on_db P) (record_outbox_gauges E)"
  unfolding record_outbox_gauges_def by (auto intro!: prog_intro)

lemma dotns_bring_up_keeps: "dkeeps P (bring_up (dotns_lane ss58 vrfy sc att) E C)"
  unfolding bring_up_def dotns_lane_def dotns_up_def
  by (auto intro!: prog_intro keeps_now_utc split: dotns_dial.splits sum.splits prod.splits)

lemma attester_resources_keeps: "wkeeps P (attester_resources dp)"
  unfolding attester_resources_def Let_def
  by (auto intro!: prog_intro dotns_bring_up_keeps split: option.splits)

lemma passes_tick_keeps:
  assumes "writer_closed dp P K"
  shows "wkeeps P (passes_tick dp)"
proof -
  have st: "stable (dp_env dp) P" and drain: "P t \<Longrightarrow> P (snd (fallback_drain (queue_fallback_after (dp_config dp)) now t))"
    for now t using assms by (auto simp: writer_closed_def)
  have "wkeeps P (passes_queue dp)"
    unfolding passes_queue_def using st drain by (auto intro!: prog_intro)
  then show ?thesis
    unfolding passes_tick_def
    using attester_resources_keeps keeps_gauges [OF st] by (auto intro!: prog_intro)
qed

lemma lane_runs_keep:
  assumes "writer_closed dp P K"
  shows "dkeeps P (pass (people_of dp) (dp_env dp) (dp_people dp) (cx_of dp g))"
    "dkeeps P (reconcile_submitting (people_of dp) (dp_ss58 dp) (dp_env dp) (dp_people dp) (cx_of dp g))"
    "dkeeps P (pass (dotns_of dp) (dp_env dp) (dp_hub dp) (cx_of dp g))"
    "dkeeps P (reconcile_submitting (dotns_of dp) (dp_ss58 dp) (dp_env dp) (dp_hub dp) (cx_of dp g))"
  using assms people_pass_preserves [of "dp_env dp" P K "cx_of dp g" "dp_ss58 dp" "dp_vrfy dp" "dp_people dp"]
    dotns_pass_preserves [of "dp_env dp" P K "cx_of dp g" "dp_ss58 dp" "dp_vrfy dp" "dp_scale dp"
      "wc_attester (dp_config dp)" "dp_hub dp"]
  by (simp_all add: writer_closed_def)

lemma active_loop_keeps:
  assumes "writer_closed dp P K"
  shows "wkeeps P (active_loop m dp g)"
proof -
  have "wkeeps P (writer_heartbeat dp g)"
    unfolding writer_heartbeat_def using assms by (auto simp: writer_closed_def intro!: prog_intro)
  then have "wkeeps P (active_iteration dp g)"
    unfolding active_iteration_def
    using lane_runs_keep [OF assms] passes_tick_keeps [OF assms] by (auto intro!: prog_intro)
  then show ?thesis by (induction m) (auto intro!: prog_intro)
qed

lemma acquire_keeps:
  assumes "writer_closed dp P K"
  shows "wkeeps P (acquire_lease k dp)"
proof (induction k)
  case (Suc k)
  have "keeps (on_db P) (sql (dp_env dp) (try_acquire (wc_lease_name (dp_config dp)) (wc_holder_id (dp_config dp))
      (wc_lease_ttl (dp_config dp))))"
    using assms by (intro keeps_sql) (auto simp: writer_closed_def)
  with Suc show ?case by (auto simp: Let_def intro!: prog_intro split: option.splits)
qed (auto intro!: prog_intro)

lemma run_keeps:
  assumes "writer_closed dp P K"
  shows "wkeeps P (run_forever n k m dp)"
proof (induction n)
  case (Suc n)
  have "wkeeps P (reconcile dp g)" for g
    unfolding reconcile_def using lane_runs_keep [OF assms] by (auto intro!: prog_intro)
  with Suc active_loop_keeps [OF assms] acquire_keeps [OF assms] show ?case
    by (auto intro!: keeps_bindE keeps_attempt wkeeps_modify valid_ret split: option.splits)
qed (auto intro!: prog_intro)

section \<open>The two invariants of a run\<close>

lemma try_acquire_tables [simp]:
  "username_reservations (snd (try_acquire n h ttl now t)) = username_reservations t"
  "widevine_devices (snd (try_acquire n h ttl now t)) = widevine_devices t"
  "next_reservation_id (snd (try_acquire n h ttl now t)) = next_reservation_id t"
  by (simp_all add: try_acquire_def Let_def split: option.splits)

lemma integrity_promote:
  assumes "integrity t"
  shows "integrity (snd (update_rows c (promote now) t))"
proof -
  have "find_row i (snd (update_rows c (promote now) t)) = None \<longleftrightarrow> find_row i t = None" for i
    by (subst find_row_update_rows) (simp_all add: promote_def)
  then have "devices_ok (snd (update_rows c (promote now) t)) = devices_ok t"
    by (intro devices_ok_cong) (simp_all add: update_rows_def)
  then show ?thesis using assms promote_ok by (simp add: integrity_def)
qed

lemma integrity_fallback_drain: "integrity t \<Longrightarrow> integrity (snd (fallback_drain grace now t))"
  unfolding fallback_drain_def by (rule integrity_promote)

lemma landing_inv_lease:
  "landing_inv pay landed A J (snd (try_acquire n h ttl now t)) = landing_inv pay landed A J t"
  "landing_inv pay landed A J (snd (renew n h e ttl now t)) = landing_inv pay landed A J t"
  by (simp_all add: landing_inv_def)

lemma integrity_try_acquire: "integrity (snd (try_acquire n h ttl now t)) = integrity t"
  by (rule integrity_cong) simp_all

lemma landing_inv_fallback:
  "landing_inv pay assigned_row A J t \<Longrightarrow> landing_inv pay assigned_row A J (snd (fallback_drain grace now t))"
  "landing_inv pay dotns_reserved_row A J t \<Longrightarrow> landing_inv pay dotns_reserved_row A J (snd (fallback_drain grace now t))"
  by (auto simp: fallback_drain_def landing_inv_def update_rows_def promote_def list_all_iff)

lemma closed_mono:
  "people_closed cx P J \<Longrightarrow> (\<And>i. J' i \<Longrightarrow> J i) \<Longrightarrow> people_closed cx P J'"
  "dotns_closed cx P J \<Longrightarrow> (\<And>i. J' i \<Longrightarrow> J i) \<Longrightarrow> dotns_closed cx P J'"
  unfolding people_closed_def dotns_closed_def by blast+

text \<open>One lane's writes do not land rows of the other.\<close>

lemma other_lane_closed:
  "dotns_closed cx (landing_inv pay assigned_row A J) J'"
  "people_closed cx (landing_inv pay dotns_reserved_row A J) J'"
  unfolding dotns_closed_def people_closed_def
  by (auto simp: mark_defs landing_inv_def intro!: list_all_guarded split: if_splits)

definition people_evidence :: "deps \<Rightarrow> reservation \<Rightarrow> bool" where
  "people_evidence dp r \<longleftrightarrow>
     (\<exists>g. may_land (people_of dp) (dp_ss58 dp) (dp_env dp) (dp_people dp) (cx_of dp g) r)"

definition hub_evidence :: "deps \<Rightarrow> reservation \<Rightarrow> bool" where
  "hub_evidence dp r \<longleftrightarrow>
     (\<exists>g. may_land (dotns_of dp) (dp_ss58 dp) (dp_env dp) (dp_hub dp) (cx_of dp g) r)"

definition evident :: "(int \<Rightarrow> new_reservation option) \<Rightarrow> (reservation \<Rightarrow> bool) \<Rightarrow> int \<Rightarrow> bool" where
  "evident pay ev i \<longleftrightarrow> (\<exists>r. res_id r = i \<and> from_payload pay r \<and> ev r)"

lemma landing_ids_evident:
  "landing_ids (people_of dp) (dp_ss58 dp) (dp_env dp) (dp_people dp) (cx_of dp g) (from_payload pay) i \<Longrightarrow>
   evident pay (people_evidence dp) i"
  "landing_ids (dotns_of dp) (dp_ss58 dp) (dp_env dp) (dp_hub dp) (cx_of dp g) (from_payload pay) i \<Longrightarrow>
   evident pay (hub_evidence dp) i"
  unfolding landing_ids_def evident_def people_evidence_def hub_evidence_def by blast+

lemma people_writer_closed:
  assumes "respects_landing (dp_env dp) pay assigned_row"
  shows "writer_closed dp (landing_inv pay assigned_row A (evident pay (people_evidence dp))) (from_payload pay)"
  unfolding writer_closed_def
proof (intro conjI allI impI landing_inv_stable [OF assms] other_lane_closed(1)
    closed_mono(1) [OF people_landing_closed landing_ids_evident(1)])
qed (simp_all only: landing_inv_known landing_inv_fallback landing_inv_lease)

lemma hub_writer_closed:
  assumes "respects_landing (dp_env dp) pay dotns_reserved_row"
  shows "writer_closed dp (landing_inv pay dotns_reserved_row A (evident pay (hub_evidence dp))) (from_payload pay)"
  unfolding writer_closed_def
proof (intro conjI allI impI landing_inv_stable [OF assms] other_lane_closed(2)
    closed_mono(2) [OF dotns_landing_closed landing_ids_evident(2)])
qed (simp_all only: landing_inv_known landing_inv_fallback landing_inv_lease)

lemma landed_evident:
  assumes "landing_inv pay landed A (evident pay ev) t" "row \<in> set (username_reservations t)" "landed row" "r_id row \<notin> A"
  shows "\<exists>r. res_id r = r_id row \<and> full_username r = r_full_username row \<and>
    candidate_account_id r = n_candidate_account_id (r_new row) \<and> ev r"
proof -
  have pay: "pay (r_id row) = Some (r_new row)" and "evident pay ev (r_id row)"
    using assms by (auto simp: landing_inv_def list_all_iff)
  then obtain r where r: "res_id r = r_id row" "from_payload pay r" "ev r" by (auto simp: evident_def)
  with pay landed_fields [of pay r "r_new row"] show ?thesis by auto
qed

section \<open>A small writer for the witnesses\<close>

definition demo_config :: writer_config where
  "demo_config = \<lparr>wc_database_url = [], wc_people_rpc_url = [], signer_suri = [], wc_attester = [9],
     wc_holder_id = ''w1'', wc_lease_name = ''writer'', wc_lease_ttl = 30, poll_interval = 2, batch_size = 8,
     dotns_batch_size = 3, finalize_timeout = 120, wc_max_attempts = 8, wc_queue_enabled = False,
     queue_fallback_after = 60, resource_poll_interval = 60, allowance_floor = 100,
     signer_balance_floor_planck = 10, asset_hub_rpc_url = []\<rparr>"

definition demo_resources :: resource_chain where
  "demo_resources = \<lparr>rc_allowance = \<lambda>n a. Inr 5, rc_balance = \<lambda>n a. Inr 50\<rparr>"

definition demo_deps :: deps where
  "demo_deps = \<lparr>dp_env = quiet 6, dp_people = demo_chain Plain, dp_hub = demo_chain demo_window,
     dp_people_res = demo_resources, dp_hub_res = demo_resources, dp_ss58 = demo_ss58,
     dp_vrfy = \<lambda>_ _ _. True, dp_scale = unary_scale, dp_signer = [9], dp_config = demo_config\<rparr>"

definition demo_stuck :: tables where
  "demo_stuck = snd (mark_submitting demo_guard 1 ''0x01'' 7 1 6 signed_tables)"

definition demo_writer_run :: "(writer_error + unit) \<times> tables world \<times> writer" where
  "demo_writer_run = run_forever 1 1 0 demo_deps (demo_world demo_stuck, writer_new demo_config)"

lemmas demo_writer_defs = demo_writer_run_def demo_deps_def demo_config_def demo_resources_def demo_stuck_def
  writer_new_def passes_new_def ticker_new_def

lemma demo_writer_lands:
  "list_ex (\<lambda>row. r_status row = Assigned \<and> r_id row = 1)
     (username_reservations (w_db (fst (snd demo_writer_run))))"
  by (simp add: demo_writer_defs cx_of_def proxy_of_def on_tables_def on_people_def on_dotns_def
      reconcile_def reconcile_submitting_def reconcile_chunk_def chunks.simps RECONCILE_READ_CHUNK_def
      submitting_def dotns_submitting_def demo_defs people_run_defs dotns_run_defs run_defs prog_defs
      reset_nonce_def)

section \<open>Properties\<close>

text \<open>C9: over its whole life, through any number of lease losses, restarts of its loop,
  failed statements and interleavings, the writer moves a reservation to ASSIGNED and a dotNS half
  to RESERVED only on evidence from the respective chain for that very row.\<close>

theorem writer_run_lands_on_evidence:
  assumes "respects_landing (dp_env dp) pay assigned_row" "respects_landing (dp_env dp) pay dotns_reserved_row"
    and "payloads pay (w_db w)" "run_forever n k m dp (w, wr) = (res, (w', wr'))"
    and "row \<in> set (username_reservations (w_db w'))"
  shows "(r_status row = Assigned \<and> r_id row \<notin> landed_ids assigned_row (w_db w) \<longrightarrow>
      (\<exists>r. res_id r = r_id row \<and> full_username r = r_full_username row \<and>
        candidate_account_id r = n_candidate_account_id (r_new row) \<and> people_evidence dp r)) \<and>
    (r_dotns_status row = Some DotnsReserved \<and> r_id row \<notin> landed_ids dotns_reserved_row (w_db w) \<longrightarrow>
      (\<exists>r. res_id r = r_id row \<and> full_username r = r_full_username row \<and>
        candidate_account_id r = n_candidate_account_id (r_new row) \<and> hub_evidence dp r))"
proof -
  have "landing_inv pay assigned_row (landed_ids assigned_row (w_db w)) (evident pay (people_evidence dp)) (w_db w')"
    using keepsD [OF run_keeps [OF people_writer_closed [OF assms(1)]], of _ "(w, wr)" n k m] assms(3,4)
    by (simp add: landing_inv_start)
  moreover have "landing_inv pay dotns_reserved_row (landed_ids dotns_reserved_row (w_db w))
      (evident pay (hub_evidence dp)) (w_db w')"
    using keepsD [OF run_keeps [OF hub_writer_closed [OF assms(2)]], of _ "(w, wr)" n k m] assms(3,4)
    by (simp add: landing_inv_start)
  ultimately show ?thesis
    using landed_evident assms(5) by blast
qed

theorem writer_run_lands_on_evidence_witness:
  "\<exists>r. res_id r = 1 \<and> people_evidence demo_deps r"
proof -
  obtain res w' wr' where run: "demo_writer_run = (res, (w', wr'))" by (metis prod.collapse)
  obtain row where row: "row \<in> set (username_reservations (w_db w'))" "r_status row = Assigned" "r_id row = 1"
    using demo_writer_lands unfolding run list_ex_iff by auto
  have start: "payloads (\<lambda>_. Some signed_new) (w_db (demo_world demo_stuck))"
    "landed_ids assigned_row (w_db (demo_world demo_stuck)) = {}"
    by (simp_all add: demo_stuck_def demo_defs payloads_def landed_ids_def run_defs)
  have env: "respects_landing (dp_env demo_deps) pay landed" for pay landed
    by (simp add: demo_deps_def respects_quiet)
  from writer_run_lands_on_evidence [OF env env start(1) run [unfolded demo_writer_run_def] row(1)] row start(2)
  show ?thesis by auto
qed

text \<open>C10: over its whole life the writer keeps the integrity of the outbox and of the device
  records.\<close>

theorem writer_run_keeps_integrity:
  assumes "stable (dp_env dp) integrity" "integrity (w_db w)"
  shows "integrity (w_db (fst (snd (run_forever n k m dp (w, wr)))))"
proof -
  have "writer_closed dp integrity (\<lambda>_. True)"
    unfolding writer_closed_def
    by (intro conjI allI impI assms(1) integrity_people_closed integrity_dotns_closed integrity_fallback_drain
        integrity_renew rows_satisfy_True) (simp add: integrity_try_acquire)
  from keepsD [OF run_keeps [OF this], of "(w, wr)" n k m] assms(2) show ?thesis by simp
qed

theorem writer_run_keeps_integrity_witness:
  "integrity demo_stuck \<and> integrity (w_db (fst (snd demo_writer_run)))"
proof -
  have "integrity signed_tables"
    by (simp add: demo_defs integrity_def reservations_ok_def devices_ok_def)
  then have start: "integrity demo_stuck"
    by (simp add: demo_stuck_def mark_submitting_def mark_integrity)
  then show ?thesis
    using writer_run_keeps_integrity [of demo_deps "demo_world demo_stuck" 1 1 0 "writer_new demo_config"]
    by (simp add: demo_writer_run_def demo_deps_def demo_world_def del: run_forever.simps)
qed

end
