(* ===== verification/Der.thy ===== *)
theory Der
  imports Std
begin

text \<open>
  The DER reader and the Android key-description extension
  (\<open>auth/key_attest/extension.rs\<close>). A slice and the index into it are a byte list from
  which the reader consumes; a tag number is a \<open>u32\<close> and a length a \<open>usize\<close>, as naturals with
  their bounds written out. Shown here: the reader accepts exactly the canonical encodings, so a
  byte string has at most one reading and a structure exactly one encoding, and reading all
  children of a node ends.
\<close>

unbundle bit_operations_syntax

section \<open>Tag, length, value\<close>

record tlv =
  cls :: nat
  constructed :: bool
  tag_number :: nat
  content :: bytes

definition TAG_ATTESTATION_APPLICATION_ID :: nat where "TAG_ATTESTATION_APPLICATION_ID = 709"
definition TAG_ROOT_OF_TRUST :: nat where "TAG_ROOT_OF_TRUST = 704"
definition TAG_BOOLEAN :: nat where "TAG_BOOLEAN = 1"
definition TAG_OCTET_STRING :: nat where "TAG_OCTET_STRING = 4"
definition TAG_ENUMERATED :: nat where "TAG_ENUMERATED = 10"
definition TAG_SEQUENCE :: nat where "TAG_SEQUENCE = 16"
definition TAG_SET :: nat where "TAG_SET = 17"

lemmas tag_defs = TAG_ATTESTATION_APPLICATION_ID_def TAG_ROOT_OF_TRUST_def TAG_BOOLEAN_def
  TAG_OCTET_STRING_def TAG_ENUMERATED_def TAG_SEQUENCE_def TAG_SET_def

definition expect_primitive :: "tlv \<Rightarrow> nat \<Rightarrow> string \<Rightarrow> string + unit" where
  "expect_primitive t n what =
     ensure (\<not> (cls t \<noteq> 0 \<or> constructed t \<or> tag_number t \<noteq> n)) (what @ '': unexpected DER type'')"

definition expect_constructed :: "tlv \<Rightarrow> nat \<Rightarrow> string \<Rightarrow> string + unit" where
  "expect_constructed t n what =
     ensure (\<not> (cls t \<noteq> 0 \<or> \<not> constructed t \<or> tag_number t \<noteq> n)) (what @ '': unexpected DER type'')"

fun high_tag :: "bool \<Rightarrow> nat \<Rightarrow> bytes \<Rightarrow> string + nat \<times> bytes" where
  "high_tag first n [] = Inl ''truncated high-form tag''"
| "high_tag first n (b # bs) =
     (if first \<and> b AND 0x7F = 0 then Inl ''non-minimal high-form tag''
      else let n' = n * 128 + unat (b AND 0x7F)
           in if n' \<ge> 2 ^ 32 then Inl ''tag number overflow''
              else if b AND 0x80 = 0 then Inr (n', bs)
              else high_tag False n' bs)"

definition read_tag :: "u8 \<Rightarrow> bytes \<Rightarrow> string + nat \<times> bytes" where
  "read_tag b0 bs =
     (if unat (b0 AND 0x1F) = 0x1F
      then and_then (high_tag True 0 bs) (\<lambda>(n, bs').
             if n < 31 then Inl ''non-minimal high-form tag'' else Inr (n, bs'))
      else Inr (unat (b0 AND 0x1F), bs))"

fun long_length :: "nat \<Rightarrow> bool \<Rightarrow> nat \<Rightarrow> bytes \<Rightarrow> string + nat \<times> bytes" where
  "long_length 0 first len bs = Inr (len, bs)"
| "long_length (Suc n) first len [] = Inl ''truncated long-form length''"
| "long_length (Suc n) first len (b # bs) =
     (if first \<and> b = 0 then Inl ''non-minimal long-form length''
      else long_length n False (len * 256 + unat b) bs)"

definition read_length :: "bytes \<Rightarrow> string + nat \<times> bytes" where
  "read_length bs =
     (case bs of
        [] \<Rightarrow> Inl ''truncated length''
      | l0 # bs' \<Rightarrow>
          if l0 AND 0x80 = 0 then Inr (unat l0, bs')
          else let n = unat (l0 AND 0x7F)
               in if n = 0 \<or> n > 4 then Inl ''unsupported DER length form''
                  else and_then (long_length n True 0 bs') (\<lambda>(len, bs'').
                         if len < 128 then Inl ''non-minimal long-form length'' else Inr (len, bs'')))"

definition read_tlv :: "bytes \<Rightarrow> string + tlv \<times> bytes" where
  "read_tlv input =
     (case input of
        [] \<Rightarrow> Inl ''truncated tag''
      | b0 # bs \<Rightarrow>
          and_then (read_tag b0 bs) (\<lambda>(number, bs1).
          and_then (read_length bs1) (\<lambda>(len, bs2).
          if length bs2 < len then Inl ''truncated content''
          else Inr (\<lparr>cls = unat (drop_bit 6 b0), constructed = (b0 AND 0x20 \<noteq> 0),
                     tag_number = number, content = take len bs2\<rparr>, drop len bs2))))"

section \<open>Every read makes progress\<close>

lemma high_tag_shorter: "high_tag f n bs = Inr (m, rest) \<Longrightarrow> length rest < length bs"
  by (induction f n bs rule: high_tag.induct) (auto simp: Let_def split: if_splits)

lemma read_tag_shorter: "read_tag b0 bs = Inr (n, rest) \<Longrightarrow> length rest \<le> length bs"
  by (auto simp: read_tag_def split: if_splits prod.splits dest: high_tag_shorter)

lemma long_length_shorter: "long_length n f len bs = Inr (m, rest) \<Longrightarrow> length rest \<le> length bs"
  by (induction n f len bs rule: long_length.induct) (auto split: if_splits)

lemma read_length_shorter: "read_length bs = Inr (n, rest) \<Longrightarrow> length rest < length bs"
  by (auto simp: read_length_def Let_def split: list.splits if_splits prod.splits dest!: long_length_shorter)

lemma read_tlv_shorter: "read_tlv bs = Inr (t, rest) \<Longrightarrow> length rest < length bs"
  by (auto simp: read_tlv_def split: list.splits if_splits dest!: read_tag_shorter read_length_shorter)

function children :: "bytes \<Rightarrow> string + tlv list" where
  "children bs =
     (if bs = [] then Inr []
      else case read_tlv bs of
        Inl e \<Rightarrow> Inl e
      | Inr (t, rest) \<Rightarrow> and_then (children rest) (\<lambda>ts. Inr (t # ts)))"
  by pat_completeness auto
termination
  by (relation "measure length") (auto dest: read_tlv_shorter)

declare children.simps [simp del]

section \<open>The key-description extension\<close>

definition as_u64 :: "tlv \<Rightarrow> string + nat" where
  "as_u64 t =
     (if content t = [] \<or> length (content t) > 8 then Inl ''integer out of range''
      else Inr (be_value 256 0 (map unat (content t))))"

definition as_bool :: "tlv \<Rightarrow> string + bool" where
  "as_bool t =
     (if content t = [0] then Inr False else if content t = [0xFF] then Inr True
      else Inl ''non-canonical DER BOOLEAN'')"

record root_of_trust =
  verified_boot_key :: bytes
  device_locked :: bool
  verified_boot_state :: nat

record key_description =
  attestation_security_level :: nat
  key_security_level :: nat
  attestation_challenge :: bytes
  kd_package_names :: "string list"
  signing_digests :: "bytes list"
  kd_root_of_trust :: "root_of_trust option"

record authorization_list =
  application_id :: "bytes option"
  al_root_of_trust :: "root_of_trust option"

definition parse_root_of_trust :: "bytes \<Rightarrow> string + root_of_trust" where
  "parse_root_of_trust bs =
     and_then (children bs) (\<lambda>fs.
     if length fs < 3 then Inl ''rootOfTrust has fewer than 3 fields'' else
     and_then (expect_primitive (fs ! 0) TAG_OCTET_STRING ''verifiedBootKey'') (\<lambda>_.
     and_then (expect_primitive (fs ! 1) TAG_BOOLEAN ''deviceLocked'') (\<lambda>_.
     and_then (expect_primitive (fs ! 2) TAG_ENUMERATED ''verifiedBootState'') (\<lambda>_.
     and_then (as_bool (fs ! 1)) (\<lambda>locked.
     and_then (as_u64 (fs ! 2)) (\<lambda>st.
     Inr \<lparr>verified_boot_key = content (fs ! 0), device_locked = locked, verified_boot_state = st\<rparr>))))))"

definition authorization_entry :: "authorization_list \<Rightarrow> tlv \<Rightarrow> string + authorization_list" where
  "authorization_entry al entry =
     (if cls entry \<noteq> 2 then Inr al
      else if tag_number entry = TAG_ATTESTATION_APPLICATION_ID
      then and_then (read_tlv (content entry)) (\<lambda>(inner, rest).
           if rest \<noteq> [] then Inl ''attestationApplicationId: trailing bytes'' else
           and_then (expect_primitive inner TAG_OCTET_STRING ''attestationApplicationId'') (\<lambda>_.
           Inr (al\<lparr>application_id := Some (content inner)\<rparr>)))
      else if tag_number entry = TAG_ROOT_OF_TRUST
      then and_then (read_tlv (content entry)) (\<lambda>(inner, rest).
           if rest \<noteq> [] then Inl ''rootOfTrust: trailing bytes'' else
           and_then (expect_constructed inner TAG_SEQUENCE ''rootOfTrust'') (\<lambda>_.
           and_then (parse_root_of_trust (content inner)) (\<lambda>rot.
           Inr (al\<lparr>al_root_of_trust := Some rot\<rparr>))))
      else Inr al)"

definition parse_authorization_list :: "tlv \<Rightarrow> string + authorization_list" where
  "parse_authorization_list l =
     and_then (expect_constructed l TAG_SEQUENCE ''AuthorizationList'') (\<lambda>_.
     and_then (children (content l)) (\<lambda>entries.
     fold_result authorization_entry \<lparr>application_id = None, al_root_of_trust = None\<rparr> entries))"

definition package_info :: "string list \<Rightarrow> tlv \<Rightarrow> string + string list" where
  "package_info names info =
     and_then (expect_constructed info TAG_SEQUENCE ''packageInfo'') (\<lambda>_.
     and_then (children (content info)) (\<lambda>fs.
     if fs = [] then Inl ''packageInfo missing name'' else
     and_then (expect_primitive (hd fs) TAG_OCTET_STRING ''packageName'') (\<lambda>_.
     and_then (ok_or ''package name is not UTF-8'' (from_utf8 (content (hd fs)))) (\<lambda>name.
     Inr (names @ [name])))))"

definition signature_digest :: "bytes list \<Rightarrow> tlv \<Rightarrow> string + bytes list" where
  "signature_digest digests d =
     and_then (expect_primitive d TAG_OCTET_STRING ''signature digest'') (\<lambda>_.
     Inr (digests @ [content d]))"

definition parse_application_id :: "bytes \<Rightarrow> string + string list \<times> bytes list" where
  "parse_application_id der =
     and_then (read_tlv der) (\<lambda>(top, rest).
     if rest \<noteq> [] then Inl ''AttestationApplicationId: trailing bytes'' else
     and_then (expect_constructed top TAG_SEQUENCE ''AttestationApplicationId'') (\<lambda>_.
     and_then (children (content top)) (\<lambda>sets.
     if length sets \<noteq> 2 then Inl ''AttestationApplicationId does not have 2 sets'' else
     and_then (expect_constructed (sets ! 0) TAG_SET ''packageInfos'') (\<lambda>_.
     and_then (expect_constructed (sets ! 1) TAG_SET ''signatureDigests'') (\<lambda>_.
     and_then (children (content (sets ! 0))) (\<lambda>infos.
     and_then (fold_result package_info [] infos) (\<lambda>names.
     and_then (children (content (sets ! 1))) (\<lambda>ds.
     and_then (fold_result signature_digest [] ds) (\<lambda>digests.
     Inr (names, digests))))))))))"

definition parse_key_description :: "bytes \<Rightarrow> string + key_description" where
  "parse_key_description ext =
     and_then (read_tlv ext) (\<lambda>(top, rest).
     if rest \<noteq> [] then Inl ''trailing bytes after KeyDescription'' else
     and_then (expect_constructed top TAG_SEQUENCE ''KeyDescription'') (\<lambda>_.
     and_then (children (content top)) (\<lambda>fs.
     if length fs < 8
     then Inl (''KeyDescription has '' @ nat_to_string (length fs) @ '' fields, expected at least 8'') else
     and_then (expect_primitive (fs ! 1) TAG_ENUMERATED ''attestationSecurityLevel'') (\<lambda>_.
     and_then (as_u64 (fs ! 1)) (\<lambda>att_level.
     and_then (expect_primitive (fs ! 3) TAG_ENUMERATED ''keymasterSecurityLevel'') (\<lambda>_.
     and_then (as_u64 (fs ! 3)) (\<lambda>key_level.
     and_then (expect_primitive (fs ! 4) TAG_OCTET_STRING ''attestationChallenge'') (\<lambda>_.
     and_then (parse_authorization_list (fs ! 6)) (\<lambda>software.
     and_then (parse_authorization_list (fs ! 7)) (\<lambda>hardware.
     and_then (ok_or ''missing attestationApplicationId''
         (case application_id software of Some a \<Rightarrow> Some a | None \<Rightarrow> application_id hardware)) (\<lambda>app_id.
     and_then (parse_application_id app_id) (\<lambda>(names, digests).
     Inr \<lparr>attestation_security_level = att_level, key_security_level = key_level,
          attestation_challenge = content (fs ! 4), kd_package_names = names,
          signing_digests = digests, kd_root_of_trust = al_root_of_trust hardware\<rparr>))))))))))))"

section \<open>Canonical encodings\<close>

fun high_bytes :: "nat list \<Rightarrow> bytes" where
  "high_bytes [] = []"
| "high_bytes [d] = [word_of_nat d]"
| "high_bytes (d # e # ds) = word_of_nat (128 + d) # high_bytes (e # ds)"

definition encode_length :: "nat \<Rightarrow> bytes" where
  "encode_length n =
     (if n < 128 then [word_of_nat n]
      else word_of_nat (128 + length (be_digits 256 n)) # map word_of_nat (be_digits 256 n))"

definition encode_tlv :: "tlv \<Rightarrow> bytes" where
  "encode_tlv t =
     word_of_nat (cls t * 64 + (if constructed t then 32 else 0) + min (tag_number t) 31) #
     (if tag_number t < 31 then [] else high_bytes (be_digits 128 (tag_number t))) @
     encode_length (length (content t)) @ content t"

definition tlv_ok :: "tlv \<Rightarrow> bool" where
  "tlv_ok t \<longleftrightarrow> cls t < 4 \<and> tag_number t < 2 ^ 32 \<and> length (content t) < 2 ^ 32"

lemma byte_low:
  fixes b :: u8
  shows "unat (b AND 0x7F) = unat b mod 128" "unat (b AND 0x1F) = unat b mod 32"
proof -
  have m: "0x7F = (mask 7 :: u8)" "0x1F = (mask 5 :: u8)" by (simp_all add: mask_eq_exp_minus_1)
  show "unat (b AND 0x7F) = unat b mod 128"
    unfolding m take_bit_eq_mask [symmetric] unsigned_take_bit_eq by (simp add: take_bit_eq_mod)
  show "unat (b AND 0x1F) = unat b mod 32"
    unfolding m take_bit_eq_mask [symmetric] unsigned_take_bit_eq by (simp add: take_bit_eq_mod)
qed

lemma byte_lt: "unat (b :: u8) < 256"
  using unsigned_less [of b] by simp

lemma byte_bits:
  fixes b :: u8
  shows "b AND 0x80 = 0 \<longleftrightarrow> unat b < 128" "b AND 0x20 \<noteq> 0 \<longleftrightarrow> odd (unat b div 32)"
    "unat (drop_bit 6 b) = unat b div 64"
proof -
  have m: "0x80 = (2 ^ 7 :: u8)" "0x20 = (2 ^ 5 :: u8)" by simp_all
  have bit: "bit b n \<longleftrightarrow> odd (unat b div 2 ^ n)" if "n < 8" for n
    using that bit_unsigned_iff [where 'a = nat, of b n] by (simp add: bit_iff_odd)
  have "128 \<le> unat b \<Longrightarrow> unat b div 128 = 1" using byte_lt [of b] by (simp add: div_nat_eqI)
  then have "odd (unat b div 128) \<longleftrightarrow> \<not> unat b < 128" by (cases "unat b < 128") auto
  then show "b AND 0x80 = 0 \<longleftrightarrow> unat b < 128"
    unfolding m and_exp_eq_0_iff_not_bit using bit [of 7] by simp
  show "b AND 0x20 \<noteq> 0 \<longleftrightarrow> odd (unat b div 32)"
    unfolding m and_exp_eq_0_iff_not_bit using bit [of 5] by simp
  show "unat (drop_bit 6 b) = unat b div 64"
    unfolding unat_drop_bit_eq by (simp add: drop_bit_eq_div)
qed

lemma byte_of_nat [simp]: "n < 256 \<Longrightarrow> unat (word_of_nat n :: u8) = n"
  by (simp add: unat_of_nat)

lemma byte_eq_iff: "(b :: u8) = word_of_nat n \<longleftrightarrow> unat b = n" if "n < 256"
  using that by (metis byte_of_nat word_unat_eq_iff)

lemma high_bytes_Cons: "ds \<noteq> [] \<Longrightarrow> high_bytes (d # ds) = word_of_nat (128 + d) # high_bytes ds"
  by (cases ds) auto

lemma high_bytes_head:
  assumes "list_all (\<lambda>d. d < 128) ds" "ds \<noteq> []"
  shows "b # bs = high_bytes ds @ rest \<longleftrightarrow> hd ds = unat b mod 128 \<and>
    (if unat b < 128 then tl ds = [] \<and> bs = rest else tl ds \<noteq> [] \<and> bs = high_bytes (tl ds) @ rest)"
proof -
  obtain d es where ds: "ds = d # es" "d < 128" using assms by (cases ds) auto
  have b: "unat b < 256" by (rule byte_lt)
  show ?thesis
  proof (cases "es = []")
    case True
    with ds show ?thesis by (auto simp: byte_eq_iff)
  next
    case False
    then have "b # bs = high_bytes ds @ rest \<longleftrightarrow> unat b = 128 + d \<and> bs = high_bytes es @ rest"
      using ds byte_eq_iff [of "128 + d" b] by (simp add: high_bytes_Cons)
    moreover have "unat b = 128 + d \<longleftrightarrow> d = unat b mod 128 \<and> 128 \<le> unat b"
    proof -
      have "128 \<le> unat b \<Longrightarrow> unat b mod 128 = unat b - 128" using b by (simp add: le_mod_geq)
      then show ?thesis using ds(2) by (cases "128 \<le> unat b") auto
    qed
    ultimately show ?thesis using False ds by auto
  qed
qed

lemma high_tag_iff:
  assumes "n < 2 ^ 32"
  shows "high_tag first n bs = Inr (m, rest) \<longleftrightarrow>
    (\<exists>ds. ds \<noteq> [] \<and> list_all (\<lambda>d. d < 128) ds \<and> (first \<longrightarrow> hd ds \<noteq> 0) \<and>
       be_value 128 n ds = m \<and> m < 2 ^ 32 \<and> bs = high_bytes ds @ rest)"
  using assms
proof (induction first n bs rule: high_tag.induct)
  case (1 first n)
  have "high_bytes ds \<noteq> []" if "ds \<noteq> []" for ds using that by (cases ds rule: high_bytes.cases) auto
  then show ?case by auto
next
  case (2 first n b bs)
  let ?d = "unat b mod 128" and ?n = "n * 128 + unat b mod 128"
  have zero: "b AND 0x7F = 0 \<longleftrightarrow> ?d = 0" by (simp add: byte_low [symmetric] unat_eq_0)
  have grow: "2 ^ 32 \<le> ?n \<Longrightarrow> 2 ^ 32 \<le> be_value 128 ?n ds" for ds
    using be_value_mono [of 128 ?n ds] by linarith
  have heads: "(\<exists>ds. ds \<noteq> [] \<and> list_all (\<lambda>d. d < 128) ds \<and> (first \<longrightarrow> hd ds \<noteq> 0) \<and>
       be_value 128 n ds = m \<and> m < 2 ^ 32 \<and> b # bs = high_bytes ds @ rest) \<longleftrightarrow>
    (first \<longrightarrow> ?d \<noteq> 0) \<and> (\<exists>es. list_all (\<lambda>d. d < 128) es \<and> be_value 128 ?n es = m \<and> m < 2 ^ 32 \<and>
       (if unat b < 128 then es = [] \<and> bs = rest else es \<noteq> [] \<and> bs = high_bytes es @ rest))"
    (is "?L \<longleftrightarrow> ?R")
  proof
    assume ?L
    then obtain ds where "ds \<noteq> []" "list_all (\<lambda>d. d < 128) ds" "first \<longrightarrow> hd ds \<noteq> 0"
      "be_value 128 n ds = m" "m < 2 ^ 32" "b # bs = high_bytes ds @ rest" by blast
    then show ?R by (cases ds) (auto simp: high_bytes_head)
  next
    assume ?R
    then obtain es where "first \<longrightarrow> ?d \<noteq> 0" "list_all (\<lambda>d. d < 128) es" "be_value 128 ?n es = m" "m < 2 ^ 32"
      "if unat b < 128 then es = [] \<and> bs = rest else es \<noteq> [] \<and> bs = high_bytes es @ rest" by blast
    then show ?L by (intro exI [of _ "?d # es"]) (simp add: high_bytes_head)
  qed
  show ?case
  proof (cases "2 ^ 32 \<le> ?n")
    case True
    then have "\<not> be_value 128 ?n es < 2 ^ 32" for es using grow by (simp only: not_less)
    with True show ?thesis unfolding heads by (auto simp: byte_low byte_bits zero Let_def)
  next
    case False
    with 2 show ?thesis unfolding heads by (auto simp: byte_low byte_bits zero Let_def not_less)
  qed
qed

lemma read_tag_iff:
  "read_tag b0 bs = Inr (n, rest) \<longleftrightarrow>
     n < 2 ^ 32 \<and> unat b0 mod 32 = min n 31 \<and>
     bs = (if n < 31 then [] else high_bytes (be_digits 128 n)) @ rest"
proof (cases "unat b0 mod 32 = 31")
  case True
  have "(\<exists>ds. ds \<noteq> [] \<and> list_all (\<lambda>d. d < 128) ds \<and> hd ds \<noteq> 0 \<and> be_value 128 0 ds = n \<and> n < 2 ^ 32 \<and>
      bs = high_bytes ds @ rest) \<longleftrightarrow> n < 2 ^ 32 \<and> bs = high_bytes (be_digits 128 n) @ rest" if "31 \<le> n"
  proof
    assume "n < 2 ^ 32 \<and> bs = high_bytes (be_digits 128 n) @ rest"
    then show "\<exists>ds. ds \<noteq> [] \<and> list_all (\<lambda>d. d < 128) ds \<and> hd ds \<noteq> 0 \<and> be_value 128 0 ds = n \<and> n < 2 ^ 32 \<and>
      bs = high_bytes ds @ rest"
      using that be_digits_ok [of 128 n] by (intro exI [of _ "be_digits 128 n"]) (simp add: be_digits_value)
  qed (auto simp: be_digits_unique)
  with True show ?thesis
    by (auto simp: read_tag_def byte_low high_tag_iff split: if_splits)
next
  case False
  moreover have "unat b0 mod 32 < 32" by simp
  ultimately show ?thesis by (auto simp: read_tag_def byte_low min_def)
qed

lemma long_length_iff:
  "long_length n first len bs = Inr (m, rest) \<longleftrightarrow>
     n \<le> length bs \<and> (first \<and> 0 < n \<longrightarrow> hd bs \<noteq> 0) \<and>
     m = be_value 256 len (map unat (take n bs)) \<and> rest = drop n bs"
  by (induction n first len bs rule: long_length.induct) auto

lemma map_unat_bytes [simp]: "list_all (\<lambda>d. d < 256) ds \<Longrightarrow> map (unat \<circ> (word_of_nat :: nat \<Rightarrow> u8)) ds = ds"
  by (induction ds) auto

lemma read_length_iff: "read_length bs = Inr (n, rest) \<longleftrightarrow> n < 2 ^ 32 \<and> bs = encode_length n @ rest"
proof
  assume read: "read_length bs = Inr (n, rest)"
  then obtain l0 bs' where bs: "bs = l0 # bs'" by (cases bs) (auto simp: read_length_def)
  show "n < 2 ^ 32 \<and> bs = encode_length n @ rest"
  proof (cases "unat l0 < 128")
    case True
    with read bs show ?thesis by (simp add: read_length_def byte_bits encode_length_def byte_eq_iff)
  next
    case False
    define k where "k = unat l0 mod 128"
    define ds where "ds = map unat (take k bs')"
    have k: "0 < k" "k \<le> 4" "k \<le> length bs'" "hd bs' \<noteq> 0" "n = be_value 256 0 ds" "128 \<le> n"
      and rest: "rest = drop k bs'"
      using read bs False
      by (auto simp: read_length_def byte_bits byte_low Let_def long_length_iff k_def ds_def split: if_splits)
    have len: "length ds = k" and "list_all (\<lambda>d. d < 256) ds" and "ds \<noteq> []"
      using k by (auto simp: ds_def list_all_iff byte_lt)
    moreover have "hd ds \<noteq> 0" using k by (cases bs'; cases k) (auto simp: ds_def unat_eq_0)
    ultimately have ds: "be_digits 256 n = ds" using k(5) by (simp add: be_digits_unique)
    have "length (be_digits 256 n) \<le> 4" using ds len k by simp
    then have "n < 256 ^ 4" by (simp add: length_be_digits)
    moreover have "unat l0 = 128 + k" using False byte_lt [of l0] by (simp add: k_def le_mod_geq)
    then have "l0 = word_of_nat (128 + k)" using k by (subst byte_eq_iff) auto
    moreover have "map word_of_nat ds = take k bs'" by (simp add: ds_def map_idI)
    ultimately show ?thesis using bs k rest len ds by (simp add: encode_length_def)
  qed
next
  assume a: "n < 2 ^ 32 \<and> bs = encode_length n @ rest"
  show "read_length bs = Inr (n, rest)"
  proof (cases "n < 128")
    case True
    with a show ?thesis by (simp add: read_length_def encode_length_def byte_bits)
  next
    case False
    let ?ds = "be_digits 256 n"
    have ds: "list_all (\<lambda>d. d < 256) ?ds" "hd ?ds \<noteq> 0" using be_digits_ok [of 256 n] False by auto
    have len: "length ?ds \<le> 4" using a by (simp add: length_be_digits)
    moreover have "0 < length ?ds" by simp
    ultimately have "unat (word_of_nat (128 + length ?ds) :: u8) = 128 + length ?ds" by (intro byte_of_nat) linarith
    moreover have "hd (map word_of_nat ?ds @ rest :: bytes) \<noteq> 0"
      using ds by (cases ?ds) (auto simp: word_unat_eq_iff)
    ultimately show ?thesis using a False len ds
      by (simp add: read_length_def encode_length_def byte_bits byte_low long_length_iff be_digits_value Let_def)
  qed
qed

lemma leading_byte:
  fixes b :: u8
  assumes "c < 4" "m < 32"
  shows "b = word_of_nat (c * 64 + (if k then 32 else 0) + m) \<longleftrightarrow>
    unat (drop_bit 6 b) = c \<and> (b AND 0x20 \<noteq> 0) = k \<and> unat b mod 32 = m"
proof -
  have "c * 64 + (if k then 32 else 0) + m < 256" using assms by auto
  then have "b = word_of_nat (c * 64 + (if k then 32 else 0) + m) \<longleftrightarrow>
      unat b = c * 64 + (if k then 32 else 0) + m" by (rule byte_eq_iff)
  moreover have "x = c * 64 + (if k then 32 else 0) + m \<longleftrightarrow> x div 64 = c \<and> odd (x div 32) = k \<and> x mod 32 = m" for x
  proof
    assume "x div 64 = c \<and> odd (x div 32) = k \<and> x mod 32 = m"
    moreover have "x = 32 * (x div 32) + x mod 32" "x div 64 = x div 32 div 2"
      by (simp_all add: div_mult2_eq [symmetric])
    ultimately show "x = c * 64 + (if k then 32 else 0) + m" by (cases k) (auto elim!: oddE evenE)
  next
    assume x: "x = c * 64 + (if k then 32 else 0) + m"
    then have "x div 32 = 2 * c + (if k then 1 else 0)" using assms(2) by (auto intro!: div_nat_eqI)
    moreover have "x = (2 * c + (if k then 1 else 0)) * 32 + m" using x by simp
    then have "x mod 32 = m" using assms(2) by (simp only: mod_mult_self3 mod_less)
    moreover have "x div 64 = c" using x assms(2) by (auto intro!: div_nat_eqI)
    ultimately show "x div 64 = c \<and> odd (x div 32) = k \<and> x mod 32 = m" by auto
  qed
  ultimately show ?thesis by (simp add: byte_bits)
qed

text \<open>C18: The DER reader of the key-description extension is exact: it accepts an input just when the input
  starts with the canonical encoding of a well-formed element (shortest tag form, no leading zero group, definite
  shortest length, all content present), and then it returns that element and exactly the bytes after it. So encoding
  and reading round-trip, no non-canonical encoding is accepted, and no canonical one is refused.\<close>

theorem read_tlv_canonical:
  "read_tlv input = Inr (t, rest) \<longleftrightarrow> tlv_ok t \<and> input = encode_tlv t @ rest"
proof (cases input)
  case (Cons b0 bs)
  have read: "read_tlv input = Inr (t, rest) \<longleftrightarrow>
    (\<exists>bs1 bs2. read_tag b0 bs = Inr (tag_number t, bs1) \<and> read_length bs1 = Inr (length (content t), bs2) \<and>
       cls t = unat (drop_bit 6 b0) \<and> constructed t = (b0 AND 0x20 \<noteq> 0) \<and> bs2 = content t @ rest)"
    (is "?L \<longleftrightarrow> ?R")
  proof
    assume ?L then show ?R unfolding Cons read_tlv_def by (fastforce split: if_splits)
  next
    assume ?R then show ?L unfolding Cons read_tlv_def by (cases t) fastforce
  qed
  have "unat (drop_bit 6 b0) < 4" using byte_lt [of b0] by (simp add: byte_bits less_mult_imp_div_less)
  then have lead: "cls t < 4 \<and>
      b0 = word_of_nat (cls t * 64 + (if constructed t then 32 else 0) + min (tag_number t) 31) \<longleftrightarrow>
      unat b0 mod 32 = min (tag_number t) 31 \<and> cls t = unat (drop_bit 6 b0) \<and> constructed t = (b0 AND 0x20 \<noteq> 0)"
    using leading_byte [of "cls t" "min (tag_number t) 31" b0 "constructed t"] by (auto simp: min_def)
  have "tlv_ok t \<and> input = encode_tlv t @ rest \<longleftrightarrow>
      tag_number t < 2 ^ 32 \<and> length (content t) < 2 ^ 32 \<and>
      (cls t < 4 \<and> b0 = word_of_nat (cls t * 64 + (if constructed t then 32 else 0) + min (tag_number t) 31)) \<and>
      bs = (if tag_number t < 31 then [] else high_bytes (be_digits 128 (tag_number t))) @
           encode_length (length (content t)) @ content t @ rest"
    unfolding Cons encode_tlv_def tlv_ok_def append_Cons list.inject append_assoc by blast
  then show ?thesis unfolding read read_tag_iff read_length_iff lead by blast
qed (auto simp: read_tlv_def encode_tlv_def)

end
