(* ===== verification/KeyAttest.thy ===== *)
theory KeyAttest
  imports Der Env
begin

text \<open>
  Android key attestation: certificate checks (\<open>auth/x509.rs\<close>), the chain verifier and its
  policy (\<open>auth/key_attest/verify.rs\<close>), the chain field of a request body
  (\<open>auth/key_attest.rs\<close>) and the cached revocation list (\<open>auth/key_attest/crl.rs\<close>). X.509
  parsing, the hash functions, the signature schemes and hexadecimal text are third-party: a
  parsed certificate is a record of what the code reads of it, and the functions come in a
  \<open>crypto\<close> record. Shown here: the verifier accepts exactly the chains of a declarative
  specification, and a revocation list that is served is never older than the configured bound.
\<close>

section \<open>Certificates\<close>

record certificate =
  c_subject :: bytes
  c_issuer :: bytes
  c_valid_at :: "int \<Rightarrow> bool"
  c_key_usage :: "string + (bool \<times> bool) option"
  c_serial_radix :: "nat \<Rightarrow> string"
  c_raw_serial :: bytes
  c_sig_alg :: string
  c_tbs :: bytes
  c_signature :: bytes
  c_key_bytes :: bytes
  c_key_curve :: "string option"
  c_extensions :: "(string \<times> bytes) list"

record crypto =
  cy_sha256 :: "bytes \<Rightarrow> bytes"
  cy_sha384 :: "bytes \<Rightarrow> bytes"
  cy_hex :: "bytes \<Rightarrow> string"
  cy_parse_cert :: "bytes \<Rightarrow> string + certificate"
  cy_asn1_time :: "int \<Rightarrow> string + unit"
  cy_rsa_key :: "bytes \<Rightarrow> string + unit"
  cy_rsa_verify :: "string \<Rightarrow> bytes \<Rightarrow> bytes \<Rightarrow> bytes \<Rightarrow> bool"
  cy_p256_key :: "bytes \<Rightarrow> string + unit"
  cy_p256_sig :: "bytes \<Rightarrow> string + unit"
  cy_p256_verify :: "bytes \<Rightarrow> bytes \<Rightarrow> bytes \<Rightarrow> bool"
  cy_p384_key :: "bytes \<Rightarrow> string + unit"
  cy_p384_sig :: "bytes \<Rightarrow> string + unit"
  cy_p384_verify :: "bytes \<Rightarrow> bytes \<Rightarrow> bytes \<Rightarrow> bool"

definition ECDSA_WITH_SHA256 :: string where "ECDSA_WITH_SHA256 = ''1.2.840.10045.4.3.2''"
definition ECDSA_WITH_SHA384 :: string where "ECDSA_WITH_SHA384 = ''1.2.840.10045.4.3.3''"
definition SHA256_WITH_RSA :: string where "SHA256_WITH_RSA = ''1.2.840.113549.1.1.11''"
definition SHA384_WITH_RSA :: string where "SHA384_WITH_RSA = ''1.2.840.113549.1.1.12''"
definition CURVE_P256 :: string where "CURVE_P256 = ''1.2.840.10045.3.1.7''"
definition CURVE_P384 :: string where "CURVE_P384 = ''1.3.132.0.34''"

definition check_validity :: "crypto \<Rightarrow> certificate \<Rightarrow> int \<Rightarrow> string + unit" where
  "check_validity cy c now =
     and_then (map_error (\<lambda>e. ''timestamp: '' @ e) (cy_asn1_time cy now)) (\<lambda>_.
     ensure (c_valid_at c now) ''certificate outside validity window'')"

definition signature_prehash :: "crypto \<Rightarrow> certificate \<Rightarrow> string + bytes" where
  "signature_prehash cy c =
     (if c_sig_alg c = ECDSA_WITH_SHA256 \<or> c_sig_alg c = SHA256_WITH_RSA then Inr (cy_sha256 cy (c_tbs c))
      else if c_sig_alg c = ECDSA_WITH_SHA384 \<or> c_sig_alg c = SHA384_WITH_RSA then Inr (cy_sha384 cy (c_tbs c))
      else Inl (''unsupported signature alg '' @ c_sig_alg c))"

definition verify_signed_by :: "crypto \<Rightarrow> certificate \<Rightarrow> certificate \<Rightarrow> string + unit" where
  "verify_signed_by cy child parent =
     and_then (signature_prehash cy child) (\<lambda>prehash.
     let sig = c_signature child; key = c_key_bytes parent in
     and_then
       (if c_sig_alg child = SHA256_WITH_RSA \<or> c_sig_alg child = SHA384_WITH_RSA
        then and_then (map_error (\<lambda>e. ''parent RSA key: '' @ e) (cy_rsa_key cy key)) (\<lambda>_.
             Inr (cy_rsa_verify cy (c_sig_alg child) key prehash sig))
        else and_then (ok_or ''parent key has no curve'' (c_key_curve parent)) (\<lambda>curve.
             if curve = CURVE_P256
             then and_then (map_error (\<lambda>e. ''parent P-256 key: '' @ e) (cy_p256_key cy key)) (\<lambda>_.
                  and_then (map_error (\<lambda>e. ''signature: '' @ e) (cy_p256_sig cy sig)) (\<lambda>_.
                  Inr (cy_p256_verify cy key prehash sig)))
             else if curve = CURVE_P384
             then and_then (map_error (\<lambda>e. ''parent P-384 key: '' @ e) (cy_p384_key cy key)) (\<lambda>_.
                  and_then (map_error (\<lambda>e. ''signature: '' @ e) (cy_p384_sig cy sig)) (\<lambda>_.
                  Inr (cy_p384_verify cy key prehash sig)))
             else Inl (''unsupported curve '' @ curve)))
       (\<lambda>verified. ensure verified ''signature verification failed''))"

section \<open>The chain verifier\<close>

definition MAX_CHAIN_LENGTH :: nat where "MAX_CHAIN_LENGTH = 10"
definition ANDROID_ATTESTATION_OID :: string where "ANDROID_ATTESTATION_OID = ''1.3.6.1.4.1.11129.2.1.17''"
definition BOOT_STATE_VERIFIED :: nat where "BOOT_STATE_VERIFIED = 0"
definition BOOT_STATE_SELF_SIGNED :: nat where "BOOT_STATE_SELF_SIGNED = 1"

definition KNOWN_PUBLIC_VERIFIED_BOOT_KEYS :: "string list" where
  "KNOWN_PUBLIC_VERIFIED_BOOT_KEYS =
     [''22de3994532196f61c039e90260d78a93a4c57362c7e789be928036e80b77c8c'',
      ''7728e30f50bfa5cea165f473175a08803f6a8346642b5aa10913e9d9e6defef6'',
      ''e15e2365469ce672a91d02cc8d9c2f29b787481e574d3b56ac774153d7ced614'']"

definition GRAPHENEOS_VERIFIED_BOOT_KEYS :: "string list" where
  "GRAPHENEOS_VERIFIED_BOOT_KEYS =
     [''d8f879d10419eddc9fcda6280718be763f6bf12299e1f72df3ea8ad8a8eb7f80'',
      ''55a2d44103e56d5ec65496399c417987ba77730e6488fc60ba058d09fc3caee3'',
      ''141d7fc32af7958a416f2661b37cf6f27bfb376fb5ce616aeaa27a82c7a04f74'',
      ''4e8ee8f717754052198ca6d2d3aaa232e2461b4293c0d6f297e519cc778de093'',
      ''3f7415ea26f5df5b14ea6d153256071a7a1af9ce7b0970b7311cc463c7ea02c7'',
      ''0508de44ee00bfb49ece32c418af1896391abde0f05b64f41bc9a2dfb589445b'',
      ''af4d2c6e62be0fec54f0271b9776ff061dd8392d9f51cf6ab1551d346679e24c'',
      ''55d3c2323db91bb91f20d38d015e85112d038f6b6b5738fe352c1a80dba57023'',
      ''f729cab861da1b83fdfab402fc9480758f2ae78ee0b61c1f2137dd1ab7076e86'',
      ''9e6a8f3e0d761a780179f93acd5721ba1ab7c8c537c7761073c0a754b0e932de'',
      ''096b8bd6d44527a24ac1564b308839f67e78202185cbff9cfdcb10e63250bc5e'',
      ''896db2d09d84e1d6bb747002b8a114950b946e5825772a9d48ba7eb01d118c1c'',
      ''cd7479653aa88208f9f03034810ef9b7b0af8a9d41e2000e458ac403a2acb233'',
      ''ee0c9dfef6f55a878538b0dbf7e78e3bc3f1a13c8c44839b095fe26dd5fe2842'',
      ''94df136e6c6aa08dc26580af46f36419b5f9baf46039db076f5295b91aaff230'',
      ''508d75dea10c5cbc3e7632260fc0b59f6055a8a49dd84e693b6d8899edbb01e4'',
      ''bc1c0dd95664604382bb888412026422742eb333071ea0b2d19036217d49182f'',
      ''3efe5392be3ac38afb894d13de639e521675e62571a8a9b3ef9fc8c44fd17fa1'',
      ''08c860350a9600692d10c8512f7b8e80707757468e8fbfeea2a870c0a83d6031'',
      ''439b76524d94c40652ce1bf0d8243773c634d2f99ba3160d8d02aa5e29ff925c'',
      ''f0a890375d1405e62ebfd87e8d3f475f948ef031bbf9ddd516d5f600a23677e8'']"

record verify_params =
  vp_challenge :: bytes
  vp_package_names :: "string list"
  vp_playstore_digest :: bytes
  vp_website_digest :: bytes
  vp_trusted_roots_der :: "bytes list"
  vp_trusted_verified_boot_keys :: "string list"
  vp_revoked_serials :: "string set"
  vp_now_unix :: int

datatype key_attest_error =
  KMalformed string | KChain string | KRootNotTrusted | KRevoked string | KExtension string
| KSecurityLevel nat nat | KRootOfTrust string | KChallenge | KPackage string | KSigningDigest string

fun key_attest_error_str :: "key_attest_error \<Rightarrow> string" where
  "key_attest_error_str (KMalformed m) = ''malformed attestation chain: '' @ m"
| "key_attest_error_str (KChain m) = ''certificate chain rejected: '' @ m"
| "key_attest_error_str KRootNotTrusted = ''chain does not terminate at a trusted Google root''"
| "key_attest_error_str (KRevoked s) = ''certificate serial '' @ s @ '' is revoked''"
| "key_attest_error_str (KExtension m) = ''key-description extension rejected: '' @ m"
| "key_attest_error_str (KSecurityLevel a k) =
     ''attestation security level '' @ nat_to_string a @ ''/'' @ nat_to_string k @ '' is not TEE or StrongBox''"
| "key_attest_error_str (KRootOfTrust m) = ''root of trust rejected: '' @ m"
| "key_attest_error_str KChallenge = ''attestation challenge mismatch''"
| "key_attest_error_str (KPackage p) = ''attested package '' @ debug_str p @ '' is not allow-listed''"
| "key_attest_error_str (KSigningDigest m) = ''signing digest rejected: '' @ m"

definition find_attestation_extension :: "certificate \<Rightarrow> bytes option" where
  "find_attestation_extension c =
     map_option snd (find (\<lambda>(oid, _). oid = ANDROID_ATTESTATION_OID) (c_extensions c))"

definition check_key_usage :: "certificate \<Rightarrow> nat \<Rightarrow> nat \<Rightarrow> string + unit" where
  "check_key_usage c index len =
     (case c_key_usage c of
        Inr (Some (digital_signature, key_cert_sign)) \<Rightarrow>
          if index = 0 \<and> \<not> digital_signature
          then Inl (''leaf certificate '' @ nat_to_string index @ '' missing digitalSignature'')
          else if 0 < index \<and> index < len - 1 \<and> \<not> key_cert_sign
          then Inl (''intermediate certificate '' @ nat_to_string index @ '' missing keyCertSign'')
          else Inr ()
      | _ \<Rightarrow> Inr ())"

definition check_revocation :: "crypto \<Rightarrow> certificate \<Rightarrow> string set \<Rightarrow> key_attest_error + unit" where
  "check_revocation cy c revoked =
     (let trimmed_hex = c_serial_radix c 16
      in ensure (\<not> list_ex (\<lambda>s. s \<in> revoked) [trimmed_hex, cy_hex cy (c_raw_serial c), c_serial_radix c 10])
           (KRevoked trimmed_hex))"

definition check_root_of_trust :: "crypto \<Rightarrow> root_of_trust \<Rightarrow> verify_params \<Rightarrow> key_attest_error + unit" where
  "check_root_of_trust cy rot ps =
     (let key_hex = cy_hex cy (verified_boot_key rot) in
      if key_hex \<in> set KNOWN_PUBLIC_VERIFIED_BOOT_KEYS
      then Inl (KRootOfTrust (''known-public AVB test key '' @ key_hex)) else
      and_then
        (if verified_boot_state rot = BOOT_STATE_VERIFIED then Inr ()
         else if verified_boot_state rot = BOOT_STATE_SELF_SIGNED
         then ensure (key_hex \<in> set (vp_trusted_verified_boot_keys ps))
                (KRootOfTrust (''untrusted self-signed verified-boot key '' @ key_hex))
         else Inl (KRootOfTrust (''verified boot state '' @ nat_to_string (verified_boot_state rot) @
                '' is not Verified or SelfSigned''))) (\<lambda>_.
      ensure (device_locked rot) (KRootOfTrust ''bootloader is not locked'')))"

definition check_application :: "crypto \<Rightarrow> key_description \<Rightarrow> verify_params \<Rightarrow> key_attest_error + unit" where
  "check_application cy d ps =
     (if kd_package_names d = [] then Inl (KPackage []) else
      case find (\<lambda>name. name \<notin> set (vp_package_names ps)) (kd_package_names d) of
        Some name \<Rightarrow> Inl (KPackage name)
      | None \<Rightarrow>
          (case signing_digests d of
             [digest] \<Rightarrow>
               ensure (digest = vp_playstore_digest ps \<or> digest = vp_website_digest ps)
                 (KSigningDigest (''unknown digest '' @ cy_hex cy digest))
           | ds \<Rightarrow> Inl (KSigningDigest (''expected one attested digest, got '' @ nat_to_string (length ds)))))"

definition check_policy :: "crypto \<Rightarrow> key_description \<Rightarrow> verify_params \<Rightarrow> key_attest_error + unit" where
  "check_policy cy d ps =
     (let level_ok = (\<lambda>l. l = 1 \<or> l = 2) in
      if \<not> level_ok (attestation_security_level d) \<or> \<not> level_ok (key_security_level d)
      then Inl (KSecurityLevel (attestation_security_level d) (key_security_level d)) else
      and_then (ok_or (KRootOfTrust ''missing'') (kd_root_of_trust d)) (\<lambda>rot.
      and_then (check_root_of_trust cy rot ps) (\<lambda>_.
      if attestation_challenge d \<noteq> vp_challenge ps then Inl KChallenge else
      check_application cy d ps)))"

fun parse_certs :: "crypto \<Rightarrow> nat \<Rightarrow> bytes list \<Rightarrow> key_attest_error + certificate list" where
  "parse_certs cy i [] = Inr []"
| "parse_certs cy i (der # ders) =
     and_then (map_error (\<lambda>e. KMalformed (''certificate '' @ nat_to_string i @ '': '' @ e)) (cy_parse_cert cy der)) (\<lambda>c.
     and_then (parse_certs cy (Suc i) ders) (\<lambda>cs. Inr (c # cs)))"

fun issuer_links :: "nat \<Rightarrow> certificate list \<Rightarrow> key_attest_error + unit" where
  "issuer_links i (c # p # cs) =
     (if c_issuer c \<noteq> c_subject p
      then Inl (KChain (''certificate '' @ nat_to_string i @ '' issuer does not match certificate '' @
             nat_to_string (i + 1) @ '' subject''))
      else issuer_links (Suc i) (p # cs))"
| "issuer_links i cs = Inr ()"

fun check_each :: "crypto \<Rightarrow> verify_params \<Rightarrow> nat \<Rightarrow> nat \<Rightarrow> certificate list \<Rightarrow> key_attest_error + unit" where
  "check_each cy ps len i [] = Inr ()"
| "check_each cy ps len i (c # cs) =
     and_then (map_error (\<lambda>e. KChain (''certificate '' @ nat_to_string i @ '': '' @ e))
                 (check_validity cy c (vp_now_unix ps))) (\<lambda>_.
     and_then (map_error KChain (check_key_usage c i len)) (\<lambda>_.
     and_then (check_revocation cy c (vp_revoked_serials ps)) (\<lambda>_.
     check_each cy ps len (Suc i) cs)))"

fun signature_links :: "crypto \<Rightarrow> nat \<Rightarrow> certificate list \<Rightarrow> key_attest_error + unit" where
  "signature_links cy i (c # p # cs) =
     and_then (map_error (\<lambda>e. KChain (''certificate '' @ nat_to_string i @ '': '' @ e)) (verify_signed_by cy c p)) (\<lambda>_.
     signature_links cy (Suc i) (p # cs))"
| "signature_links cy i cs = Inr ()"

definition root_trusted :: "crypto \<Rightarrow> verify_params \<Rightarrow> certificate \<Rightarrow> bool" where
  "root_trusted cy ps c =
     list_ex (\<lambda>der. case cy_parse_cert cy der of
        Inr root \<Rightarrow> verify_signed_by cy c root = Inr () | Inl _ \<Rightarrow> False) (vp_trusted_roots_der ps)"

definition leaf_first :: "certificate list \<Rightarrow> certificate list" where
  "leaf_first cs = (if c_subject (hd cs) = c_issuer (hd cs) then rev cs else cs)"

definition verify_chain :: "crypto \<Rightarrow> bytes list \<Rightarrow> verify_params \<Rightarrow> key_attest_error + unit" where
  "verify_chain cy chain_der ps =
     (if length chain_der < 2 \<or> length chain_der > MAX_CHAIN_LENGTH
      then Inl (KMalformed (''chain length '' @ nat_to_string (length chain_der) @ '' outside 2..='' @
             nat_to_string MAX_CHAIN_LENGTH)) else
      and_then (parse_certs cy 0 chain_der) (\<lambda>parsed.
      let certs = leaf_first parsed in
      and_then (issuer_links 0 certs) (\<lambda>_.
      and_then (check_each cy ps (length certs) 0 certs) (\<lambda>_.
      and_then (signature_links cy 0 certs) (\<lambda>_.
      if \<not> root_trusted cy ps (last certs) then Inl KRootNotTrusted else
      if list_ex (\<lambda>c. find_attestation_extension c \<noteq> None) (tl certs)
      then Inl (KExtension ''key-description extension on a non-leaf certificate'') else
      and_then (ok_or (KExtension ''leaf has no key-description extension'')
                  (find_attestation_extension (hd certs))) (\<lambda>ext.
      and_then (map_error KExtension (parse_key_description ext)) (\<lambda>d.
      check_policy cy d ps)))))))"

section \<open>What it accepts\<close>

text \<open>A certificate may stand in the chain at position \<open>i\<close> of \<open>n\<close>: in its validity window,
  allowed to be used there, and under no form of its serial number revoked.\<close>

definition certificate_sound :: "crypto \<Rightarrow> verify_params \<Rightarrow> nat \<Rightarrow> nat \<Rightarrow> certificate \<Rightarrow> bool" where
  "certificate_sound cy ps n i c \<longleftrightarrow>
     check_validity cy c (vp_now_unix ps) = Inr () \<and> check_key_usage c i n = Inr () \<and>
     {c_serial_radix c 16, cy_hex cy (c_raw_serial c), c_serial_radix c 10} \<inter> vp_revoked_serials ps = {}"

text \<open>A leaf-first path: each certificate is issued and signed by the next, the last by a trusted root.\<close>

definition path_sound :: "crypto \<Rightarrow> verify_params \<Rightarrow> certificate list \<Rightarrow> bool" where
  "path_sound cy ps cs \<longleftrightarrow>
     (\<forall>i. Suc i < length cs \<longrightarrow> c_issuer (cs ! i) = c_subject (cs ! Suc i) \<and>
        verify_signed_by cy (cs ! i) (cs ! Suc i) = Inr ()) \<and>
     (\<forall>i < length cs. certificate_sound cy ps (length cs) i (cs ! i)) \<and>
     (\<exists>der \<in> set (vp_trusted_roots_der ps). \<exists>root. cy_parse_cert cy der = Inr root \<and>
        verify_signed_by cy (last cs) root = Inr ())"

text \<open>A device whose attestation is acceptable: the key lives in secure hardware, the bootloader is
  locked on an accepted operating system, and the attested application is ours.\<close>

definition device_genuine :: "crypto \<Rightarrow> verify_params \<Rightarrow> key_description \<Rightarrow> bool" where
  "device_genuine cy ps d \<longleftrightarrow>
     attestation_security_level d \<in> {1, 2} \<and> key_security_level d \<in> {1, 2} \<and>
     (\<exists>rot. kd_root_of_trust d = Some rot \<and> device_locked rot \<and>
        cy_hex cy (verified_boot_key rot) \<notin> set KNOWN_PUBLIC_VERIFIED_BOOT_KEYS \<and>
        (verified_boot_state rot = BOOT_STATE_VERIFIED \<or>
         verified_boot_state rot = BOOT_STATE_SELF_SIGNED \<and>
         cy_hex cy (verified_boot_key rot) \<in> set (vp_trusted_verified_boot_keys ps))) \<and>
     attestation_challenge d = vp_challenge ps \<and>
     kd_package_names d \<noteq> [] \<and> set (kd_package_names d) \<subseteq> set (vp_package_names ps) \<and>
     (\<exists>digest. signing_digests d = [digest] \<and> digest \<in> {vp_playstore_digest ps, vp_website_digest ps})"

definition chain_genuine :: "crypto \<Rightarrow> verify_params \<Rightarrow> bytes list \<Rightarrow> key_description \<Rightarrow> bool" where
  "chain_genuine cy ps ders d \<longleftrightarrow>
     2 \<le> length ders \<and> length ders \<le> MAX_CHAIN_LENGTH \<and>
     (\<exists>parsed certs ext.
        list_all2 (\<lambda>der c. cy_parse_cert cy der = Inr c) ders parsed \<and>
        certs = leaf_first parsed \<and>
        path_sound cy ps certs \<and>
        (\<forall>c \<in> set (tl certs). find_attestation_extension c = None) \<and>
        find_attestation_extension (hd certs) = Some ext \<and> parse_key_description ext = Inr d) \<and>
     device_genuine cy ps d"

lemma check_application_iff:
  "check_application cy d ps = Inr () \<longleftrightarrow>
     kd_package_names d \<noteq> [] \<and> set (kd_package_names d) \<subseteq> set (vp_package_names ps) \<and>
     (\<exists>digest. signing_digests d = [digest] \<and> digest \<in> {vp_playstore_digest ps, vp_website_digest ps})"
proof (cases "find (\<lambda>name. name \<notin> set (vp_package_names ps)) (kd_package_names d)")
  case None
  then have "set (kd_package_names d) \<subseteq> set (vp_package_names ps)" by (auto simp: find_None_iff)
  with None show ?thesis by (auto simp: check_application_def split: list.splits)
next
  case (Some name)
  then have "\<not> set (kd_package_names d) \<subseteq> set (vp_package_names ps)" by (auto simp: find_Some_iff dest: nth_mem)
  with Some show ?thesis by (simp add: check_application_def)
qed

lemma check_root_of_trust_iff:
  "check_root_of_trust cy rot ps = Inr () \<longleftrightarrow> device_locked rot \<and>
     cy_hex cy (verified_boot_key rot) \<notin> set KNOWN_PUBLIC_VERIFIED_BOOT_KEYS \<and>
     (verified_boot_state rot = BOOT_STATE_VERIFIED \<or>
      verified_boot_state rot = BOOT_STATE_SELF_SIGNED \<and>
      cy_hex cy (verified_boot_key rot) \<in> set (vp_trusted_verified_boot_keys ps))"
  by (auto simp: check_root_of_trust_def BOOT_STATE_VERIFIED_def BOOT_STATE_SELF_SIGNED_def Let_def)

lemma check_policy_iff: "check_policy cy d ps = Inr () \<longleftrightarrow> device_genuine cy ps d"
  unfolding check_policy_def device_genuine_def Let_def
  by (auto simp: check_application_iff check_root_of_trust_iff)

lemma parse_certs_iff: "parse_certs cy i ders = Inr cs \<longleftrightarrow> list_all2 (\<lambda>der c. cy_parse_cert cy der = Inr c) ders cs"
  by (induction ders arbitrary: i cs) (auto simp: list_all2_Cons1)

lemma issuer_links_iff:
  "issuer_links i cs = Inr () \<longleftrightarrow> (\<forall>j. Suc j < length cs \<longrightarrow> c_issuer (cs ! j) = c_subject (cs ! Suc j))"
  by (induction i cs rule: issuer_links.induct) (auto simp: less_Suc_eq_0_disj)

lemma signature_links_iff:
  "signature_links cy i cs = Inr () \<longleftrightarrow> (\<forall>j. Suc j < length cs \<longrightarrow> verify_signed_by cy (cs ! j) (cs ! Suc j) = Inr ())"
  by (induction cy i cs rule: signature_links.induct) (auto simp: less_Suc_eq_0_disj)

lemma check_each_iff:
  "check_each cy ps n i cs = Inr () \<longleftrightarrow> (\<forall>j < length cs. certificate_sound cy ps n (i + j) (cs ! j))"
  by (induction cy ps n i cs rule: check_each.induct)
     (auto simp: certificate_sound_def check_revocation_def Let_def less_Suc_eq_0_disj)

lemma root_trusted_iff:
  "root_trusted cy ps c \<longleftrightarrow> (\<exists>der \<in> set (vp_trusted_roots_der ps). \<exists>root. cy_parse_cert cy der = Inr root \<and>
     verify_signed_by cy c root = Inr ())"
  by (simp add: root_trusted_def list_ex_iff case_Inr_iff)

lemma path_sound_iff:
  "path_sound cy ps cs \<longleftrightarrow> issuer_links 0 cs = Inr () \<and> check_each cy ps (length cs) 0 cs = Inr () \<and>
     signature_links cy 0 cs = Inr () \<and> root_trusted cy ps (last cs)"
  by (auto simp: path_sound_def issuer_links_iff check_each_iff signature_links_iff root_trusted_iff)

lemma verify_chain_char: "verify_chain cy ders ps = Inr () \<longleftrightarrow> (\<exists>d. chain_genuine cy ps ders d)"
proof -
  have "verify_chain cy ders ps = Inr () \<longleftrightarrow>
      2 \<le> length ders \<and> length ders \<le> MAX_CHAIN_LENGTH \<and>
      (\<exists>parsed. list_all2 (\<lambda>der c. cy_parse_cert cy der = Inr c) ders parsed \<and>
         path_sound cy ps (leaf_first parsed) \<and>
         (\<forall>c \<in> set (tl (leaf_first parsed)). find_attestation_extension c = None) \<and>
         (\<exists>ext. find_attestation_extension (hd (leaf_first parsed)) = Some ext \<and>
            (\<exists>d. parse_key_description ext = Inr d \<and> device_genuine cy ps d)))"
    unfolding verify_chain_def Let_def
    by (simp add: parse_certs_iff path_sound_iff check_policy_iff list_ex_iff not_less) blast
  then show ?thesis unfolding chain_genuine_def by blast
qed


section \<open>The chain of a request body\<close>

definition MIN_CHAIN_ENTRIES :: nat where "MIN_CHAIN_ENTRIES = 2"
definition MAX_CHAIN_ENTRIES :: nat where "MAX_CHAIN_ENTRIES = 10"
definition MAX_ENTRY_CHARS :: nat where "MAX_ENTRY_CHARS = 8192"

fun decode_chain_entries :: "codecs \<Rightarrow> nat \<Rightarrow> string list \<Rightarrow> string + bytes list" where
  "decode_chain_entries cd i [] = Inr []"
| "decode_chain_entries cd i (entry # rest) =
     (let at = ''attestationChain['' @ nat_to_string i @ '']'' in
      if length entry > MAX_ENTRY_CHARS
      then Inl (at @ '' exceeds '' @ nat_to_string MAX_ENTRY_CHARS @ '' chars'') else
      and_then (map_error (\<lambda>_. at @ '' is not valid base64'') (cd_b64 cd (trim entry))) (\<lambda>der.
      and_then (decode_chain_entries cd (Suc i) rest) (\<lambda>ders. Inr (der # ders))))"

text \<open>\<open>body_json\<close> is the JSON reader of the body: its \<open>attestationChain\<close> field, if any.\<close>

definition chain_from_body :: "(bytes \<Rightarrow> string + string list option) \<Rightarrow> codecs \<Rightarrow> bytes \<Rightarrow> string + bytes list" where
  "chain_from_body body_json cd body =
     and_then (map_error (\<lambda>e. ''body is not valid JSON: '' @ e) (body_json body)) (\<lambda>field.
     and_then (ok_or ''body has no attestationChain field'' field) (\<lambda>chain.
     if length chain < MIN_CHAIN_ENTRIES \<or> length chain > MAX_CHAIN_ENTRIES
     then Inl (''attestationChain has '' @ nat_to_string (length chain) @ '' entries, expected '' @
            nat_to_string MIN_CHAIN_ENTRIES @ ''..='' @ nat_to_string MAX_CHAIN_ENTRIES)
     else decode_chain_entries cd 0 chain))"

section \<open>The revocation list\<close>

datatype crl_error = CrlFetch string | CrlParse string

fun crl_error_str :: "crl_error \<Rightarrow> string" where
  "crl_error_str (CrlFetch e) = ''attestation CRL fetch failed: '' @ e"
| "crl_error_str (CrlParse e) = ''attestation CRL parse failed: '' @ e"

record crl_snapshot =
  fetched_at :: instant
  serials :: "string set"

record crl_source =
  crl_get :: "nat \<Rightarrow> string + bytes"
  crl_entries :: "bytes \<Rightarrow> string + string list"

definition crl_normalize :: "string list \<Rightarrow> string set" where
  "crl_normalize keys = set (map to_ascii_lowercase keys)"

definition parse_crl :: "crl_source \<Rightarrow> bytes \<Rightarrow> crl_error + string set" where
  "parse_crl src body = and_then (map_error CrlParse (crl_entries src body)) (\<lambda>keys. Inr (crl_normalize keys))"

definition within_max_stale :: "int \<Rightarrow> int \<Rightarrow> bool" where
  "within_max_stale age max_stale \<longleftrightarrow> age \<le> max_stale"

definition crl_fetch :: "crl_source \<Rightarrow> ('tb world, crl_error, string set) prog" where
  "crl_fetch src = bindE (map_err CrlFetch (remote (crl_get src))) (\<lambda>body. lift_result (parse_crl src body))"

type_synonym 'tb crl_state = "'tb world \<times> crl_snapshot option"

text \<open>\<open>Instant::elapsed\<close> of a snapshot.\<close>

definition snapshot_age :: "'tb env \<Rightarrow> crl_snapshot \<Rightarrow> ('tb crl_state, 'e, int) prog" where
  "snapshot_age E snap = bindE (on_first (now_utc E)) (\<lambda>now. ret (max 0 (now - fetched_at snap)))"

definition cached_serials :: "'tb env \<Rightarrow> int \<Rightarrow> int \<Rightarrow> ('tb crl_state, 'e, string set option) prog" where
  "cached_serials E ttl max_stale =
     bindE (gets snd) (\<lambda>cache.
     case cache of
       None \<Rightarrow> ret None
     | Some snap \<Rightarrow> bindE (snapshot_age E snap) (\<lambda>age.
         ret (if age < ttl \<and> within_max_stale age max_stale then Some (serials snap) else None)))"

definition stale_serials :: "'tb env \<Rightarrow> int \<Rightarrow> crl_error \<Rightarrow> ('tb crl_state, crl_error, string set) prog" where
  "stale_serials E max_stale err =
     bindE (gets snd) (\<lambda>cache.
     case cache of
       None \<Rightarrow> throw err
     | Some snap \<Rightarrow> bindE (snapshot_age E snap) (\<lambda>age.
         if within_max_stale age max_stale then ret (serials snap) else throw err))"

definition revoked_serials :: "'tb env \<Rightarrow> crl_source \<Rightarrow> int \<Rightarrow> int \<Rightarrow> ('tb crl_state, crl_error, string set) prog" where
  "revoked_serials E src ttl max_stale =
     bindE (cached_serials E ttl max_stale) (\<lambda>cached.
     case cached of
       Some ss \<Rightarrow> ret ss
     | None \<Rightarrow>
         bindE (attempt (on_first (crl_fetch src))) (\<lambda>r.
         case r of
           Inr ss \<Rightarrow>
             bindE (on_first (now_utc E)) (\<lambda>now.
             bindE (modify (\<lambda>(w, _). (w, Some \<lparr>fetched_at = now, serials = ss\<rparr>))) (\<lambda>_. ret ss))
         | Inl err \<Rightarrow> stale_serials E max_stale err))"

text \<open>What a served list is: the snapshot now in the cache, and at a clock reading made during the
  call it was no older than the bound.\<close>

definition crl_served :: "'tb env \<Rightarrow> int \<Rightarrow> 'tb crl_state \<Rightarrow> string set \<Rightarrow> 'tb crl_state \<Rightarrow> bool" where
  "crl_served E max_stale s ss s' \<longleftrightarrow>
     (\<exists>snap k. snd s' = Some snap \<and> serials snap = ss \<and> w_step (fst s) \<le> k \<and> k < w_step (fst s') \<and>
        e_clock E k - fetched_at snap \<le> max_stale)"

lemmas crl_defs = on_first_def now_utc_def bindE_def gets_def ret_def throw_def attempt_def modify_def
  remote_def map_err_def lift_result_def

abbreviation next_step :: "'tb world \<Rightarrow> 'tb world" where
  "next_step w \<equiv> w\<lparr>w_step := Suc (w_step w)\<rparr>"

lemma clock_run: "on_first (now_utc E) (w, c) = (Inr (e_clock E (w_step w)), (next_step w, c))"
  by (simp add: crl_defs)

lemma snapshot_age_run:
  "snapshot_age E snap (w, c) = (Inr (max 0 (e_clock E (w_step w) - fetched_at snap)), (next_step w, c))"
  by (simp add: snapshot_age_def crl_defs)

lemma crl_fetch_run: "on_first (crl_fetch src) (w, c) = (fst (crl_fetch src w), (next_step w, c))"
  by (auto simp: crl_fetch_def crl_defs split: sum.splits prod.splits)

lemma cached_serials_served:
  assumes "cached_serials E ttl max_stale (w, c) = (Inr r, s)"
  shows "snd s = c \<and> w_step w \<le> w_step (fst s) \<and>
    (\<forall>ss. r = Some ss \<longrightarrow> crl_served E max_stale (w, c) ss s)"
proof (cases c)
  case None
  with assms show ?thesis by (auto simp: cached_serials_def crl_defs)
next
  case (Some snap)
  with assms show ?thesis
    by (auto simp: cached_serials_def bindE_def gets_def ret_def snapshot_age_run within_max_stale_def crl_served_def
        split: if_splits intro!: exI [of _ "w_step w"])
qed

lemma stale_serials_served:
  assumes "stale_serials E max_stale err (w, c) = (Inr ss, s)"
  shows "crl_served E max_stale (w, c) ss s"
proof (cases c)
  case None
  with assms show ?thesis by (simp add: stale_serials_def bindE_def gets_def throw_def)
next
  case (Some snap)
  with assms show ?thesis
    by (auto simp: stale_serials_def bindE_def gets_def ret_def throw_def snapshot_age_run within_max_stale_def
        crl_served_def split: if_splits intro!: exI [of _ "w_step w"])
qed

lemma crl_served_earlier: "crl_served E m s1 ss s2 \<Longrightarrow> w_step (fst s0) \<le> w_step (fst s1) \<Longrightarrow> crl_served E m s0 ss s2"
  by (auto simp: crl_served_def intro: le_trans)

text \<open>A revocation list is never served past its bound: whenever \<open>revoked_serials\<close> returns a list, from the
  cache, from a fetch or from the stale fallback after a failed fetch, it is the snapshot held in the cache when the
  call returns, and at a clock reading made during the call that snapshot was at most \<open>max_stale\<close> old.\<close>

theorem revoked_serials_fresh:
  assumes run: "revoked_serials E src ttl max_stale s = (Inr ss, s')" and "0 \<le> max_stale"
  shows "crl_served E max_stale s ss s'"
proof -
  obtain w c where s: "s = (w, c)" by (cases s)
  obtain r w1 where cached: "cached_serials E ttl max_stale (w, c) = (Inr r :: crl_error + string set option, (w1, c))"
    by (cases c) (auto simp: cached_serials_def bindE_def gets_def ret_def snapshot_age_run)
  note c1 = cached_serials_served [OF cached]
  have step: "w_step w \<le> w_step w1" using c1 by simp
  show ?thesis
  proof (cases r)
    case (Some ss')
    with run s cached c1 show ?thesis by (simp add: revoked_serials_def bindE_def ret_def)
  next
    case None
    show ?thesis
    proof (cases "fst (crl_fetch src w1)")
      case (Inr ss')
      with None run s cached step assms(2) show ?thesis
        by (auto simp: revoked_serials_def crl_fetch_run bindE_def attempt_def ret_def modify_def clock_run
            crl_served_def intro!: exI [of _ "Suc (w_step w1)"])
    next
      case (Inl err)
      with None run s cached have "stale_serials E max_stale err (next_step w1, c) = (Inr ss, s')"
        by (simp add: revoked_serials_def crl_fetch_run bindE_def attempt_def)
      from crl_served_earlier [OF stale_serials_served [OF this], of "(w, c)"] step s show ?thesis by simp
    qed
  qed
qed

definition demo_crl :: crl_source where
  "demo_crl = \<lparr>crl_get = \<lambda>_. Inr [], crl_entries = \<lambda>_. Inr [''ab'']\<rparr>"

theorem revoked_serials_fresh_witness:
  "\<exists>s'. revoked_serials (quiet 50) demo_crl 10 100 (\<lparr>w_db = (), w_step = 0\<rparr>, None) = (Inr {''ab''}, s') \<and>
     crl_served (quiet 50) 100 (\<lparr>w_db = (), w_step = 0\<rparr>, None) {''ab''} s'"
proof -
  have "\<exists>s'. revoked_serials (quiet 50) demo_crl 10 100 (\<lparr>w_db = (), w_step = 0\<rparr>, None) = (Inr {''ab''}, s')"
    by (simp add: revoked_serials_def cached_serials_def crl_fetch_def parse_crl_def demo_crl_def crl_defs
        crl_normalize_def to_ascii_lowercase_def ascii_lower_def map_error_def)
  then show ?thesis using revoked_serials_fresh [of "quiet 50" demo_crl 10 100] by fastforce
qed

end
