(* ===== verification/AppAttest.thy ===== *)
theory AppAttest
  imports KeyAttest Schema
begin

text \<open>
  Apple App Attest (\<open>auth/app_attest/verify.rs\<close>, \<open>auth/app_attest/store.rs\<close>): reading the
  attestation and assertion objects, verifying them, and the table of registered keys. CBOR
  decoding is third-party. Shown here: what an accepted attestation and assertion establish, and
  that the assertion counters accepted for a key strictly increase, however requests interleave.
\<close>

section \<open>Objects\<close>

datatype cbor = CText string | CBytes bytes | CArray "cbor list" | CMap "(cbor \<times> cbor) list" | COther

fun as_text :: "cbor \<Rightarrow> string option" where
  "as_text (CText s) = Some s" | "as_text _ = None"
fun as_cbytes :: "cbor \<Rightarrow> bytes option" where
  "as_cbytes (CBytes b) = Some b" | "as_cbytes _ = None"
fun as_array :: "cbor \<Rightarrow> cbor list option" where
  "as_array (CArray xs) = Some xs" | "as_array _ = None"
fun as_map :: "cbor \<Rightarrow> (cbor \<times> cbor) list option" where
  "as_map (CMap m) = Some m" | "as_map _ = None"

datatype attest_error =
  AMalformed string | AChain string | ANonce | AKeyId | AAppId | ACounter | AAaguid | ASignature | ASignCount

fun attest_error_str :: "attest_error \<Rightarrow> string" where
  "attest_error_str (AMalformed m) = ''malformed attestation payload: '' @ m"
| "attest_error_str (AChain m) = ''certificate chain rejected: '' @ m"
| "attest_error_str ANonce = ''attestation nonce mismatch''"
| "attest_error_str AKeyId = ''key id mismatch''"
| "attest_error_str AAppId = ''no configured App ID matches rpIdHash''"
| "attest_error_str ACounter = ''attestation counter is not 0''"
| "attest_error_str AAaguid = ''unrecognized AAGUID''"
| "attest_error_str ASignature = ''assertion signature invalid''"
| "attest_error_str ASignCount = ''assertion sign count did not increase''"

record attestation_doc =
  cred_cert :: bytes
  intermediate_cert :: bytes
  doc_receipt :: bytes
  auth_data :: bytes

definition map_get :: "(cbor \<times> cbor) list \<Rightarrow> string \<Rightarrow> cbor option" where
  "map_get m key = map_option snd (find (\<lambda>(k, _). as_text k = Some key) m)"

definition field_as :: "(cbor \<Rightarrow> 'a option) \<Rightarrow> (cbor \<times> cbor) list \<Rightarrow> string \<Rightarrow> attest_error + 'a" where
  "field_as f m key = ok_or (AMalformed (''missing '' @ key)) (Option.bind (map_get m key) f)"

definition decode_attestation :: "(bytes \<Rightarrow> string + cbor) \<Rightarrow> bytes \<Rightarrow> attest_error + attestation_doc" where
  "decode_attestation cbor_read bs =
     and_then (map_error (\<lambda>e. AMalformed (''cbor: '' @ e)) (cbor_read bs)) (\<lambda>v.
     and_then (ok_or (AMalformed ''attestation is not a map'') (as_map v)) (\<lambda>m.
     and_then (field_as as_text m ''fmt'') (\<lambda>fmt.
     if fmt \<noteq> ''apple-appattest'' then Inl (AMalformed (''unexpected fmt '' @ debug_str fmt)) else
     and_then (field_as as_map m ''attStmt'') (\<lambda>stmt.
     and_then (field_as as_cbytes m ''authData'') (\<lambda>data.
     and_then (field_as as_cbytes stmt ''receipt'') (\<lambda>receipt.
     and_then (field_as as_array stmt ''x5c'') (\<lambda>x5c.
     case x5c of
       [cred, im] \<Rightarrow>
         and_then (ok_or (AMalformed ''x5c entry is not bytes'') (as_cbytes cred)) (\<lambda>cc.
         and_then (ok_or (AMalformed ''x5c entry is not bytes'') (as_cbytes im)) (\<lambda>ic.
         Inr \<lparr>cred_cert = cc, intermediate_cert = ic, doc_receipt = receipt, auth_data = data\<rparr>))
     | _ \<Rightarrow> Inl (AMalformed (''x5c has '' @ nat_to_string (length x5c) @ '' certificates, expected exactly 2'')))))))))"

definition decode_assertion :: "(bytes \<Rightarrow> string + cbor) \<Rightarrow> bytes \<Rightarrow> attest_error + bytes \<times> bytes" where
  "decode_assertion cbor_read bs =
     and_then (map_error (\<lambda>e. AMalformed (''cbor: '' @ e)) (cbor_read bs)) (\<lambda>v.
     and_then (ok_or (AMalformed ''assertion is not a map'') (as_map v)) (\<lambda>m.
     and_then (field_as as_cbytes m ''signature'') (\<lambda>sig.
     and_then (field_as as_cbytes m ''authenticatorData'') (\<lambda>data.
     Inr (sig, data)))))"

record authenticator_data =
  rp_id_hash :: bytes
  ad_counter :: nat
  aaguid :: "bytes option"
  credential_id :: "bytes option"

definition slice :: "nat \<Rightarrow> nat \<Rightarrow> bytes \<Rightarrow> bytes" where
  "slice a b bs = take (b - a) (drop a bs)"

definition be_bytes :: "bytes \<Rightarrow> nat" where
  "be_bytes bs = be_value 256 0 (map unat bs)"

definition authenticator_data_parse :: "bytes \<Rightarrow> attest_error + authenticator_data" where
  "authenticator_data_parse data =
     (if length data < 37 then Inl (AMalformed ''authenticator data too short'') else
      let hash = slice 0 32 data; counter = be_bytes (slice 33 37 data) in
      if length data \<ge> 55
      then let len = be_bytes (slice 53 55 data) in
           if 55 + len > length data then Inl (AMalformed ''credential id out of bounds'')
           else Inr \<lparr>rp_id_hash = hash, ad_counter = counter, aaguid = Some (slice 37 53 data),
                     credential_id = Some (slice 55 (55 + len) data)\<rparr>
      else Inr \<lparr>rp_id_hash = hash, ad_counter = counter, aaguid = None, credential_id = None\<rparr>)"

section \<open>Verification\<close>

definition APPLE_APP_ATTEST_NONCE_OID :: string where "APPLE_APP_ATTEST_NONCE_OID = ''1.2.840.113635.100.8.2''"
definition PROD_AAGUID :: bytes where "PROD_AAGUID = as_bytes ''appattest'' @ replicate 7 0"
definition DEV_AAGUID :: bytes where "DEV_AAGUID = as_bytes ''appattestdevelop''"

record attested_key =
  ak_public_key :: bytes
  ak_receipt :: bytes

definition check_app_id :: "crypto \<Rightarrow> bytes \<Rightarrow> string list \<Rightarrow> attest_error + unit" where
  "check_app_id cy hash app_ids =
     ensure (list_ex (\<lambda>app_id. cy_sha256 cy (as_bytes app_id) = hash) app_ids) AAppId"

definition verify_cert :: "crypto \<Rightarrow> certificate \<Rightarrow> certificate \<Rightarrow> int \<Rightarrow> attest_error + unit" where
  "verify_cert cy child parent now =
     and_then (map_error AChain (check_validity cy child now)) (\<lambda>_.
     map_error AChain (verify_signed_by cy child parent))"

definition parse_cert_as :: "crypto \<Rightarrow> string \<Rightarrow> bytes \<Rightarrow> attest_error + certificate" where
  "parse_cert_as cy what der = map_error (\<lambda>e. AMalformed (what @ '' cert: '' @ e)) (cy_parse_cert cy der)"

definition verify_attestation ::
  "crypto \<Rightarrow> (bytes \<Rightarrow> string + cbor) \<Rightarrow> bytes \<Rightarrow> bytes \<Rightarrow> bytes \<Rightarrow> string list \<Rightarrow> bytes \<Rightarrow> int \<Rightarrow> attest_error + attested_key" where
  "verify_attestation cy cbor_read attestation challenge kid app_ids root_der now =
     and_then (decode_attestation cbor_read attestation) (\<lambda>doc.
     and_then (authenticator_data_parse (auth_data doc)) (\<lambda>auth.
     and_then (parse_cert_as cy ''root'' root_der) (\<lambda>root.
     and_then (parse_cert_as cy ''cred'' (cred_cert doc)) (\<lambda>cred.
     and_then (parse_cert_as cy ''intermediate'' (intermediate_cert doc)) (\<lambda>intermediate.
     and_then (verify_cert cy cred intermediate now) (\<lambda>_.
     and_then (verify_cert cy intermediate root now) (\<lambda>_.
     let nonce = cy_sha256 cy (auth_data doc @ cy_sha256 cy challenge) in
     and_then (ok_or ANonce (map_option snd (find (\<lambda>(oid, _). oid = APPLE_APP_ATTEST_NONCE_OID) (c_extensions cred)))) (\<lambda>ext.
     if length ext < 32 then Inl ANonce else
     if drop (length ext - 32) ext \<noteq> nonce then Inl ANonce else
     let public_key = c_key_bytes cred in
     if cy_sha256 cy public_key \<noteq> kid then Inl AKeyId else
     if credential_id auth \<noteq> Some kid then Inl AKeyId else
     and_then (check_app_id cy (rp_id_hash auth) app_ids) (\<lambda>_.
     if ad_counter auth \<noteq> 0 then Inl ACounter else
     if aaguid auth \<noteq> Some PROD_AAGUID \<and> aaguid auth \<noteq> Some DEV_AAGUID then Inl AAaguid else
     Inr \<lparr>ak_public_key = public_key, ak_receipt = doc_receipt doc\<rparr>)))))))))"

text \<open>\<open>VerifyingKey::verify\<close> hashes the message, so the signed digest is the hash of the nonce.\<close>

definition verify_assertion ::
  "crypto \<Rightarrow> (bytes \<Rightarrow> string + cbor) \<Rightarrow> bytes \<Rightarrow> bytes \<Rightarrow> bytes \<Rightarrow> string list \<Rightarrow> int \<Rightarrow> attest_error + int" where
  "verify_assertion cy cbor_read assertion client_data_hash public_key app_ids prev_sign_count =
     and_then (decode_assertion cbor_read assertion) (\<lambda>(sig, data).
     and_then (authenticator_data_parse data) (\<lambda>auth.
     let nonce = cy_sha256 cy (data @ client_data_hash) in
     and_then (map_error (\<lambda>e. AMalformed (''stored public key: '' @ e)) (cy_p256_key cy public_key)) (\<lambda>_.
     and_then (map_error (\<lambda>_. ASignature) (cy_p256_sig cy sig)) (\<lambda>_.
     if \<not> cy_p256_verify cy public_key (cy_sha256 cy nonce) sig then Inl ASignature else
     and_then (check_app_id cy (rp_id_hash auth) app_ids) (\<lambda>_.
     let next = int (ad_counter auth) in
     if next \<le> prev_sign_count then Inl ASignCount else Inr next)))))"

text \<open>What an accepted assertion is: signed by the registered key over this request, for one of our
  apps, with a counter above the last one seen.\<close>

definition assertion_genuine ::
  "crypto \<Rightarrow> (bytes \<Rightarrow> string + cbor) \<Rightarrow> bytes \<Rightarrow> bytes \<Rightarrow> bytes \<Rightarrow> string list \<Rightarrow> int \<Rightarrow> int \<Rightarrow> bool" where
  "assertion_genuine cy cbor_read assertion client_data_hash public_key app_ids prev_count next_count \<longleftrightarrow>
     (\<exists>sig data auth. decode_assertion cbor_read assertion = Inr (sig, data) \<and>
        authenticator_data_parse data = Inr auth \<and> cy_p256_key cy public_key = Inr () \<and> cy_p256_sig cy sig = Inr () \<and>
        cy_p256_verify cy public_key (cy_sha256 cy (cy_sha256 cy (data @ client_data_hash))) sig \<and>
        rp_id_hash auth \<in> (\<lambda>app_id. cy_sha256 cy (as_bytes app_id)) ` set app_ids \<and>
        next_count = int (ad_counter auth) \<and> prev_count < next_count)"

lemma verify_assertion_iff:
  "verify_assertion cy cbor_read a h pk app_ids prev = Inr next \<longleftrightarrow> assertion_genuine cy cbor_read a h pk app_ids prev next"
proof -
  have "check_app_id cy hash app_ids = Inr () \<longleftrightarrow> hash \<in> (\<lambda>app_id. cy_sha256 cy (as_bytes app_id)) ` set app_ids" for hash
    by (auto simp: check_app_id_def list_ex_iff)
  then show ?thesis
    unfolding verify_assertion_def assertion_genuine_def Let_def by (fastforce split: if_splits prod.splits)
qed

section \<open>Registered keys\<close>

record stored_key =
  sk_public_key :: bytes
  sk_sign_count :: int

definition app_attest_upsert :: "bytes \<Rightarrow> bytes \<Rightarrow> bytes \<Rightarrow> bytes option \<Rightarrow> (tables, unit) stmt" where
  "app_attest_upsert kid public_key receipt client now t =
     (let row = (case app_attest_keys t kid of
            None \<Rightarrow> \<lparr>aa_public_key = public_key, aa_receipt = receipt, aa_sign_count = 0,
                     aa_registering_client_id = client, aa_last_asserted_at = None\<rparr>
          | Some r \<Rightarrow> r\<lparr>aa_public_key := public_key, aa_receipt := receipt, aa_sign_count := 0\<rparr>)
      in ((), t\<lparr>app_attest_keys := (app_attest_keys t)(kid \<mapsto> row)\<rparr>))"

definition app_attest_find :: "bytes \<Rightarrow> (tables, stored_key option) stmt" where
  "app_attest_find kid now t =
     (map_option (\<lambda>r. \<lparr>sk_public_key = aa_public_key r, sk_sign_count = aa_sign_count r\<rparr>) (app_attest_keys t kid), t)"

definition commit_sign_count :: "bytes \<Rightarrow> int \<Rightarrow> (tables, bool) stmt" where
  "commit_sign_count kid count now t =
     (case app_attest_keys t kid of
        None \<Rightarrow> (False, t)
      | Some r \<Rightarrow>
          if aa_sign_count r < count
          then (True, t\<lparr>app_attest_keys := (app_attest_keys t)(kid \<mapsto>
                  r\<lparr>aa_sign_count := count, aa_last_asserted_at := Some now\<rparr>)\<rparr>)
          else (False, t))"

section \<open>Counters\<close>

definition key_count :: "bytes \<Rightarrow> tables \<Rightarrow> int option" where
  "key_count k t = map_option aa_sign_count (app_attest_keys t k)"

text \<open>A history of the key table: commits by any request on any key, with the accepted ones recorded, and
  anything that leaves the counters alone.\<close>

inductive counter_run :: "tables \<Rightarrow> (bytes \<times> int) list \<Rightarrow> tables \<Rightarrow> bool" where
  start: "counter_run t [] t"
| accepted: "counter_run t evs t1 \<Longrightarrow> commit_sign_count k n now t1 = (True, t2) \<Longrightarrow> counter_run t (evs @ [(k, n)]) t2"
| refused: "counter_run t evs t1 \<Longrightarrow> commit_sign_count k n now t1 = (False, t2) \<Longrightarrow> counter_run t evs t2"
| other: "counter_run t evs t1 \<Longrightarrow> (\<And>k. key_count k t2 = key_count k t1) \<Longrightarrow> counter_run t evs t2"

lemma commit_accepts:
  assumes "commit_sign_count k n now t = (True, t')"
  shows "(\<exists>c. key_count k t = Some c \<and> c < n) \<and> key_count k t' = Some n \<and> (\<forall>j. j \<noteq> k \<longrightarrow> key_count j t' = key_count j t)"
  using assms by (auto simp: commit_sign_count_def key_count_def split: option.splits if_splits)

lemma commit_refuses: "commit_sign_count k n now t = (False, t') \<Longrightarrow> t' = t"
  by (auto simp: commit_sign_count_def split: option.splits if_splits)

abbreviation counts_of :: "bytes \<Rightarrow> (bytes \<times> int) list \<Rightarrow> int list" where
  "counts_of k evs \<equiv> map snd (filter (\<lambda>e. fst e = k) evs)"

lemma strict_snoc: "sorted_wrt (<) xs \<Longrightarrow> xs \<noteq> [] \<Longrightarrow> last xs < n \<Longrightarrow> sorted_wrt (<) (xs @ [n])" for n :: int
  by (induction xs) (auto simp: sorted_wrt_append split: if_splits, metis last_in_set order.strict_trans)

text \<open>C15: App Attest assertions cannot be replayed: in every history of counter commits on the key table, by any
  number of concurrent requests and interleaved with anything that leaves the counters alone, the counters accepted for
  one key are strictly increasing from the stored one, and the stored counter is the last one accepted.\<close>

theorem counter_run_last:
  assumes "counter_run t evs t'" "key_count k t = Some c"
  shows "key_count k t' = Some (last (c # counts_of k evs)) \<and> sorted_wrt (<) (c # counts_of k evs)"
  using assms
proof (induction rule: counter_run.induct)
  case (accepted t evs t1 j n now t2)
  note step = commit_accepts [OF accepted.hyps(2)]
  show ?case
  proof (cases "j = k")
    case True
    with accepted step have "last (c # counts_of k evs) < n" "sorted_wrt (<) (c # counts_of k evs)" by auto
    then have "sorted_wrt (<) ((c # counts_of k evs) @ [n])" by (intro strict_snoc) auto
    then show ?thesis using True step by simp
  next
    case False
    with accepted step show ?thesis by auto
  qed
qed (auto dest: commit_refuses)

definition demo_key_tables :: tables where
  "demo_key_tables = snd (app_attest_upsert [1] [2] [3] None 0 empty_tables)"

theorem counter_run_last_witness:
  "\<exists>t'. counter_run demo_key_tables [([1], 4)] t' \<and> key_count [1] t' = Some 4"
proof -
  obtain t' where c: "commit_sign_count [1] 4 0 demo_key_tables = (True, t')"
    by (simp add: commit_sign_count_def demo_key_tables_def app_attest_upsert_def empty_tables_def)
  have "key_count [1] demo_key_tables = Some 0"
    by (simp add: key_count_def demo_key_tables_def app_attest_upsert_def empty_tables_def)
  moreover have "counter_run demo_key_tables ([] @ [([1], 4)]) t'"
    by (rule counter_run.accepted [OF counter_run.start c])
  ultimately show ?thesis using counter_run_last [of demo_key_tables "[([1], 4)]" t' "[1]" 0] by auto
qed

end
