(* ===== verification/PlayIntegrity.thy ===== *)
theory PlayIntegrity
  imports KeyAttest
begin

text \<open>
  Play Integrity (\<open>auth/play_integrity.rs\<close>, \<open>play_integrity/token.rs\<close>,
  \<open>play_integrity/verdict.rs\<close>): opening the encrypted and signed token, and the verdict policy of
  the three modes. Base64, JSON, AES and ECDSA come in a record of functions. Shown here: which
  payloads are accepted and when the result says that Play distributed the app.
\<close>

section \<open>Tokens\<close>

record app_integrity =
  app_recognition_verdict :: "string option"
  ai_package_name :: "string option"
  certificate_sha256_digest :: "string list option"

record token_payload =
  request_details :: "string option option"
  tp_app_integrity :: "app_integrity option"
  device_integrity :: "string list option option"
  account_details :: "string option option"

record pi_lib =
  pi_b64_no_pad :: "string \<Rightarrow> bytes option"
  pi_b64_pad :: "string \<Rightarrow> bytes option"
  pi_jwe_header :: "bytes \<Rightarrow> (string \<times> string) option"
  pi_jws_header :: "bytes \<Rightarrow> string option"
  pi_key_unwrap :: "bytes \<Rightarrow> bytes \<Rightarrow> string + bytes"
  pi_gcm_open :: "bytes \<Rightarrow> bytes \<Rightarrow> bytes \<Rightarrow> bytes \<Rightarrow> bytes option"
  pi_spki :: "bytes \<Rightarrow> string + bytes"
  pi_sig_ok :: "bytes \<Rightarrow> bool"
  pi_payload :: "bytes \<Rightarrow> string + token_payload"

datatype play_integrity_error =
  PMalformed string | PDecrypt string | PSignature | PNonce | PRejected "string list"

fun join_comma :: "string list \<Rightarrow> string" where
  "join_comma [] = []"
| "join_comma [s] = s"
| "join_comma (s # ss) = s @ '','' @ join_comma ss"

fun play_integrity_error_str :: "play_integrity_error \<Rightarrow> string" where
  "play_integrity_error_str (PMalformed m) = ''malformed integrity token: '' @ m"
| "play_integrity_error_str (PDecrypt m) = ''integrity token decryption failed: '' @ m"
| "play_integrity_error_str PSignature = ''integrity token signature invalid''"
| "play_integrity_error_str PNonce = ''integrity token nonce mismatch''"
| "play_integrity_error_str (PRejected cs) = ''integrity verdicts rejected: '' @ join_comma cs"

definition b64url :: "pi_lib \<Rightarrow> string \<Rightarrow> bytes option" where
  "b64url pl input =
     (let trimmed = trim input
      in case pi_b64_no_pad pl trimmed of Some b \<Rightarrow> Some b | None \<Rightarrow> pi_b64_pad pl trimmed)"

definition jwe_malformed :: "string \<Rightarrow> play_integrity_error" where
  "jwe_malformed what = PMalformed (''jwe: '' @ what)"

definition jws_malformed :: "string \<Rightarrow> play_integrity_error" where
  "jws_malformed what = PMalformed (''jws: '' @ what)"

definition decrypt_jwe :: "pi_lib \<Rightarrow> string \<Rightarrow> bytes \<Rightarrow> play_integrity_error + bytes" where
  "decrypt_jwe pl token key =
     (case split_on CHR ''.'' (trim token) of
        [header_b64, encrypted_key, iv, ciphertext, tag] \<Rightarrow>
          and_then (ok_or (jwe_malformed ''header base64'') (b64url pl header_b64)) (\<lambda>hb.
          and_then (ok_or (jwe_malformed ''header json'') (pi_jwe_header pl hb)) (\<lambda>(alg, enc).
          if alg \<noteq> ''A256KW'' \<or> enc \<noteq> ''A256GCM''
          then Inl (jwe_malformed (''unsupported alg/enc '' @ alg @ ''/'' @ enc)) else
          and_then (ok_or (jwe_malformed ''encrypted key base64'') (b64url pl encrypted_key)) (\<lambda>wrapped_cek.
          and_then (map_error (\<lambda>e. PDecrypt (''key unwrap: '' @ e)) (pi_key_unwrap pl key wrapped_cek)) (\<lambda>cek.
          and_then (ok_or (jwe_malformed ''iv base64'') (b64url pl iv)) (\<lambda>iv.
          if length iv \<noteq> 12 then Inl (jwe_malformed ''iv is not 96 bits'') else
          and_then (ok_or (jwe_malformed ''ciphertext base64'') (b64url pl ciphertext)) (\<lambda>ct.
          and_then (ok_or (jwe_malformed ''tag base64'') (b64url pl tag)) (\<lambda>tg.
          if length cek \<noteq> 32 then Inl (PDecrypt ''content key is not 256 bits'') else
          ok_or (PDecrypt ''authenticated decryption failed'')
            (pi_gcm_open pl cek iv (as_bytes header_b64) (ct @ tg)))))))))
      | _ \<Rightarrow> Inl (jwe_malformed ''expected 5 dot-separated parts''))"

definition verify_jws :: "crypto \<Rightarrow> pi_lib \<Rightarrow> bytes \<Rightarrow> bytes \<Rightarrow> play_integrity_error + bytes" where
  "verify_jws cy pl jws key_der =
     and_then (ok_or (jws_malformed ''not utf-8'') (from_utf8 jws)) (\<lambda>text.
     case split_on CHR ''.'' (trim text) of
       [header_b64, payload_b64, signature_b64] \<Rightarrow>
         and_then (ok_or (jws_malformed ''header base64'') (b64url pl header_b64)) (\<lambda>hb.
         and_then (ok_or (jws_malformed ''header json'') (pi_jws_header pl hb)) (\<lambda>alg.
         if alg \<noteq> ''ES256'' then Inl (jws_malformed (''unsupported alg '' @ alg)) else
         and_then (map_error (\<lambda>e. PMalformed (''verification key: '' @ e)) (pi_spki pl key_der)) (\<lambda>key.
         and_then (ok_or (jws_malformed ''signature base64'') (b64url pl signature_b64)) (\<lambda>sig.
         if \<not> pi_sig_ok pl sig then Inl PSignature else
         if \<not> cy_p256_verify cy key (cy_sha256 cy (as_bytes (header_b64 @ ''.'' @ payload_b64))) sig
         then Inl PSignature else
         ok_or (jws_malformed ''payload base64'') (b64url pl payload_b64)))))
     | _ \<Rightarrow> Inl (jws_malformed ''expected 3 dot-separated parts''))"

definition decrypt_and_verify :: "crypto \<Rightarrow> pi_lib \<Rightarrow> string \<Rightarrow> bytes \<Rightarrow> bytes \<Rightarrow> play_integrity_error + token_payload" where
  "decrypt_and_verify cy pl token decryption_key verification_key_der =
     and_then (decrypt_jwe pl token decryption_key) (\<lambda>jws.
     and_then (verify_jws cy pl jws verification_key_der) (\<lambda>payload.
     map_error (\<lambda>e. PMalformed (''verdict payload: '' @ e)) (pi_payload pl payload)))"

section \<open>Verdicts\<close>

record mode_policy =
  accept_app_recognition :: "string list"
  accept_device_recognition :: "string list"
  accept_empty_device_recognition :: bool
  accept_app_licensing :: "string list"
  accept_missing_app_integrity :: bool

fun mode_policy_of :: "play_integrity_mode \<Rightarrow> mode_policy" where
  "mode_policy_of Strict =
     \<lparr>accept_app_recognition = [''PLAY_RECOGNIZED''],
      accept_device_recognition = [''MEETS_STRONG_INTEGRITY'', ''MEETS_DEVICE_INTEGRITY''],
      accept_empty_device_recognition = False, accept_app_licensing = [''LICENSED''],
      accept_missing_app_integrity = False\<rparr>"
| "mode_policy_of RelaxedDevice =
     \<lparr>accept_app_recognition = [''PLAY_RECOGNIZED''],
      accept_device_recognition = [''MEETS_DEVICE_INTEGRITY'', ''MEETS_BASIC_INTEGRITY'', ''MEETS_STRONG_INTEGRITY''],
      accept_empty_device_recognition = False, accept_app_licensing = [''LICENSED''],
      accept_missing_app_integrity = False\<rparr>"
| "mode_policy_of RelaxedAll =
     \<lparr>accept_app_recognition = [''PLAY_RECOGNIZED'', ''UNRECOGNIZED_VERSION'', ''UNEVALUATED''],
      accept_device_recognition = [''MEETS_DEVICE_INTEGRITY'', ''MEETS_BASIC_INTEGRITY'', ''MEETS_STRONG_INTEGRITY'',
        ''MEETS_VIRTUAL_INTEGRITY''],
      accept_empty_device_recognition = True,
      accept_app_licensing = [''LICENSED'', ''UNLICENSED'', ''UNEVALUATED''],
      accept_missing_app_integrity = True\<rparr>"

definition KNOWN_APP_RECOGNITION :: "string list" where
  "KNOWN_APP_RECOGNITION = [''PLAY_RECOGNIZED'', ''UNRECOGNIZED_VERSION'', ''UNEVALUATED'']"
definition KNOWN_DEVICE_RECOGNITION :: "string list" where
  "KNOWN_DEVICE_RECOGNITION =
     [''MEETS_DEVICE_INTEGRITY'', ''MEETS_BASIC_INTEGRITY'', ''MEETS_STRONG_INTEGRITY'', ''MEETS_VIRTUAL_INTEGRITY'']"
definition KNOWN_APP_LICENSING :: "string list" where
  "KNOWN_APP_LICENSING = [''LICENSED'', ''UNLICENSED'', ''UNEVALUATED'']"

record policy_params =
  pp_expected_nonce :: bytes
  pp_mode :: play_integrity_mode
  pp_package_names :: "string list"
  pp_playstore_digest :: bytes
  pp_website_digest :: bytes

definition known_verdict :: "string option \<Rightarrow> string list \<Rightarrow> string option" where
  "known_verdict v ks = (case v of Some x \<Rightarrow> if x \<in> set ks then Some x else None | None \<Rightarrow> None)"

definition app_recognition :: "token_payload \<Rightarrow> string option" where
  "app_recognition p = known_verdict (Option.bind (tp_app_integrity p) app_recognition_verdict) KNOWN_APP_RECOGNITION"

definition device_verdicts :: "token_payload \<Rightarrow> string list" where
  "device_verdicts p =
     (case Option.bind (device_integrity p) (\<lambda>d. d) of
        None \<Rightarrow> [] | Some vs \<Rightarrow> filter (\<lambda>v. v \<in> set KNOWN_DEVICE_RECOGNITION) vs)"

definition licensing :: "token_payload \<Rightarrow> string option" where
  "licensing p = known_verdict (Option.bind (account_details p) (\<lambda>a. a)) KNOWN_APP_LICENSING"

definition token_digests :: "pi_lib \<Rightarrow> token_payload \<Rightarrow> bytes list" where
  "token_digests pl p =
     (case Option.bind (tp_app_integrity p) certificate_sha256_digest of
        None \<Rightarrow> [] | Some ds \<Rightarrow> List.map_filter (b64url pl) ds)"

definition verdict_validate :: "pi_lib \<Rightarrow> token_payload \<Rightarrow> policy_params \<Rightarrow> play_integrity_error + bool" where
  "verdict_validate pl p params =
     (let policy = mode_policy_of (pp_mode params);
          app = app_recognition p; vs = device_verdicts p; lic = licensing p; ds = token_digests pl p;
          accepted = (\<lambda>v ok. case v of Some x \<Rightarrow> x \<in> set ok | None \<Rightarrow> False);
          expected = (\<lambda>d. d = pp_playstore_digest params \<or> d = pp_website_digest params);
          codes =
            (if accepted app (accept_app_recognition policy) then [] else [''APP_INTEGRITY_FAILED'']) @
            (if (if vs = [] then accept_empty_device_recognition policy
                 else list_ex (\<lambda>v. v \<in> set (accept_device_recognition policy)) vs)
             then [] else [''DEVICE_INTEGRITY_FAILED'']) @
            (if accepted lic (accept_app_licensing policy) then [] else [''LICENSE_CHECK_FAILED'']) @
            (if ds = [] then (if accept_missing_app_integrity policy then [] else [''APK_FINGERPRINT_MISMATCH''])
             else if \<not> list_ex expected ds then [''APK_FINGERPRINT_MISMATCH''] else []) @
            (case Option.bind (tp_app_integrity p) ai_package_name of
               Some name \<Rightarrow> if name \<in> set (pp_package_names params) then [] else [''PACKAGE_NAME_MISMATCH'']
             | None \<Rightarrow> if accept_missing_app_integrity policy then [] else [''PACKAGE_NAME_MISMATCH''])
      in if codes \<noteq> [] then Inl (PRejected codes)
         else Inr ((app = Some ''PLAY_RECOGNIZED'' \<and> lic = Some ''LICENSED'') \<and>
                   list_ex (\<lambda>d. d = pp_playstore_digest params) ds))"

definition check_payload :: "pi_lib \<Rightarrow> token_payload \<Rightarrow> policy_params \<Rightarrow> play_integrity_error + bool" where
  "check_payload pl p params =
     and_then (ok_or PNonce (Option.bind (request_details p) (\<lambda>n. n))) (\<lambda>nonce.
     and_then (ok_or PNonce (b64url pl nonce)) (\<lambda>nonce_bytes.
     if nonce_bytes \<noteq> pp_expected_nonce params then Inl PNonce
     else verdict_validate pl p params))"

definition verify_token :: "crypto \<Rightarrow> pi_lib \<Rightarrow> string \<Rightarrow> bytes \<Rightarrow> bytes \<Rightarrow> policy_params \<Rightarrow> play_integrity_error + bool" where
  "verify_token cy pl token decryption_key verification_key params =
     and_then (decrypt_and_verify cy pl token decryption_key verification_key) (\<lambda>payload.
     check_payload pl payload params)"

section \<open>What is accepted\<close>

definition verdict_known :: "string option \<Rightarrow> string list \<Rightarrow> bool" where
  "verdict_known v ok \<longleftrightarrow> (\<exists>x. v = Some x \<and> x \<in> set ok)"

text \<open>A payload bound to this request whose app, device, licence, signing certificate and package all
  pass in the configured mode.\<close>

definition payload_genuine :: "pi_lib \<Rightarrow> policy_params \<Rightarrow> token_payload \<Rightarrow> bool" where
  "payload_genuine pl params p \<longleftrightarrow>
     (\<exists>nonce. request_details p = Some (Some nonce) \<and> b64url pl nonce = Some (pp_expected_nonce params)) \<and>
     (let policy = mode_policy_of (pp_mode params) in
      verdict_known (app_recognition p) (accept_app_recognition policy) \<and>
      (set (device_verdicts p) \<inter> set (accept_device_recognition policy) \<noteq> {} \<or>
       device_verdicts p = [] \<and> accept_empty_device_recognition policy) \<and>
      verdict_known (licensing p) (accept_app_licensing policy) \<and>
      (set (token_digests pl p) \<inter> {pp_playstore_digest params, pp_website_digest params} \<noteq> {} \<or>
       token_digests pl p = [] \<and> accept_missing_app_integrity policy) \<and>
      (case Option.bind (tp_app_integrity p) ai_package_name of
         Some name \<Rightarrow> name \<in> set (pp_package_names params)
       | None \<Rightarrow> accept_missing_app_integrity policy))"

definition play_distributed :: "pi_lib \<Rightarrow> policy_params \<Rightarrow> token_payload \<Rightarrow> bool" where
  "play_distributed pl params p \<longleftrightarrow> app_recognition p = Some ''PLAY_RECOGNIZED'' \<and>
     licensing p = Some ''LICENSED'' \<and> pp_playstore_digest params \<in> set (token_digests pl p)"

lemma verdict_known_case: "(case v of Some x \<Rightarrow> x \<in> set ok | None \<Rightarrow> False) \<longleftrightarrow> verdict_known v ok"
  by (cases v) (simp_all add: verdict_known_def)

lemma check_payload_char:
  "check_payload pl p params = Inr official \<longleftrightarrow>
     payload_genuine pl params p \<and> official = play_distributed pl params p"
proof -
  have dev: "(if vs = [] then b else list_ex (\<lambda>v. v \<in> A) vs) \<longleftrightarrow> set vs \<inter> A \<noteq> {} \<or> vs = [] \<and> b"
    for vs :: "string list" and A b by (auto simp: list_ex_iff)
  have dig: "(if ds = [] then (if b then [] else c) else if \<not> list_ex (\<lambda>d. d = x \<or> d = y) ds then c else []) = [] \<longleftrightarrow>
      set ds \<inter> {x, y} \<noteq> {} \<or> ds = [] \<and> b" if "c \<noteq> []" for ds :: "bytes list" and b x y and c :: "string list"
    using that by (auto simp: list_ex_iff)
  have pkg: "(case v of Some n \<Rightarrow> if n \<in> A then [] else c | None \<Rightarrow> if b then [] else c) = [] \<longleftrightarrow>
      (case v of Some n \<Rightarrow> n \<in> A | None \<Rightarrow> b)" if "c \<noteq> []" for v :: "string option" and A b and c :: "string list"
    using that by (cases v) auto
  have nonce: "Option.bind r (\<lambda>n. n) = Some x \<longleftrightarrow> r = Some (Some x)" for r :: "string option option" and x
    by (cases r) auto
  show ?thesis
    unfolding check_payload_def verdict_validate_def payload_genuine_def Let_def verdict_known_case dev
    by (auto simp: dig pkg nonce play_distributed_def list_ex_iff split: if_splits)
qed


end
