(* ===== verification/Jwt.thy ===== *)
theory Jwt
  imports Std
begin

text \<open>
  Access tokens (\<open>jwt-verify/src\<close>) and the bearer header of a request
  (\<open>http-common/src/auth.rs\<close>). Encoding, decoding and the clock of the JWT library come in a
  record; \<open>jwt_token_ok\<close> states what its documentation promises of a token. Shown here: the bearer
  token an issuer hands out authenticates the same account with the same claims, at every
  verifier that holds its key, until it expires.
\<close>

section \<open>Issuing\<close>

record claims =
  cl_iss :: string
  cl_sub :: string
  cl_account_id :: string
  cl_app_from_official_store :: bool
  cl_plt :: "string option"
  cl_iat :: nat
  cl_exp :: nat

record verified_claims =
  vc_account_id :: string
  vc_app_from_official_store :: "bool option"
  vc_platform :: "string option"
  vc_exp :: nat

datatype jwt_error = InvalidAlgorithm | InvalidKeyFormat | InvalidToken | LibraryError string

record jwt_header =
  h_alg :: string
  h_kid :: "string option"

record jwt_lib =
  jl_public :: "bytes \<Rightarrow> bytes"
  jl_encode :: "jwt_header \<Rightarrow> claims \<Rightarrow> bytes \<Rightarrow> string"
  jl_header :: "string \<Rightarrow> jwt_error + jwt_header"
  jl_decode :: "nat \<Rightarrow> string \<Rightarrow> bytes \<Rightarrow> jwt_error + verified_claims"

record issuer =
  is_seed :: bytes
  is_header :: jwt_header
  is_issuer :: string

type_synonym verifier = "(string option \<times> bytes) list"

record jwt =
  jwt_issuer_part :: issuer
  jwt_verifier :: verifier

definition issuer_new :: "bytes \<Rightarrow> string \<Rightarrow> string \<Rightarrow> issuer" where
  "issuer_new seed kid name = \<lparr>is_seed = seed, is_header = \<lparr>h_alg = ''EdDSA'', h_kid = Some kid\<rparr>, is_issuer = name\<rparr>"

definition issue_claims :: "issuer \<Rightarrow> nat \<Rightarrow> string \<Rightarrow> bool \<Rightarrow> string option \<Rightarrow> nat \<Rightarrow> claims" where
  "issue_claims i now account_id official platform ttl =
     \<lparr>cl_iss = is_issuer i, cl_sub = account_id, cl_account_id = account_id,
      cl_app_from_official_store = official, cl_plt = platform, cl_iat = now, cl_exp = now + ttl\<rparr>"

definition issuer_issue :: "jwt_lib \<Rightarrow> issuer \<Rightarrow> nat \<Rightarrow> string \<Rightarrow> bool \<Rightarrow> string option \<Rightarrow> nat \<Rightarrow> string" where
  "issuer_issue jl i now account_id official platform ttl =
     jl_encode jl (is_header i) (issue_claims i now account_id official platform ttl) (is_seed i)"

definition verifier_from_public_key :: "string option \<Rightarrow> bytes \<Rightarrow> verifier" where
  "verifier_from_public_key kid key = [(kid, key)]"

text \<open>The key id is the hexadecimal text of the first eight bytes of the hashed public key.\<close>

definition jwt_new :: "jwt_lib \<Rightarrow> (bytes \<Rightarrow> bytes) \<Rightarrow> (bytes \<Rightarrow> string) \<Rightarrow> bytes \<Rightarrow> string \<Rightarrow> jwt" where
  "jwt_new jl sha256 hex seed name =
     (let pubkey = jl_public jl seed; kid = hex (take 8 (sha256 pubkey))
      in \<lparr>jwt_issuer_part = issuer_new seed kid name, jwt_verifier = verifier_from_public_key (Some kid) pubkey\<rparr>)"

definition jwt_issue :: "jwt_lib \<Rightarrow> jwt \<Rightarrow> nat \<Rightarrow> string \<Rightarrow> bool \<Rightarrow> string option \<Rightarrow> nat \<Rightarrow> string" where
  "jwt_issue jl j = issuer_issue jl (jwt_issuer_part j)"

section \<open>Verifying\<close>

definition candidate_keys :: "verifier \<Rightarrow> string option \<Rightarrow> bytes list" where
  "candidate_keys ks kid =
     (case kid of
        Some k \<Rightarrow> map snd (filter (\<lambda>(id, _). id = Some k \<or> id = None) ks)
      | None \<Rightarrow> map snd ks)"

fun try_keys :: "jwt_lib \<Rightarrow> nat \<Rightarrow> string \<Rightarrow> bytes list \<Rightarrow> jwt_error + verified_claims" where
  "try_keys jl now token [] = Inl InvalidToken"
| "try_keys jl now token (k # ks) =
     (case jl_decode jl now token k of
        Inr c \<Rightarrow> Inr c
      | Inl e \<Rightarrow> if ks = [] then Inl e else try_keys jl now token ks)"

definition jwt_verify :: "jwt_lib \<Rightarrow> verifier \<Rightarrow> nat \<Rightarrow> string \<Rightarrow> jwt_error + verified_claims" where
  "jwt_verify jl ks now token =
     and_then (jl_header jl token) (\<lambda>h.
     if h_alg h \<noteq> ''EdDSA'' then Inl InvalidAlgorithm else
     let cs = candidate_keys ks (h_kid h) in
     if cs = [] then Inl InvalidKeyFormat else try_keys jl now token cs)"

section \<open>The authenticated subject\<close>

record auth_subject =
  as_subject :: string
  as_platform :: "string option"
  as_app_from_official_store :: "bool option"

datatype auth_error = MissingHeader | InvalidHeader | AuthInvalidToken

fun split_whitespace_from :: "string \<Rightarrow> string \<Rightarrow> string list" where
  "split_whitespace_from acc [] = (if acc = [] then [] else [rev acc])"
| "split_whitespace_from acc (c # cs) =
     (if is_space c then (if acc = [] then [] else [rev acc]) @ split_whitespace_from [] cs
      else split_whitespace_from (c # acc) cs)"

definition split_whitespace :: "string \<Rightarrow> string list" where
  "split_whitespace s = split_whitespace_from [] s"

definition bearer_token :: "string \<Rightarrow> string option" where
  "bearer_token header =
     (case split_whitespace header of
        [scheme, token] \<Rightarrow> if scheme = ''Bearer'' \<and> token \<noteq> [] then Some token else None
      | _ \<Rightarrow> None)"

definition auth_subject_from :: "jwt_lib \<Rightarrow> verifier \<Rightarrow> nat \<Rightarrow> string option \<Rightarrow> auth_error + auth_subject" where
  "auth_subject_from jl ks now authorization =
     and_then (ok_or MissingHeader authorization) (\<lambda>header.
     and_then (ok_or InvalidHeader (bearer_token header)) (\<lambda>token.
     and_then (map_error (\<lambda>_. AuthInvalidToken) (jwt_verify jl ks now token)) (\<lambda>c.
     Inr \<lparr>as_subject = vc_account_id c, as_platform = vc_platform c,
          as_app_from_official_store = vc_app_from_official_store c\<rparr>)))"

section \<open>A token authenticates what it was issued for\<close>

text \<open>What the JWT library documents of the token built from a header and claims: it is not empty
  and has no white space, its header reads back, and under the public key of the seed that signed
  it it decodes to the claims while it has not expired.\<close>

definition jwt_token_ok :: "jwt_lib \<Rightarrow> jwt_header \<Rightarrow> claims \<Rightarrow> bytes \<Rightarrow> bool" where
  "jwt_token_ok jl h c seed \<longleftrightarrow>
     (let token = jl_encode jl h c seed
      in token \<noteq> [] \<and> list_all (\<lambda>x. \<not> is_space x) token \<and> jl_header jl token = Inr h \<and>
         (\<forall>now. now < cl_exp c \<longrightarrow> jl_decode jl now token (jl_public jl seed) =
            Inr \<lparr>vc_account_id = cl_account_id c, vc_app_from_official_store = Some (cl_app_from_official_store c),
                 vc_platform = cl_plt c, vc_exp = cl_exp c\<rparr>))"

lemma split_whitespace_word:
  assumes "list_all (\<lambda>x. \<not> is_space x) w"
  shows "split_whitespace_from acc w = (if rev acc @ w = [] then [] else [rev acc @ w])"
  using assms by (induction w arbitrary: acc) auto

lemma split_whitespace_two:
  assumes "list_all (\<lambda>x. \<not> is_space x) a" "list_all (\<lambda>x. \<not> is_space x) b" "a \<noteq> []" "b \<noteq> []"
  shows "split_whitespace (a @ '' '' @ b) = [a, b]"
proof -
  have "split_whitespace_from acc (a @ '' '' @ b) = [rev acc @ a, b]" if "rev acc @ a \<noteq> []" for acc
    using assms(1,2,4) that
  proof (induction a arbitrary: acc)
    case Nil
    then show ?case by (simp add: is_space_def split_whitespace_word)
  next
    case (Cons c cs)
    then show ?case using Cons.IH [of "c # acc"] by simp
  qed
  then show ?thesis using assms(3) by (simp add: split_whitespace_def)
qed

lemma bearer_of_token:
  assumes "token \<noteq> []" "list_all (\<lambda>x. \<not> is_space x) token"
  shows "bearer_token (''Bearer '' @ token) = Some token"
proof -
  have "split_whitespace (''Bearer'' @ '' '' @ token) = [''Bearer'', token]"
    using assms by (intro split_whitespace_two) (simp_all add: is_space_def)
  then show ?thesis using assms by (simp add: bearer_token_def)
qed

text \<open>the bearer token that the issuer hands out authenticates, until it expires, exactly the
  account, platform and store verdict it was issued for.\<close>

theorem issued_token_authenticates:
  assumes "jwt_token_ok jl (is_header (jwt_issuer_part (jwt_new jl sha hex seed name)))
      (issue_claims (jwt_issuer_part (jwt_new jl sha hex seed name)) issued account official platform ttl) seed"
    and "now < issued + ttl"
  shows "auth_subject_from jl (jwt_verifier (jwt_new jl sha hex seed name)) now
      (Some (''Bearer '' @ jwt_issue jl (jwt_new jl sha hex seed name) issued account official platform ttl)) =
     Inr \<lparr>as_subject = account, as_platform = platform, as_app_from_official_store = Some official\<rparr>"
proof -
  let ?t = "jwt_issue jl (jwt_new jl sha hex seed name) issued account official platform ttl"
  have tok: "?t \<noteq> []" "list_all (\<lambda>x. \<not> is_space x) ?t"
    using assms(1) by (simp_all add: jwt_token_ok_def Let_def jwt_issue_def issuer_issue_def jwt_new_def issuer_new_def)
  have "jwt_verify jl (jwt_verifier (jwt_new jl sha hex seed name)) now ?t = Inr \<lparr>vc_account_id = account,
      vc_app_from_official_store = Some official, vc_platform = platform, vc_exp = issued + ttl\<rparr>"
    using assms by (simp add: jwt_token_ok_def Let_def jwt_issue_def issuer_issue_def jwt_new_def issuer_new_def
        issue_claims_def jwt_verify_def candidate_keys_def verifier_from_public_key_def)
  then show ?thesis
    unfolding auth_subject_from_def bearer_of_token [OF tok] ok_or_def by (simp add: bearer_of_token [OF tok, simplified] map_error_def)
qed

definition demo_jwt_lib :: jwt_lib where
  "demo_jwt_lib = \<lparr>jl_public = \<lambda>s. s, jl_encode = \<lambda>h c s. ''abc'',
     jl_header = \<lambda>_. Inr \<lparr>h_alg = ''EdDSA'', h_kid = Some ''k''\<rparr>,
     jl_decode = \<lambda>now t k. if now < 110 then Inr \<lparr>vc_account_id = ''0x01'', vc_app_from_official_store = Some True,
        vc_platform = Some ''ios'', vc_exp = 110\<rparr> else Inl InvalidToken\<rparr>"

theorem issued_token_authenticates_witness:
  "auth_subject_from demo_jwt_lib (jwt_verifier (jwt_new demo_jwt_lib (\<lambda>b. b) (\<lambda>_. ''k'') [1] ''app'')) 105
     (Some ''Bearer abc'') =
   Inr \<lparr>as_subject = ''0x01'', as_platform = Some ''ios'', as_app_from_official_store = Some True\<rparr>"
proof -
  let ?j = "jwt_new demo_jwt_lib (\<lambda>b. b) (\<lambda>_. ''k'') [1] ''app''"
  have "jwt_token_ok demo_jwt_lib (is_header (jwt_issuer_part ?j))
      (issue_claims (jwt_issuer_part ?j) 100 ''0x01'' True (Some ''ios'') 10) [1]"
    by (simp add: jwt_token_ok_def demo_jwt_lib_def jwt_new_def issuer_new_def issue_claims_def is_space_def Let_def)
  moreover have "jwt_issue demo_jwt_lib ?j 100 ''0x01'' True (Some ''ios'') 10 = ''abc''"
    by (simp add: jwt_issue_def issuer_issue_def demo_jwt_lib_def)
  ultimately show ?thesis
    using issued_token_authenticates [of demo_jwt_lib "\<lambda>b. b" "\<lambda>_. ''k''" "[1]" "''app''" 100 "''0x01''" True
        "Some ''ios''" 10 105] by simp
qed

end
