(* ===== verification/SingleUse.thy ===== *)
theory SingleUse
  imports Prelude
begin

text \<open>
  The contract of a single-use resource: a statement \<open>consume k\<close> that succeeds at most once for each
  \<open>k\<close>. Challenges and registration vouchers are such resources; each shows the laws of the
  locale for its own statement, and the theorem about histories is proved here once.
\<close>

text \<open>A history of the database: attempts to use a key by any process, with the successful ones recorded, and
  anything else that does not make a used key fresh again.\<close>

inductive use_run ::
  "('k \<Rightarrow> ('tb, bool) stmt) \<Rightarrow> ('k \<Rightarrow> 'tb \<Rightarrow> bool) \<Rightarrow> 'tb \<Rightarrow> 'k list \<Rightarrow> 'tb \<Rightarrow> bool" for consume spent where
  start: "use_run consume spent t [] t"
| consumed: "use_run consume spent t evs t1 \<Longrightarrow> consume k now t1 = (True, t2) \<Longrightarrow> use_run consume spent t (evs @ [k]) t2"
| refused: "use_run consume spent t evs t1 \<Longrightarrow> consume k now t1 = (False, t2) \<Longrightarrow> use_run consume spent t evs t2"
| other: "use_run consume spent t evs t1 \<Longrightarrow> (\<And>k. spent k t1 \<Longrightarrow> spent k t2) \<Longrightarrow> use_run consume spent t evs t2"

locale single_use =
  fixes consume :: "'k \<Rightarrow> ('tb, bool) stmt"
    and spent :: "'k \<Rightarrow> 'tb \<Rightarrow> bool"
  assumes consume_spends: "consume k now t = (True, t') \<Longrightarrow> \<not> spent k t \<and> spent k t'"
    and consume_frame: "consume k now t = (b, t') \<Longrightarrow> j \<noteq> k \<or> \<not> b \<Longrightarrow> spent j t' = spent j t"
begin

lemma used_once:
  assumes "use_run consume spent t evs t'"
  shows "distinct evs \<and> (\<forall>k. spent k t \<longrightarrow> k \<notin> set evs \<and> spent k t') \<and> (\<forall>k \<in> set evs. spent k t')"
  using assms
proof (induction rule: use_run.induct)
  case (consumed t evs t1 k now t2)
  have "spent j t2" if "spent j t1" for j
    using that consume_spends [OF consumed.hyps(2)] consume_frame [OF consumed.hyps(2), of j] by (cases "j = k") auto
  with consumed consume_spends [OF consumed.hyps(2)] show ?case by auto
next
  case (refused t evs t1 k now t2)
  then show ?case using consume_frame [OF refused.hyps(2)] by auto
qed auto

end

end
