(* ===== verification/Transactions.thy ===== *)
theory Transactions
  imports Prelude
begin

text \<open>
  How a database transaction ends, for transactions of a program on the database alone and for those
  of a program that also has memory of its own, which a rollback does not restore.
\<close>

section \<open>How a transaction ends\<close>

lemma transaction_cases:
  assumes "transaction E err body w = (r, w')"
  obtains (failed) e where "r = Inl e" "w_db w' = e_others E (w_step w) (w_db w)"
  | (rolled_back) a w1 where
      "body (e_clock E (w_step w)) (w\<lparr>w_db := e_others E (w_step w) (w_db w), w_step := Suc (w_step w)\<rparr>) = (Inr (Rollback a), w1)"
      "r = Inr a" "w_db w' = e_others E (w_step w) (w_db w)"
  | (committed) a w1 where
      "body (e_clock E (w_step w)) (w\<lparr>w_db := e_others E (w_step w) (w_db w), w_step := Suc (w_step w)\<rparr>) = (Inr (Commit a), w1)"
      "r = Inr a" "w_db w' = w_db w1"
  using assms
  by (auto simp: transaction_def Let_def split: option.splits prod.splits sum.splits tx_end.splits)

section \<open>Transactions of a program with memory\<close>

definition transaction_on ::
  "'tb env \<Rightarrow> (string \<Rightarrow> 'e) \<Rightarrow> (instant \<Rightarrow> ('tb world \<times> 'c, 'e, 'a tx_end) prog) \<Rightarrow> ('tb world \<times> 'c, 'e, 'a) prog" where
  "transaction_on E err body = (\<lambda>(w, c).
     (let n = w_step w; t = e_others E n (w_db w); w0 = w\<lparr>w_db := t, w_step := Suc n\<rparr>
      in case e_fault E n of
           Some e \<Rightarrow> (Inl (err e), (w0, c))
         | None \<Rightarrow> (case body (e_clock E n) (w0, c) of
             (Inl e, (w1, c1)) \<Rightarrow> (Inl e, (w1\<lparr>w_db := t\<rparr>, c1))
           | (Inr (Rollback a), (w1, c1)) \<Rightarrow> (Inr a, (w1\<lparr>w_db := t\<rparr>, c1))
           | (Inr (Commit a), (w1, c1)) \<Rightarrow>
               (case e_fault E (w_step w1) of
                  Some e \<Rightarrow> (Inl (err e), (w1\<lparr>w_db := t, w_step := Suc (w_step w1)\<rparr>, c1))
                | None \<Rightarrow> (Inr a, (w1\<lparr>w_step := Suc (w_step w1)\<rparr>, c1))))))"

lemma transaction_on_cases:
  assumes "transaction_on E err body (w, c) = (r, (w', c'))"
  obtains (failed) e where "r = Inl e" "w_db w' = e_others E (w_step w) (w_db w)"
  | (rolled_back) a w1 where
      "body (e_clock E (w_step w)) (w\<lparr>w_db := e_others E (w_step w) (w_db w), w_step := Suc (w_step w)\<rparr>, c) = (Inr (Rollback a), (w1, c'))"
      "r = Inr a" "w_db w' = e_others E (w_step w) (w_db w)" "w_step w' = w_step w1"
  | (committed) a w1 where
      "body (e_clock E (w_step w)) (w\<lparr>w_db := e_others E (w_step w) (w_db w), w_step := Suc (w_step w)\<rparr>, c) = (Inr (Commit a), (w1, c'))"
      "r = Inr a" "w_db w' = w_db w1" "w_step w' = Suc (w_step w1)"
  using assms
  by (auto simp: transaction_on_def Let_def split: option.splits prod.splits sum.splits tx_end.splits)

end
