(* ===== verification/Sessions.thy ===== *)
theory Sessions
  imports AppAttest PlayIntegrity Jwt SingleUse Transactions
begin

text \<open>
  Authentication of a client (\<open>auth.rs\<close>, \<open>auth/challenge.rs\<close>, \<open>auth/proof.rs\<close>,
  \<open>auth/token.rs\<close>, \<open>auth/refresh.rs\<close>, \<open>auth/app_attest.rs\<close>, \<open>http/error.rs\<close>):
  single-use challenges, the token endpoint with its three kinds of attestation, key registration,
  and the rotation of refresh tokens. A header value is what the HTTP library gives: its bytes
  and, if it is visible ASCII, its text. Random bytes come from the system at the step they are
  drawn. Shown here: a challenge is consumed at most once, refresh tokens implement a store of
  live sessions in which each token works once, and under hard enforcement a token is issued only
  for a fresh challenge, a valid proof and accepted evidence, with the platform of that evidence.
\<close>

section \<open>Requests and dependencies\<close>

record header_value =
  hv_bytes :: bytes
  hv_str :: "string option"

type_synonym headers = "string \<Rightarrow> header_value option"

datatype app_error =
  RateLimited | BadRequest string | Unauthorized | Forbidden string | IntegrityFailed string
| CrlUnavailable | AppConflict string | AppInternal string

fun app_error_response :: "app_error \<Rightarrow> nat \<times> string \<times> string" where
  "app_error_response RateLimited = (429, ''RATE_LIMITED'', ''rate limited'')"
| "app_error_response (BadRequest m) = (400, ''WRONG_DATA'', m)"
| "app_error_response Unauthorized = (401, ''UNAUTHORIZED'', ''unauthorized'')"
| "app_error_response (Forbidden m) = (403, ''FORBIDDEN'', m)"
| "app_error_response (IntegrityFailed m) = (403, ''INTEGRITY_FAILED'', m)"
| "app_error_response CrlUnavailable = (503, ''ATTESTATION_CRL_UNAVAILABLE'', ''attestation CRL unavailable'')"
| "app_error_response (AppConflict m) = (409, ''CONFLICT'', m)"
| "app_error_response (AppInternal e) = (500, ''INTERNAL'', e)"

record auth_deps =
  ax_env :: "tables env"
  ax_config :: config
  ax_crypto :: crypto
  ax_codecs :: codecs
  ax_b64_encode :: "bytes \<Rightarrow> string"
  ax_random :: "nat \<Rightarrow> bytes"
  ax_sr25519 :: "bytes \<Rightarrow> bytes \<Rightarrow> account \<Rightarrow> bool"
  ax_cbor :: "bytes \<Rightarrow> string + cbor"
  ax_pi :: pi_lib
  ax_google :: "(nat \<Rightarrow> string \<Rightarrow> string \<Rightarrow> string + token_payload) option"
  ax_crl :: crl_source
  ax_body_chain :: "bytes \<Rightarrow> string + string list option"
  ax_google_roots :: "bytes list"
  ax_apple_root :: bytes
  ax_jwt_lib :: jwt_lib
  ax_jwt :: jwt

type_synonym ('e, 'a) aprog = "(tables crl_state, 'e, 'a) prog"

text \<open>\<open>as i64\<close> on a \<open>u64\<close>.\<close>

definition as_i64 :: "nat \<Rightarrow> int" where
  "as_i64 n = (let m = int n mod 2 ^ 64 in if m < 2 ^ 63 then m else m - 2 ^ 64)"

definition after_secs :: "instant \<Rightarrow> nat \<Rightarrow> instant" where
  "after_secs now ttl = now + secs (as_i64 ttl)"

definition draw :: "auth_deps \<Rightarrow> ('tb world, 'e, bytes) prog" where
  "draw ax = remote (\<lambda>n. Inr (ax_random ax n))"

definition random_token :: "auth_deps \<Rightarrow> ('tb world, 'e, string) prog" where
  "random_token ax = bindE (draw ax) (\<lambda>bs. ret (ax_b64_encode ax bs))"

section \<open>Challenges\<close>

definition insert_challenge :: "bytes \<Rightarrow> instant \<Rightarrow> (tables, string + unit) stmt" where
  "insert_challenge ch expires now t =
     (case auth_challenges t ch of
        Some _ \<Rightarrow> (Inl ''duplicate key value violates unique constraint'', t)
      | None \<Rightarrow> (Inr (), t\<lparr>auth_challenges := (auth_challenges t)(ch \<mapsto>
                  \<lparr>challenge_expires_at = expires, challenge_consumed_at = None\<rparr>)\<rparr>))"

definition challenge_create :: "auth_deps \<Rightarrow> (tables world, string, string) prog" where
  "challenge_create ax =
     bindE (draw ax) (\<lambda>bs.
     bindE (now_utc (ax_env ax)) (\<lambda>now.
     bindE (sql (ax_env ax) (insert_challenge bs (after_secs now (challenge_ttl (ax_config ax))))) (\<lambda>r.
     bindE (lift_result r) (\<lambda>_. ret (ax_b64_encode ax bs)))))"

definition challenge_live :: "bytes \<Rightarrow> instant \<Rightarrow> tables \<Rightarrow> bool" where
  "challenge_live ch now t =
     (case auth_challenges t ch of
        None \<Rightarrow> False
      | Some r \<Rightarrow> challenge_consumed_at r = None \<and> challenge_expires_at r > now)"

definition challenge_consume :: "bytes \<Rightarrow> (tables, bool) stmt" where
  "challenge_consume ch now t =
     (if challenge_live ch now t
      then (True, t\<lparr>auth_challenges := (auth_challenges t)(ch \<mapsto>
              (the (auth_challenges t ch))\<lparr>challenge_consumed_at := Some now\<rparr>)\<rparr>)
      else (False, t))"

section \<open>Refresh tokens\<close>

record session =
  se_account_id :: string
  se_app_from_official_store :: bool
  se_platform :: "string option"

definition session_of :: "refresh_row \<Rightarrow> session" where
  "session_of r = \<lparr>se_account_id = rt_account_id r, se_app_from_official_store = rt_app_from_official_store r,
     se_platform = rt_platform r\<rparr>"

definition insert_refresh :: "string \<Rightarrow> session \<Rightarrow> instant \<Rightarrow> (tables, string + unit) stmt" where
  "insert_refresh tok s expires now t =
     (case refresh_tokens t tok of
        Some _ \<Rightarrow> (Inl ''duplicate key value violates unique constraint'', t)
      | None \<Rightarrow> (Inr (), t\<lparr>refresh_tokens := (refresh_tokens t)(tok \<mapsto>
           \<lparr>rt_account_id = se_account_id s, rt_app_from_official_store = se_app_from_official_store s,
            rt_platform = se_platform s, rt_expires_at = expires, rt_used_at = None, rt_replaced_by = None\<rparr>)\<rparr>))"

definition select_refresh :: "string \<Rightarrow> (tables, refresh_row option) stmt" where
  "select_refresh tok now t = (refresh_tokens t tok, t)"

definition spend_refresh :: "string \<Rightarrow> string \<Rightarrow> (tables, unit) stmt" where
  "spend_refresh tok new now t =
     ((), case refresh_tokens t tok of
            None \<Rightarrow> t
          | Some r \<Rightarrow> t\<lparr>refresh_tokens := (refresh_tokens t)(tok \<mapsto>
              r\<lparr>rt_used_at := Some now, rt_replaced_by := Some new\<rparr>)\<rparr>)"

definition refresh_mint :: "auth_deps \<Rightarrow> session \<Rightarrow> nat \<Rightarrow> (tables world, string, string) prog" where
  "refresh_mint ax s ttl =
     bindE (random_token ax) (\<lambda>tok.
     bindE (now_utc (ax_env ax)) (\<lambda>now.
     bindE (sql (ax_env ax) (insert_refresh tok s (after_secs now ttl))) (\<lambda>r.
     bindE (lift_result r) (\<lambda>_. ret tok))))"

definition rotate_token :: "auth_deps \<Rightarrow> string \<Rightarrow> nat \<Rightarrow> (tables world, string, (session \<times> string) option) prog" where
  "rotate_token ax presented ttl =
     (let E = ax_env ax in
      transaction E (\<lambda>e. e) (\<lambda>tx_now.
        bindE (tx_sql E tx_now (select_refresh presented)) (\<lambda>row.
        case row of
          None \<Rightarrow> ret (Rollback None)
        | Some r \<Rightarrow>
            bindE (now_utc E) (\<lambda>now.
            if rt_used_at r \<noteq> None \<or> rt_expires_at r \<le> now then ret (Rollback None) else
            bindE (random_token ax) (\<lambda>new_token.
            bindE (now_utc E) (\<lambda>now'.
            bindE (tx_sql E tx_now (spend_refresh presented new_token)) (\<lambda>_.
            bindE (tx_sql E tx_now (insert_refresh new_token (session_of r) (after_secs now' ttl))) (\<lambda>ins.
            bindE (lift_result ins) (\<lambda>_. ret (Commit (Some (session_of r, new_token))))))))))))"

definition unix_now :: "auth_deps \<Rightarrow> (tables world, 'e, int) prog" where
  "unix_now ax = bindE (now_utc (ax_env ax)) (\<lambda>now. ret (unix_timestamp now))"

definition issue_access :: "auth_deps \<Rightarrow> session \<Rightarrow> (tables world, 'e, string) prog" where
  "issue_access ax s =
     bindE (unix_now ax) (\<lambda>now.
     ret (jwt_issue (ax_jwt_lib ax) (ax_jwt ax) (nat now) (se_account_id s) (se_app_from_official_store s)
            (se_platform s) (access_ttl (ax_config ax))))"

definition rotate :: "auth_deps \<Rightarrow> string \<Rightarrow> (tables world, app_error, string \<times> string) prog" where
  "rotate ax presented =
     bindE (map_err AppInternal (rotate_token ax presented (refresh_ttl (ax_config ax)))) (\<lambda>r.
     case r of
       Some (session, refresh_token) \<Rightarrow>
         bindE (issue_access ax session) (\<lambda>token. ret (token, refresh_token))
     | None \<Rightarrow> throw Unauthorized)"

section \<open>Headers and proofs\<close>

definition header_text :: "headers \<Rightarrow> string \<Rightarrow> string option" where
  "header_text hs name = Option.bind (hs name) hv_str"

definition decode_header :: "codecs \<Rightarrow> headers \<Rightarrow> string \<Rightarrow> app_error + bytes" where
  "decode_header cd hs name =
     and_then (ok_or (BadRequest (''missing or invalid header '' @ name)) (header_text hs name)) (\<lambda>raw.
     map_error (\<lambda>_. BadRequest (''header '' @ name @ '' is not valid base64'')) (cd_b64 cd (trim raw)))"

definition decode_header_fixed :: "nat \<Rightarrow> codecs \<Rightarrow> headers \<Rightarrow> string \<Rightarrow> app_error + bytes" where
  "decode_header_fixed n cd hs name =
     and_then (decode_header cd hs name) (\<lambda>bs.
     ok_or (BadRequest (''header '' @ name @ '' must decode to '' @ nat_to_string n @ '' bytes'')) (try_array n bs))"

definition detect_platform :: "headers \<Rightarrow> string option" where
  "detect_platform hs =
     (if hs ''auth-ios-package'' \<noteq> None then Some ''ios''
      else if hs ''auth-android-package'' \<noteq> None \<or>
              (case hs ''auth-attestation-type'' of
                 Some v \<Rightarrow> hv_bytes v = as_bytes ''key-attestation'' | None \<Rightarrow> False)
      then Some ''android'' else None)"

definition client_data_hash :: "crypto \<Rightarrow> bytes \<Rightarrow> bytes \<Rightarrow> bytes \<Rightarrow> bytes" where
  "client_data_hash cy challenge client_id body = cy_sha256 cy (challenge @ client_id @ cy_sha256 cy body)"

definition proof_verify :: "auth_deps \<Rightarrow> bytes \<Rightarrow> bytes \<Rightarrow> bytes \<Rightarrow> bytes \<Rightarrow> bool" where
  "proof_verify ax challenge client_id body prf =
     ax_sr25519 ax prf (client_data_hash (ax_crypto ax) challenge client_id body) client_id"

section \<open>Attestation verdicts\<close>

definition db :: "auth_deps \<Rightarrow> (tables, 'a) stmt \<Rightarrow> (app_error, 'a) aprog" where
  "db ax st = on_first (map_err AppInternal (sql (ax_env ax) st))"

definition ios_attestation_verdict ::
  "auth_deps \<Rightarrow> headers \<Rightarrow> bytes \<Rightarrow> bytes \<Rightarrow> bytes \<Rightarrow> (app_error, string + unit) aprog" where
  "ios_attestation_verdict ax hs challenge client_id body =
     (case header_text hs ''auth-ios-package'' of
        None \<Rightarrow> ret (Inl ''no iOS package header; platform attestation unavailable'')
      | Some package \<Rightarrow>
          if package \<notin> set (ios_package_names (ax_config ax))
          then ret (Inl (''unknown iOS package '' @ package)) else
          case decode_header (ax_codecs ax) hs ''auth-payload'' of
            Inl _ \<Rightarrow> ret (Inl ''missing or invalid Auth-Payload assertion'')
          | Inr assertion \<Rightarrow>
          case decode_header (ax_codecs ax) hs ''auth-ios-keyid'' of
            Inl _ \<Rightarrow> ret (Inl ''missing or invalid Auth-iOS-KeyId'')
          | Inr kid \<Rightarrow>
          bindE (db ax (app_attest_find kid)) (\<lambda>found.
          case found of
            None \<Rightarrow> ret (Inl ''unregistered App Attest key'')
          | Some key \<Rightarrow>
              (case verify_assertion (ax_crypto ax) (ax_cbor ax) assertion
                      (client_data_hash (ax_crypto ax) challenge client_id body) (sk_public_key key)
                      (apple_app_attest_app_ids (ax_config ax)) (sk_sign_count key) of
                 Inl err \<Rightarrow> ret (Inl (attest_error_str err))
               | Inr next_count \<Rightarrow>
                   bindE (db ax (commit_sign_count kid next_count)) (\<lambda>ok.
                   ret (if ok then Inr () else Inl ''assertion sign count no longer monotonic'')))))"

definition signing_digests_of :: "config \<Rightarrow> (bytes \<times> bytes) option" where
  "signing_digests_of c =
     (case (android_signing_digest_playstore c, android_signing_digest_website c) of
        (Some p, Some w) \<Rightarrow> Some (p, w) | _ \<Rightarrow> None)"

definition crl_serials :: "auth_deps \<Rightarrow> (crl_error, string set) aprog" where
  "crl_serials ax = revoked_serials (ax_env ax) (ax_crl ax) (secs (int (android_crl_cache_ttl (ax_config ax))))
     (secs (int (android_crl_max_stale (ax_config ax))))"

definition key_attest_params :: "auth_deps \<Rightarrow> bytes \<Rightarrow> bytes \<times> bytes \<Rightarrow> string set \<Rightarrow> int \<Rightarrow> verify_params" where
  "key_attest_params ax challenge digests revoked now =
     \<lparr>vp_challenge = challenge, vp_package_names = android_package_names (ax_config ax),
      vp_playstore_digest = fst digests, vp_website_digest = snd digests,
      vp_trusted_roots_der = ax_google_roots ax,
      vp_trusted_verified_boot_keys = GRAPHENEOS_VERIFIED_BOOT_KEYS,
      vp_revoked_serials = revoked, vp_now_unix = now\<rparr>"

definition key_attestation_verdict :: "auth_deps \<Rightarrow> bytes \<Rightarrow> bytes \<Rightarrow> (app_error, string + bool) aprog" where
  "key_attestation_verdict ax challenge body =
     (case chain_from_body (ax_body_chain ax) (ax_codecs ax) body of
        Inl reason \<Rightarrow> ret (Inl reason)
      | Inr chain \<Rightarrow>
      case signing_digests_of (ax_config ax) of
        None \<Rightarrow> ret (Inl ''android signing digests are not configured'')
      | Some digests \<Rightarrow>
      bindE (attempt (crl_serials ax)) (\<lambda>r.
      case r of
        Inl e \<Rightarrow>
          if enforce_auth (ax_config ax) then throw CrlUnavailable
          else ret (Inl (''attestation CRL unavailable: '' @ crl_error_str e))
      | Inr revoked \<Rightarrow>
          bindE (on_first (unix_now ax)) (\<lambda>now.
          ret (case verify_chain (ax_crypto ax) chain (key_attest_params ax challenge digests revoked now) of
                 Inl e \<Rightarrow> Inl (key_attest_error_str e) | Inr _ \<Rightarrow> Inr False))))"

definition play_policy :: "auth_deps \<Rightarrow> bytes \<Rightarrow> bytes \<times> bytes \<Rightarrow> policy_params" where
  "play_policy ax nonce digests =
     \<lparr>pp_expected_nonce = nonce, pp_mode = play_mode (ax_config ax),
      pp_package_names = android_package_names (ax_config ax),
      pp_playstore_digest = fst digests, pp_website_digest = snd digests\<rparr>"

definition play_integrity_verdict ::
  "auth_deps \<Rightarrow> headers \<Rightarrow> bytes \<Rightarrow> bytes \<Rightarrow> bytes \<Rightarrow> (app_error, string + bool) aprog" where
  "play_integrity_verdict ax hs challenge client_id body =
     (case header_text hs ''auth-android-package'' of
        None \<Rightarrow> ret (Inl ''missing Auth-Android-Package header'')
      | Some package \<Rightarrow>
      if package \<notin> set (android_package_names (ax_config ax))
      then ret (Inl (''unknown Android package '' @ package)) else
      case header_text hs ''auth-payload'' of
        None \<Rightarrow> ret (Inl ''missing Auth-Payload integrity token'')
      | Some token \<Rightarrow>
      case signing_digests_of (ax_config ax) of
        None \<Rightarrow> ret (Inl ''android signing digests are not configured'')
      | Some digests \<Rightarrow>
      let policy = play_policy ax (client_data_hash (ax_crypto ax) challenge client_id body) digests in
      case (play_integrity_decryption_key (ax_config ax), play_integrity_verification_key (ax_config ax)) of
        (Some dk, Some vk) \<Rightarrow>
          ret (map_error play_integrity_error_str (verify_token (ax_crypto ax) (ax_pi ax) token dk vk policy))
      | _ \<Rightarrow>
      case ax_google ax of
        Some google \<Rightarrow>
          bindE (attempt (on_first (remote (\<lambda>n. google n package token)))) (\<lambda>r.
          ret (case r of
                 Inl e \<Rightarrow> Inl (''google decode fallback: '' @ e)
               | Inr payload \<Rightarrow> map_error play_integrity_error_str (check_payload (ax_pi ax) payload policy)))
      | None \<Rightarrow> ret (Inl ''play integrity is not configured (neither self-managed keys nor GOOGLE_CREDENTIALS)''))"

definition attestation_verdict ::
  "auth_deps \<Rightarrow> headers \<Rightarrow> bytes \<Rightarrow> bytes \<Rightarrow> bytes \<Rightarrow> (app_error, string + bool) aprog" where
  "attestation_verdict ax hs challenge client_id body =
     (if hs ''auth-ios-package'' \<noteq> None
      then bindE (ios_attestation_verdict ax hs challenge client_id body) (\<lambda>r.
           ret (case r of Inl e \<Rightarrow> Inl e | Inr _ \<Rightarrow> Inr True)) else
      case header_text hs ''auth-attestation-type'' of
        None \<Rightarrow> ret (Inl ''no attestation evidence (no Auth-iOS-Package or Auth-Attestation-Type)'')
      | Some kind \<Rightarrow>
          if kind = ''key-attestation'' then key_attestation_verdict ax challenge body
          else if kind = ''play-integrity'' then play_integrity_verdict ax hs challenge client_id body
          else ret (Inl (''unknown Auth-Attestation-Type '' @ debug_str kind)))"

section \<open>The token endpoint\<close>

definition store_verdict ::
  "auth_deps \<Rightarrow> headers \<Rightarrow> bytes \<Rightarrow> bytes \<Rightarrow> bytes \<Rightarrow> (app_error, bool) aprog" where
  "store_verdict ax hs challenge client_id body =
     (if auth_enabled (ax_config ax)
      then bindE (attestation_verdict ax hs challenge client_id body) (\<lambda>v.
           case v of
             Inr from_store \<Rightarrow> ret from_store
           | Inl reason \<Rightarrow> if enforce_auth (ax_config ax) then throw (IntegrityFailed reason) else ret False)
      else ret True)"

definition token_issue :: "auth_deps \<Rightarrow> headers \<Rightarrow> bytes \<Rightarrow> (app_error, string \<times> string) aprog" where
  "token_issue ax hs body =
     bindE (lift_result (decode_header_fixed 32 (ax_codecs ax) hs ''auth-clientid'')) (\<lambda>client_id.
     bindE (lift_result (decode_header_fixed 64 (ax_codecs ax) hs ''auth-clientproof'')) (\<lambda>client_proof.
     bindE (lift_result (decode_header (ax_codecs ax) hs ''auth-challenge'')) (\<lambda>challenge.
     bindE (db ax (challenge_consume challenge)) (\<lambda>consumed.
     if \<not> consumed then throw Unauthorized else
     if \<not> proof_verify ax challenge client_id body client_proof then throw Unauthorized else
     bindE (store_verdict ax hs challenge client_id body) (\<lambda>official.
     let s = \<lparr>se_account_id = ''0x'' @ cy_hex (ax_crypto ax) client_id, se_app_from_official_store = official,
              se_platform = detect_platform hs\<rparr> in
     bindE (on_first (issue_access ax s)) (\<lambda>token.
     bindE (on_first (map_err AppInternal (refresh_mint ax s (refresh_ttl (ax_config ax))))) (\<lambda>refresh_token.
     ret (token, refresh_token))))))))"

section \<open>Registering an App Attest key\<close>

datatype attest_reply = Accepted | ChallengeNotFound | VerifyAttestationFailed string

definition decode_b64_field :: "codecs \<Rightarrow> string \<Rightarrow> string \<Rightarrow> app_error + bytes" where
  "decode_b64_field cd value name =
     map_error (\<lambda>_. BadRequest (''body field '' @ name @ '' is not valid base64'')) (cd_b64 cd (trim value))"

definition app_attest_register :: "auth_deps \<Rightarrow> string \<Rightarrow> string \<Rightarrow> string \<Rightarrow> (app_error, attest_reply) aprog" where
  "app_attest_register ax key_field challenge_field attestation_field =
     (if \<not> auth_enabled (ax_config ax) then ret Accepted else
      bindE (lift_result (decode_b64_field (ax_codecs ax) key_field ''keyId'')) (\<lambda>kid.
      bindE (lift_result (decode_b64_field (ax_codecs ax) challenge_field ''challenge'')) (\<lambda>challenge.
      bindE (lift_result (decode_b64_field (ax_codecs ax) attestation_field ''attestation'')) (\<lambda>attestation.
      bindE (db ax (challenge_consume challenge)) (\<lambda>consumed.
      if \<not> consumed then ret ChallengeNotFound else
      bindE (on_first (unix_now ax)) (\<lambda>now.
      case verify_attestation (ax_crypto ax) (ax_cbor ax) attestation challenge kid
             (apple_app_attest_app_ids (ax_config ax)) (ax_apple_root ax) now of
        Inr attested \<Rightarrow>
          bindE (db ax (app_attest_upsert kid (ak_public_key attested) (ak_receipt attested) None)) (\<lambda>_.
          ret Accepted)
      | Inl err \<Rightarrow>
          if enforce_auth (ax_config ax) then ret (VerifyAttestationFailed (attest_error_str err))
          else ret Accepted))))))"

section \<open>Refresh tokens are a store of live sessions\<close>

text \<open>The specification: a map from tokens to sessions with their expiry. Rotating a token at time
  \<open>now\<close> takes it out and puts a new one in for the same session.\<close>

type_synonym session_store = "string \<Rightarrow> (session \<times> instant) option"

definition store_rotate :: "string \<Rightarrow> instant \<Rightarrow> string \<Rightarrow> instant \<Rightarrow> session_store \<Rightarrow> session option \<times> session_store" where
  "store_rotate tok now new expires st =
     (case st tok of
        Some (s, exp) \<Rightarrow> if exp \<le> now then (None, st) else (Some s, st(tok := None, new \<mapsto> (s, expires)))
      | None \<Rightarrow> (None, st))"

definition live_sessions :: "tables \<Rightarrow> session_store" where
  "live_sessions t tok =
     (case refresh_tokens t tok of
        Some r \<Rightarrow> if rt_used_at r = None then Some (session_of r, rt_expires_at r) else None
      | None \<Rightarrow> None)"

lemma live_sessions_simps:
  "live_sessions (t\<lparr>refresh_tokens := m\<rparr>) =
     (\<lambda>tok. case m tok of Some r \<Rightarrow> if rt_used_at r = None then Some (session_of r, rt_expires_at r) else None | None \<Rightarrow> None)"
  by (rule ext) (simp add: live_sessions_def)

lemma session_of_inserted:
  "session_of \<lparr>rt_account_id = se_account_id s, rt_app_from_official_store = se_app_from_official_store s,
     rt_platform = se_platform s, rt_expires_at = e, rt_used_at = u, rt_replaced_by = b\<rparr> = s"
  by (simp add: session_of_def)

lemma spend_then_insert:
  assumes "refresh_tokens t tok = Some r" "rt_used_at r = None" "\<not> rt_expires_at r \<le> now"
    and "insert_refresh new (session_of r) expires tx (snd (spend_refresh tok new tx t)) = (Inr (), t')"
  shows "(Some (session_of r), live_sessions t') = store_rotate tok now new expires (live_sessions t)"
proof -
  have ne: "new \<noteq> tok" "refresh_tokens t new = None"
    using assms(1,4) by (auto simp: insert_refresh_def spend_refresh_def split: option.splits if_splits)
  then have t': "t' = t\<lparr>refresh_tokens := (refresh_tokens t)(tok \<mapsto> r\<lparr>rt_used_at := Some tx, rt_replaced_by := Some new\<rparr>,
      new \<mapsto> \<lparr>rt_account_id = se_account_id (session_of r), rt_app_from_official_store = se_app_from_official_store (session_of r),
        rt_platform = se_platform (session_of r), rt_expires_at = expires, rt_used_at = None, rt_replaced_by = None\<rparr>)\<rparr>"
    using assms(1,4) by (auto simp: insert_refresh_def spend_refresh_def)
  have "live_sessions t tok = Some (session_of r, rt_expires_at r)" using assms by (simp add: live_sessions_def)
  moreover have "live_sessions t' = (live_sessions t)(tok := None, new \<mapsto> (session_of r, expires))"
    unfolding t' live_sessions_simps using ne by (auto simp: live_sessions_def session_of_inserted)
  ultimately show ?thesis using assms(3) by (simp add: store_rotate_def)
qed

lemma rotate_token_refines:
  assumes "rotate_token ax tok ttl w = (r, w')"
  shows "case r of
      Inl e \<Rightarrow> live_sessions (w_db w') = live_sessions (e_others (ax_env ax) (w_step w) (w_db w))
    | Inr None \<Rightarrow> \<exists>k new exp. (None, live_sessions (w_db w')) =
        store_rotate tok (e_clock (ax_env ax) k) new exp (live_sessions (e_others (ax_env ax) (w_step w) (w_db w)))
    | Inr (Some (s, new)) \<Rightarrow> \<exists>k k'. (Some s, live_sessions (w_db w')) =
        store_rotate tok (e_clock (ax_env ax) k) new (after_secs (e_clock (ax_env ax) k') ttl)
          (live_sessions (e_others (ax_env ax) (w_step w) (w_db w)))"
  using assms unfolding rotate_token_def Let_def
proof (cases rule: transaction_cases)
  case (failed e)
  then show ?thesis by simp
next
  case (rolled_back a w1)
  let ?t = "e_others (ax_env ax) (w_step w) (w_db w)"
  have "a = None" using rolled_back(1) by (cases a) (auto simp: inr_iffs split: option.splits if_splits)
  moreover have "\<exists>k. (None, live_sessions ?t) = store_rotate tok (e_clock (ax_env ax) k) new exp (live_sessions ?t)" for new exp
    using rolled_back(1)
    by (auto simp: inr_iffs tx_sql_Inr_iff select_refresh_def store_rotate_def live_sessions_def
        split: option.splits if_splits)
  ultimately show ?thesis using rolled_back(2,3) by simp blast
next
  case (committed a w1)
  let ?t = "e_others (ax_env ax) (w_step w) (w_db w)"
  from committed(1) obtain row k new k' t' where
    "refresh_tokens ?t tok = Some row" "rt_used_at row = None" "\<not> rt_expires_at row \<le> e_clock (ax_env ax) k"
    "insert_refresh new (session_of row) (after_secs (e_clock (ax_env ax) k') ttl) (e_clock (ax_env ax) (w_step w))
       (snd (spend_refresh tok new (e_clock (ax_env ax) (w_step w)) ?t)) = (Inr (), w_db w1)"
    "a = Some (session_of row, new)"
    by (auto simp: inr_iffs tx_sql_Inr_iff select_refresh_def spend_refresh_def random_token_def draw_def
        split: option.splits if_splits)
  with spend_then_insert [OF this(1-4)] show ?thesis using committed(2,3) by auto
qed

text \<open>C13: rotating a refresh token implements the session store, under every interleaving, clock and
  fault: it answers what the store answers at a clock reading made during the call, the live
  sessions change as the store's do, and on an error no session changes. So a token works at
  most once, and its successor carries the same account, platform and store verdict.\<close>

theorem rotate_refines_store:
  "case rotate_token ax tok ttl w of
      (Inl e, w') \<Rightarrow> live_sessions (w_db w') = live_sessions (e_others (ax_env ax) (w_step w) (w_db w))
    | (Inr None, w') \<Rightarrow> \<exists>k new exp. (None, live_sessions (w_db w')) =
        store_rotate tok (e_clock (ax_env ax) k) new exp (live_sessions (e_others (ax_env ax) (w_step w) (w_db w)))
    | (Inr (Some (s, new)), w') \<Rightarrow> \<exists>k k'. (Some s, live_sessions (w_db w')) =
        store_rotate tok (e_clock (ax_env ax) k) new (after_secs (e_clock (ax_env ax) k') ttl)
          (live_sessions (e_others (ax_env ax) (w_step w) (w_db w)))"
  using rotate_token_refines [of ax tok ttl w]
  by (auto split: prod.splits sum.splits option.splits)

section \<open>Evidence behind an issued token\<close>

text \<open>A key that an accepted App Attest object vouched for.\<close>

definition attested :: "auth_deps \<Rightarrow> bytes \<Rightarrow> bytes \<Rightarrow> bool" where
  "attested ax kid pk \<longleftrightarrow> (\<exists>attestation challenge now receipt.
     verify_attestation (ax_crypto ax) (ax_cbor ax) attestation challenge kid
       (apple_app_attest_app_ids (ax_config ax)) (ax_apple_root ax) now =
     Inr \<lparr>ak_public_key = pk, ak_receipt = receipt\<rparr>)"

definition keys_attested :: "auth_deps \<Rightarrow> tables \<Rightarrow> bool" where
  "keys_attested ax t \<longleftrightarrow> (\<forall>kid row. app_attest_keys t kid = Some row \<longrightarrow> attested ax kid (aa_public_key row))"

text \<open>The HTTP library's \<open>to_str\<close> gives the bytes of the value as text.\<close>

definition headers_ok :: "headers \<Rightarrow> bool" where
  "headers_ok hs \<longleftrightarrow> (\<forall>name v s. hs name = Some v \<longrightarrow> hv_str v = Some s \<longrightarrow> hv_bytes v = as_bytes s)"

inductive evidence :: "auth_deps \<Rightarrow> headers \<Rightarrow> bytes \<Rightarrow> bytes \<Rightarrow> bytes \<Rightarrow> string \<Rightarrow> bool \<Rightarrow> bool"
  for ax hs challenge client_id body where
  ios: "header_text hs ''auth-ios-package'' = Some package \<Longrightarrow> package \<in> set (ios_package_names (ax_config ax)) \<Longrightarrow>
    attested ax kid pk \<Longrightarrow>
    assertion_genuine (ax_crypto ax) (ax_cbor ax) assertion (client_data_hash (ax_crypto ax) challenge client_id body)
      pk (apple_app_attest_app_ids (ax_config ax)) prev next_count \<Longrightarrow>
    evidence ax hs challenge client_id body ''ios'' True"
| key: "chain_from_body (ax_body_chain ax) (ax_codecs ax) body = Inr chain \<Longrightarrow>
    signing_digests_of (ax_config ax) = Some digests \<Longrightarrow>
    crl_serials ax s = (Inr revoked, s') \<Longrightarrow>
    chain_genuine (ax_crypto ax) (key_attest_params ax challenge digests revoked now) chain d \<Longrightarrow>
    evidence ax hs challenge client_id body ''android'' False"
| play: "header_text hs ''auth-android-package'' = Some package \<Longrightarrow> package \<in> set (android_package_names (ax_config ax)) \<Longrightarrow>
    signing_digests_of (ax_config ax) = Some digests \<Longrightarrow>
    policy = play_policy ax (client_data_hash (ax_crypto ax) challenge client_id body) digests \<Longrightarrow>
    payload_genuine (ax_pi ax) policy payload \<Longrightarrow>
    evidence ax hs challenge client_id body ''android'' (play_distributed (ax_pi ax) policy payload)"

lemma db_Inr_iff:
  "db ax st (w, c) = (Inr a, s') \<longleftrightarrow> e_fault (ax_env ax) (w_step w) = None \<and>
     (\<exists>t'. st (e_clock (ax_env ax) (w_step w)) (e_others (ax_env ax) (w_step w) (w_db w)) = (a, t') \<and>
        s' = (w\<lparr>w_db := t', w_step := Suc (w_step w)\<rparr>, c))"
  by (auto simp: db_def on_first_Inr_iff run_Inr_iffs sql_Inr_iff)

lemma ios_verdict_evidence:
  assumes "ios_attestation_verdict ax hs challenge client_id body (w, c) = (Inr (Inr ()), s')"
    and "stable (ax_env ax) (keys_attested ax)" "keys_attested ax (w_db w)"
  shows "evidence ax hs challenge client_id body ''ios'' True"
proof -
  have att: "keys_attested ax (e_others (ax_env ax) (w_step w) (w_db w))" using assms(2,3) by (simp add: stable_def)
  from assms(1) obtain package assertion kid key next_count where
    "header_text hs ''auth-ios-package'' = Some package" "package \<in> set (ios_package_names (ax_config ax))"
    and key: "app_attest_find kid (e_clock (ax_env ax) (w_step w)) (e_others (ax_env ax) (w_step w) (w_db w)) =
        (Some key, e_others (ax_env ax) (w_step w) (w_db w))"
    and "verify_assertion (ax_crypto ax) (ax_cbor ax) assertion (client_data_hash (ax_crypto ax) challenge client_id body)
      (sk_public_key key) (apple_app_attest_app_ids (ax_config ax)) (sk_sign_count key) = Inr next_count"
    unfolding ios_attestation_verdict_def
    by (force simp: inr_iffs db_Inr_iff app_attest_find_def case_run_iffs split: if_splits)
  moreover have "attested ax kid (sk_public_key key)"
    using key att by (auto simp: app_attest_find_def keys_attested_def)
  ultimately show ?thesis by (auto simp: verify_assertion_iff intro: evidence.ios)
qed

lemma key_verdict_evidence:
  assumes "key_attestation_verdict ax challenge body s = (Inr (Inr official), s')"
  shows "\<not> official \<and> evidence ax hs challenge client_id body ''android'' False"
proof -
  from assms obtain chain digests revoked now s1 where
    "chain_from_body (ax_body_chain ax) (ax_codecs ax) body = Inr chain" "signing_digests_of (ax_config ax) = Some digests"
    "crl_serials ax s = (Inr revoked, s1)"
    "verify_chain (ax_crypto ax) chain (key_attest_params ax challenge digests revoked now) = Inr ()" "\<not> official"
    unfolding key_attestation_verdict_def
    by (auto simp: inr_iffs case_run_iffs split: if_splits)
  then show ?thesis by (auto simp: verify_chain_char intro: evidence.key)
qed

lemma play_verdict_evidence:
  assumes "play_integrity_verdict ax hs challenge client_id body s = (Inr (Inr official), s')"
  shows "evidence ax hs challenge client_id body ''android'' official \<and> hs ''auth-android-package'' \<noteq> None"
proof -
  from assms obtain package digests payload where
    pkg: "header_text hs ''auth-android-package'' = Some package" "package \<in> set (android_package_names (ax_config ax))"
      "signing_digests_of (ax_config ax) = Some digests"
    and "check_payload (ax_pi ax) payload
      (play_policy ax (client_data_hash (ax_crypto ax) challenge client_id body) digests) = Inr official"
    unfolding play_integrity_verdict_def Let_def
    by (auto simp: inr_iffs case_run_iffs verify_token_def split: if_splits)
  then have "payload_genuine (ax_pi ax) (play_policy ax (client_data_hash (ax_crypto ax) challenge client_id body) digests) payload"
    "official = play_distributed (ax_pi ax) (play_policy ax (client_data_hash (ax_crypto ax) challenge client_id body) digests) payload"
    by (auto simp: check_payload_char)
  then show ?thesis using pkg by (auto intro: evidence.play simp: header_text_def Option.bind_eq_Some_conv)
qed

lemma verdict_evidence:
  assumes "attestation_verdict ax hs challenge client_id body (w, c) = (Inr (Inr official), s')" "headers_ok hs"
    and "stable (ax_env ax) (keys_attested ax)" "keys_attested ax (w_db w)"
  shows "\<exists>plt. detect_platform hs = Some plt \<and> evidence ax hs challenge client_id body plt official"
proof (cases "hs ''auth-ios-package'' = None")
  case False
  with assms(1) have "ios_attestation_verdict ax hs challenge client_id body (w, c) = (Inr (Inr ()), s')" "official"
    by (auto simp: attestation_verdict_def inr_iffs case_run_iffs)
  with ios_verdict_evidence assms(3,4) False show ?thesis by (auto simp: detect_platform_def)
next
  case True
  with assms(1) consider
    (key) "header_text hs ''auth-attestation-type'' = Some ''key-attestation''"
      "key_attestation_verdict ax challenge body (w, c) = (Inr (Inr official), s')"
    | (play) "play_integrity_verdict ax hs challenge client_id body (w, c) = (Inr (Inr official), s')"
    by (auto simp: attestation_verdict_def inr_iffs case_run_iffs split: if_splits)
  then show ?thesis
  proof cases
    case key
    then obtain v where "hs ''auth-attestation-type'' = Some v" "hv_str v = Some ''key-attestation''"
      by (auto simp: header_text_def Option.bind_eq_Some_conv)
    then have "detect_platform hs = Some ''android''" using True assms(2)
      by (auto simp: detect_platform_def headers_ok_def)
    then show ?thesis using key_verdict_evidence [OF key(2)] by auto
  next
    case play
    with True play_verdict_evidence [OF play] show ?thesis by (auto simp: detect_platform_def)
  qed
qed


text \<open>A deployment with Play Integrity through Google and a request that carries an accepted token.\<close>

definition demo_config :: config where
  "demo_config = \<lparr>bind_addr = [], database_url = [], jwt_secret = replicate 32 1, jwt_issuer = ''app'', people_rpc_url = [],
     attester_account = replicate 32 2, access_ttl = 60, refresh_ttl = 600, challenge_ttl = 300, auth_rate_limit = 30,
     auth_rate_window = 60, auth_enabled = True, enforce_auth = True, queue_enabled = False,
     registration_vouchers_enabled = False, dotns_intake_freshness_max_age_secs = 600, dotns_max_future_skew_secs = 60,
     apple_app_attest_app_ids = [''T.app''], ios_package_names = [''a''], android_package_names = [''c''],
     android_signing_digest_playstore = Some [5], android_signing_digest_website = Some [6], android_crl_url = [],
     android_crl_cache_ttl = 3600, android_crl_max_stale = 86400, play_mode = Strict,
     play_integrity_decryption_key = None, play_integrity_verification_key = None, google_fallback = None,
     device_check = None, widevine = None\<rparr>"

definition demo_payload :: token_payload where
  "demo_payload = \<lparr>request_details = Some (Some ''n''),
     tp_app_integrity = Some \<lparr>app_recognition_verdict = Some ''PLAY_RECOGNIZED'', ai_package_name = Some ''c'',
       certificate_sha256_digest = Some [''d'']\<rparr>,
     device_integrity = Some (Some [''MEETS_STRONG_INTEGRITY'']), account_details = Some (Some ''LICENSED'')\<rparr>"

definition demo_pi :: pi_lib where
  "demo_pi = \<lparr>pi_b64_no_pad = \<lambda>s. Some (if s = ''n'' then [9] else [5]), pi_b64_pad = \<lambda>_. None,
     pi_jwe_header = \<lambda>_. None, pi_jws_header = \<lambda>_. None, pi_key_unwrap = \<lambda>_ _. Inl [], pi_gcm_open = \<lambda>_ _ _ _. None,
     pi_spki = \<lambda>_. Inl [], pi_sig_ok = \<lambda>_. False, pi_payload = \<lambda>_. Inl []\<rparr>"

definition demo_crypto :: crypto where
  "demo_crypto = \<lparr>cy_sha256 = \<lambda>_. [9], cy_sha384 = \<lambda>_. [9], cy_hex = \<lambda>_. ''07'', cy_parse_cert = \<lambda>_. Inl [],
     cy_asn1_time = \<lambda>_. Inl [], cy_rsa_key = \<lambda>_. Inl [], cy_rsa_verify = \<lambda>_ _ _ _. False, cy_p256_key = \<lambda>_. Inl [],
     cy_p256_sig = \<lambda>_. Inl [], cy_p256_verify = \<lambda>_ _ _. False, cy_p384_key = \<lambda>_. Inl [], cy_p384_sig = \<lambda>_. Inl [],
     cy_p384_verify = \<lambda>_ _ _. False\<rparr>"

definition demo_ax :: auth_deps where
  "demo_ax = \<lparr>ax_env = quiet 0, ax_config = demo_config, ax_crypto = demo_crypto,
     ax_codecs = demo_codecs\<lparr>cd_b64 := \<lambda>s. Inr (if s = ''p'' then replicate 64 3 else if s = ''i'' then replicate 32 4 else [7])\<rparr>,
     ax_b64_encode = \<lambda>_. ''r'', ax_random = \<lambda>_. [8], ax_sr25519 = \<lambda>_ _ _. True, ax_cbor = \<lambda>_. Inl [], ax_pi = demo_pi,
     ax_google = Some (\<lambda>_ _ _. Inr demo_payload), ax_crl = \<lparr>crl_get = \<lambda>_. Inl [], crl_entries = \<lambda>_. Inl []\<rparr>,
     ax_body_chain = \<lambda>_. Inl [], ax_google_roots = [], ax_apple_root = [], ax_jwt_lib = demo_jwt_lib,
     ax_jwt = jwt_new demo_jwt_lib (\<lambda>b. b) (\<lambda>_. ''k'') [1] ''app''\<rparr>"

definition demo_header :: "string \<Rightarrow> header_value" where
  "demo_header s = \<lparr>hv_bytes = as_bytes s, hv_str = Some s\<rparr>"

definition demo_headers :: headers where
  "demo_headers = map_option demo_header \<circ> [''auth-clientid'' \<mapsto> ''i'', ''auth-clientproof'' \<mapsto> ''p'',
     ''auth-challenge'' \<mapsto> ''h'', ''auth-android-package'' \<mapsto> ''c'', ''auth-attestation-type'' \<mapsto> ''play-integrity'',
     ''auth-payload'' \<mapsto> ''t'']"

definition demo_auth_tables :: tables where
  "demo_auth_tables = empty_tables\<lparr>auth_challenges := [[7] \<mapsto>
     \<lparr>challenge_expires_at = 300, challenge_consumed_at = None\<rparr>]\<rparr>"

lemma demo_accepted: "check_payload demo_pi demo_payload (play_policy demo_ax [9] ([5], [6])) = Inr True"
  by (simp add: check_payload_def verdict_validate_def demo_payload_def play_policy_def demo_ax_def demo_config_def
      demo_pi_def b64url_def trim_def is_space_def token_digests_def app_recognition_def licensing_def device_verdicts_def
      known_verdict_def KNOWN_APP_RECOGNITION_def KNOWN_APP_LICENSING_def KNOWN_DEVICE_RECOGNITION_def Let_def
      List.map_filter_simps)

lemmas demo_auth_defs = demo_config_def demo_crypto_def demo_ax_def demo_headers_def demo_header_def demo_auth_tables_def

lemma demo_ax_simps:
  "ax_env demo_ax = quiet 0" "ax_config demo_ax = demo_config" "ax_pi demo_ax = demo_pi"
  "auth_enabled demo_config" "enforce_auth demo_config" "ax_google demo_ax = Some (\<lambda>_ _ _. Inr demo_payload)"
  "play_integrity_decryption_key demo_config = None" "signing_digests_of demo_config = Some ([5], [6])"
  "client_data_hash (ax_crypto demo_ax) ch i b = [9]" "proof_verify demo_ax ch i b pr" "detect_platform demo_headers = Some ''android''"
  by (simp_all add: demo_auth_defs signing_digests_of_def client_data_hash_def proof_verify_def detect_platform_def)

lemma demo_decodes:
  "decode_header_fixed 32 (ax_codecs demo_ax) demo_headers ''auth-clientid'' = Inr (replicate 32 4)"
  "decode_header_fixed 64 (ax_codecs demo_ax) demo_headers ''auth-clientproof'' = Inr (replicate 64 3)"
  "decode_header (ax_codecs demo_ax) demo_headers ''auth-challenge'' = Inr [7]"
  by (simp_all add: decode_header_fixed_def decode_header_def header_text_def demo_auth_defs try_array_def trim_def
      is_space_def ok_or_def map_error_def)

lemma demo_texts:
  "header_text demo_headers ''auth-android-package'' = Some ''c''" "header_text demo_headers ''auth-payload'' = Some ''t''"
  "header_text demo_headers ''auth-attestation-type'' = Some ''play-integrity''" "demo_headers ''auth-ios-package'' = None"
  "android_package_names demo_config = [''c'']"
  by (simp_all add: header_text_def demo_headers_def demo_header_def demo_config_def)

lemma demo_verdict: "store_verdict demo_ax demo_headers [7] (replicate 32 4) [] (w, c) = (Inr True, (next_step w, c))"
proof -
  have "play_integrity_verdict demo_ax demo_headers [7] (replicate 32 4) [] (w, c) = (Inr (Inr True), (next_step w, c))"
    unfolding play_integrity_verdict_def Let_def
    by (simp add: demo_ax_simps demo_accepted demo_texts bindE_def attempt_def on_first_def remote_def ret_def map_error_def)
  then show ?thesis
    by (simp add: store_verdict_def attestation_verdict_def demo_ax_simps bindE_def ret_def demo_texts)
qed

lemma demo_issues:
  "\<exists>token refresh w' c'. token_issue demo_ax demo_headers [] (\<lparr>w_db = demo_auth_tables, w_step = 0\<rparr>, None) =
     (Inr (token, refresh), (w', c'))"
  unfolding token_issue_def Let_def
  by (simp add: bindE_def lift_result_def demo_decodes demo_ax_simps db_def sql_def challenge_consume_def challenge_live_def
      demo_auth_tables_def on_first_def map_err_def demo_verdict issue_access_def unix_now_def now_utc_def remote_def ret_def
      refresh_mint_def random_token_def draw_def insert_refresh_def empty_tables_def)


section \<open>The key table only holds attested keys\<close>

abbreviation on_auth_db :: "(tables \<Rightarrow> bool) \<Rightarrow> tables crl_state \<Rightarrow> bool" where
  "on_auth_db J \<equiv> \<lambda>s. J (w_db (fst s))"

lemma keeps_db [prog_intro]:
  assumes "stable (ax_env ax) J" "\<And>now t. J t \<Longrightarrow> J (snd (st now t))"
  shows "keeps (on_auth_db J) (db ax st)"
  unfolding db_def using assms by (intro keeps_on_first valid_map_err keeps_sql) auto

lemma keeps_unix_now [prog_intro]: "keeps (on_db J) (unix_now ax)"
  unfolding unix_now_def by (intro prog_intro)

lemma consume_keeps_keys: "keys_attested ax (snd (challenge_consume ch now t)) = keys_attested ax t"
  by (simp add: challenge_consume_def keys_attested_def)

lemma upsert_keeps_keys:
  assumes "verify_attestation (ax_crypto ax) (ax_cbor ax) attestation challenge kid
      (apple_app_attest_app_ids (ax_config ax)) (ax_apple_root ax) now = Inr k" "keys_attested ax t"
  shows "keys_attested ax (snd (app_attest_upsert kid (ak_public_key k) (ak_receipt k) client at t))"
proof -
  have "attested ax kid (ak_public_key k)"
    unfolding attested_def using assms(1) by (intro exI [of _ attestation] exI [of _ challenge] exI [of _ now] exI [of _ "ak_receipt k"]) simp
  then show ?thesis using assms(2) by (auto simp: keys_attested_def app_attest_upsert_def Let_def split: option.splits)
qed



section \<open>A challenge is consumed once\<close>

definition spent :: "bytes \<Rightarrow> tables \<Rightarrow> bool" where
  "spent ch t = (case auth_challenges t ch of None \<Rightarrow> False | Some r \<Rightarrow> challenge_consumed_at r \<noteq> None)"

interpretation challenges: single_use challenge_consume spent
  by unfold_locales
     (auto simp: challenge_consume_def challenge_live_def spent_def split: if_splits option.splits)

text \<open>A challenge is single-use: in every history of consumption attempts, interleaved with anything that does
  not reset a consumed row, no challenge is accepted twice, a challenge already consumed is never accepted, and every
  accepted challenge stays consumed.\<close>

theorem challenge_single_use:
  assumes "use_run challenge_consume spent t evs t'"
  shows "distinct evs \<and> (\<forall>ch. spent ch t \<longrightarrow> ch \<notin> set evs \<and> spent ch t') \<and> (\<forall>ch \<in> set evs. spent ch t')"
  using assms by (rule challenges.used_once)

theorem challenge_single_use_witness:
  "use_run challenge_consume spent demo_auth_tables [[7]] (snd (challenge_consume [7] 0 demo_auth_tables)) \<and>
   spent [7] (snd (challenge_consume [7] 0 demo_auth_tables))"
proof -
  have "challenge_consume [7] 0 demo_auth_tables = (True, snd (challenge_consume [7] 0 demo_auth_tables))"
    by (simp add: challenge_consume_def challenge_live_def demo_auth_tables_def)
  then have "use_run challenge_consume spent demo_auth_tables ([] @ [[7]]) (snd (challenge_consume [7] 0 demo_auth_tables))"
    by (rule use_run.consumed [OF use_run.start])
  with challenge_single_use [OF this] show ?thesis by simp
qed

end
