(* ===== verification/People.thy ===== *)
theory People
  imports Std "HOL-Library.List_Lexorder" "HOL-Library.Char_ord"
begin

text \<open>
  Reads of the People chain (\<open>chain-client/src/storage.rs\<close>, \<open>chain/people.rs\<close>): the batched storage
  read with its checks on the node's answer, and the state of a base username read through it. The
  RPC node, the storage keys of an entry, SCALE decoding and the runtime's constants are parameters
  (\<open>people_rpc\<close>); the node may answer anything. Shown here: a batch is accepted exactly when the node
  answered every requested key once, for the requested block, and nothing else; and the state of a
  base name is what those answers say.
\<close>

section \<open>Batched storage reads\<close>

datatype batch_read_error =
  Rpc string | ChangeSetCount nat | BlockMismatch string string | UnknownKey | DuplicateKey | MissingKeys nat
| UndecodableValue | ValueCount nat nat

fun batch_read_error_str :: "batch_read_error \<Rightarrow> string" where
  "batch_read_error_str (Rpc _) = ''batched storage read failed''"
| "batch_read_error_str (ChangeSetCount n) = ''expected one storage change set for one block, got '' @ nat_to_string n"
| "batch_read_error_str (BlockMismatch want got) = ''storage answered for block '' @ got @ '', not the requested '' @ want"
| "batch_read_error_str UnknownKey = ''storage answered with a key that was not requested''"
| "batch_read_error_str DuplicateKey = ''storage answered twice for the same key''"
| "batch_read_error_str (MissingKeys n) = ''storage left '' @ nat_to_string n @ '' of the requested keys unanswered''"
| "batch_read_error_str UndecodableValue = ''storage answered with a value that is not an AccountId32''"
| "batch_read_error_str (ValueCount names vals) =
     ''storage answered with '' @ nat_to_string vals @ '' values for '' @ nat_to_string names @ '' names''"

record change_set =
  cs_block :: bytes
  cs_changes :: "(bytes \<times> bytes option) list"

definition key_index :: "bytes list \<Rightarrow> bytes \<Rightarrow> nat option" where
  "key_index keys = map_of (rev (zip keys [0..<length keys]))"

definition apply_change ::
  "bytes list \<Rightarrow> bool list \<times> bytes option list \<Rightarrow> bytes \<times> bytes option \<Rightarrow> batch_read_error + (bool list \<times> bytes option list)" where
  "apply_change keys st change =
     (case (st, change) of ((answered, values), (key, value)) \<Rightarrow>
        case key_index keys key of
          None \<Rightarrow> Inl UnknownKey
        | Some i \<Rightarrow> if answered ! i then Inl DuplicateKey else Inr (answered[i := True], values[i := value]))"

text \<open>\<open>fmt\<close> is \<open>{:?}\<close> of a block hash.\<close>

definition values_from_changes ::
  "(bytes \<Rightarrow> string) \<Rightarrow> bytes list \<Rightarrow> bytes \<Rightarrow> change_set list \<Rightarrow> batch_read_error + bytes option list" where
  "values_from_changes fmt keys want changes =
     (case changes of
        [s] \<Rightarrow>
          if cs_block s \<noteq> want then Inl (BlockMismatch (fmt want) (fmt (cs_block s))) else
          and_then (fold_result (apply_change keys) (replicate (length keys) False, replicate (length keys) None) (cs_changes s))
            (\<lambda>(answered, values).
             let unanswered = length (filter Not answered)
             in if unanswered > 0 then Inl (MissingKeys unanswered) else Inr values)
      | _ \<Rightarrow> Inl (ChangeSetCount (length changes)))"

definition present_of :: "bytes option list \<Rightarrow> nat set" where
  "present_of values = {i. i < length values \<and> values ! i \<noteq> None}"

definition decode_owner :: "bytes \<Rightarrow> batch_read_error + account" where
  "decode_owner bs = ok_or UndecodableValue (try_array 32 bs)"

fun owners_from :: "string list \<Rightarrow> bytes option list \<Rightarrow> (string \<rightharpoonup> account) \<Rightarrow> batch_read_error + (string \<rightharpoonup> account)" where
  "owners_from (n # ns) (v # vs) owners =
     (case v of
        None \<Rightarrow> owners_from ns vs owners
      | Some bs \<Rightarrow> and_then (decode_owner bs) (\<lambda>a. owners_from ns vs (owners(n \<mapsto> a))))"
| "owners_from _ _ owners = Inr owners"

definition owners_by_name :: "string list \<Rightarrow> bytes option list \<Rightarrow> batch_read_error + (string \<rightharpoonup> account)" where
  "owners_by_name names values =
     (if length names \<noteq> length values then Inl (ValueCount (length names) (length values))
      else owners_from names values Map.empty)"

section \<open>What an accepted batch is\<close>

lemma key_index_Some: "key_index keys k = Some i \<Longrightarrow> i < length keys \<and> keys ! i = k"
  by (auto simp: key_index_def set_zip dest!: map_of_SomeD)

lemma key_index_distinct:
  assumes "distinct keys"
  shows "key_index keys k = Some i \<longleftrightarrow> i < length keys \<and> keys ! i = k"
proof -
  have "distinct (map fst (rev (zip keys [0..<length keys])))" using assms by (simp add: rev_map [symmetric])
  then show ?thesis unfolding key_index_def by (subst map_of_eq_Some_iff) (auto simp: set_zip)
qed

lemma update_map_key:
  assumes "distinct keys" "i < length keys"
  shows "(map g keys)[i := x] = map (g(keys ! i := x)) keys"
  using assms by (auto intro!: nth_equalityI simp: nth_list_update nth_eq_iff_index_eq)

lemma apply_change_keyed:
  assumes "distinct keys"
  shows "apply_change keys (map (\<lambda>k. k \<in> A) keys, map f keys) (key, val) = Inr r \<longleftrightarrow>
    key \<in> set keys \<and> key \<notin> A \<and> r = (map (\<lambda>k. k \<in> insert key A) keys, map (f(key := val)) keys)"
proof (cases "key_index keys key")
  case None
  then have "key \<notin> set keys" using key_index_distinct [OF assms, of key] by (auto simp: in_set_conv_nth)
  with None show ?thesis by (simp add: apply_change_def)
next
  case (Some i)
  with key_index_distinct [OF assms] have i: "i < length keys" "keys ! i = key" by auto
  have "(map (\<lambda>k. k \<in> A) keys)[i := True] = map (\<lambda>k. k \<in> insert key A) keys"
    using update_map_key [OF assms i(1), of "\<lambda>k. k \<in> A" True] i by (auto simp: fun_upd_def intro: map_cong)
  moreover have "(map f keys)[i := val] = map (f(key := val)) keys"
    using update_map_key [OF assms i(1), of f val] i by simp
  ultimately show ?thesis using Some i by (auto simp: apply_change_def)
qed

lemma fold_changes_keyed:
  assumes "distinct keys"
  shows "fold_result (apply_change keys) (map (\<lambda>k. k \<in> A) keys, map f keys) cs = Inr r \<longleftrightarrow>
    distinct (map fst cs) \<and> fst ` set cs \<subseteq> set keys - A \<and>
    r = (map (\<lambda>k. k \<in> A \<union> fst ` set cs) keys, map (\<lambda>k. case map_of cs k of Some x \<Rightarrow> x | None \<Rightarrow> f k) keys)"
proof (induction cs arbitrary: A f)
  case (Cons c cs)
  obtain key val where c: "c = (key, val)" by (cases c)
  have step: "fold_result (apply_change keys) (map (\<lambda>k. k \<in> A) keys, map f keys) (c # cs) = Inr r \<longleftrightarrow>
      key \<in> set keys \<and> key \<notin> A \<and>
      fold_result (apply_change keys) (map (\<lambda>k. k \<in> insert key A) keys, map (f(key := val)) keys) cs = Inr r"
    by (auto simp: c apply_change_keyed [OF assms] simp del: insert_iff)
  have look: "map (\<lambda>k. case map_of cs k of Some x \<Rightarrow> x | None \<Rightarrow> (f(key := val)) k) keys =
      map (\<lambda>k. case map_of (c # cs) k of Some x \<Rightarrow> x | None \<Rightarrow> f k) keys" if "key \<notin> fst ` set cs"
    using that by (intro map_cong) (auto simp: c map_of_eq_None_iff [symmetric] split: option.splits)
  show ?case
  proof (cases "key \<in> fst ` set cs")
    case True
    then show ?thesis unfolding step Cons.IH by (auto simp: c)
  next
    case False
    show ?thesis unfolding step Cons.IH look [OF False] using False by (auto simp: c)
  qed
qed auto

lemma apply_change_Inr:
  "apply_change keys (a, v) c = Inr st \<longleftrightarrow>
     (\<exists>j. key_index keys (fst c) = Some j \<and> \<not> a ! j \<and> st = (a[j := True], v[j := snd c]))"
  by (auto simp: apply_change_def split: prod.splits option.splits)

lemma answered_unique:
  assumes "fold_result (apply_change keys) (a, v) cs = Inr (a', v')" "a' ! i" "\<not> a ! i" "i < length a"
  shows "key_index keys (keys ! i) = Some i"
  using assms
proof (induction cs arbitrary: a v)
  case (Cons c cs)
  then obtain j where j: "key_index keys (fst c) = Some j"
    "fold_result (apply_change keys) (a[j := True], v[j := snd c]) cs = Inr (a', v')"
    by (auto simp: apply_change_Inr)
  show ?case
  proof (cases "i = j")
    case True
    then show ?thesis using j(1) key_index_Some [OF j(1)] by simp
  next
    case False
    then show ?thesis using Cons.IH [OF j(2)] Cons.prems by simp
  qed
qed auto

lemma unanswered_none: "\<not> 0 < length (filter Not bs) \<longleftrightarrow> list_all (\<lambda>b. b) bs"
  by (induction bs) auto

lemma batch_answers_all:
  "values_from_changes fmt keys want changes = Inr values \<longleftrightarrow>
     distinct keys \<and> (\<exists>s. changes = [s] \<and> cs_block s = want \<and>
       distinct (map fst (cs_changes s)) \<and> fst ` set (cs_changes s) = set keys \<and>
       values = map (\<lambda>k. the (map_of (cs_changes s) k)) keys)"
proof (cases "\<exists>s. changes = [s] \<and> cs_block s = want")
  case False
  then show ?thesis by (auto simp: values_from_changes_def split: list.splits)
next
  case True
  then obtain s where s: "changes = [s]" "cs_block s = want" by blast
  let ?run = "fold_result (apply_change keys) (replicate (length keys) False, replicate (length keys) None) (cs_changes s)"
  have eq: "values_from_changes fmt keys want changes = Inr values \<longleftrightarrow> (\<exists>a. ?run = Inr (a, values) \<and> list_all (\<lambda>b. b) a)"
    using s unanswered_none by (auto simp: values_from_changes_def Let_def simp del: length_greater_0_conv)
  show ?thesis
  proof (cases "distinct keys")
    case True
    have "?run = Inr (a, values) \<longleftrightarrow> distinct (map fst (cs_changes s)) \<and> fst ` set (cs_changes s) \<subseteq> set keys \<and>
        a = map (\<lambda>k. k \<in> fst ` set (cs_changes s)) keys \<and>
        values = map (\<lambda>k. case map_of (cs_changes s) k of Some x \<Rightarrow> x | None \<Rightarrow> None) keys" for a
      using fold_changes_keyed [OF True, of "{}" "\<lambda>_. None" "cs_changes s" "(a, values)"]
      by (simp add: map_replicate_const)
    moreover have "(case map_of (cs_changes s) k of Some x \<Rightarrow> x | None \<Rightarrow> None) = the (map_of (cs_changes s) k)"
      if "k \<in> fst ` set (cs_changes s)" for k
      using that by (auto simp: map_of_eq_None_iff split: option.splits)
    ultimately show ?thesis unfolding eq using s True by (auto simp: list_all_iff subset_iff intro!: map_cong)
  next
    case False
    have "\<not> list_all (\<lambda>b. b) a" if run: "?run = Inr (a, values)" for a
    proof
      assume all: "list_all (\<lambda>b. b) a"
      have len: "length a' = length a0" if "fold_result (apply_change keys) (a0, v0) cs = Inr (a', v')" for a0 v0 cs a' v'
        using that by (induction cs arbitrary: a0 v0) (auto simp: apply_change_Inr)
      have "key_index keys (keys ! i) = Some i" if "i < length keys" for i
        using answered_unique [OF run, of i] all len [OF run] that by (simp add: list_all_length)
      then have "distinct keys" unfolding distinct_conv_nth by (metis option.inject)
      with False show False ..
    qed
    with False show ?thesis unfolding eq by blast
  qed
qed

section \<open>The state of a name\<close>

record reservation_state =
  rs_full_name_owned :: bool
  rs_queue_len :: nat
  rs_queue_capacity :: nat

definition queue_full :: "reservation_state \<Rightarrow> bool" where
  "queue_full r \<longleftrightarrow> rs_queue_len r \<ge> rs_queue_capacity r"

definition rejects :: "reservation_state \<Rightarrow> bool" where
  "rejects r \<longleftrightarrow> rs_full_name_owned r \<or> queue_full r"

record base_state =
  taken :: "nat set"
  bs_full_name_owned :: bool
  bs_queue_len :: nat
  bs_queue_capacity :: nat

definition reservation_of :: "base_state \<Rightarrow> reservation_state" where
  "reservation_of b = \<lparr>rs_full_name_owned = bs_full_name_owned b, rs_queue_len = bs_queue_len b,
     rs_queue_capacity = bs_queue_capacity b\<rparr>"

definition rejects_reservations :: "base_state \<Rightarrow> bool" where
  "rejects_reservations b \<longleftrightarrow> rejects (reservation_of b)"

section \<open>The client\<close>

record people_rpc =
  pc_block :: "nat \<Rightarrow> string + bytes"
  pc_owner_key :: "string \<Rightarrow> string + bytes"
  pc_queue_key :: "string \<Rightarrow> string + bytes"
  pc_query :: "nat \<Rightarrow> bytes list \<Rightarrow> bytes \<Rightarrow> string + change_set list"
  pc_fmt :: "bytes \<Rightarrow> string"
  pc_compact_u32 :: "bytes \<Rightarrow> nat option"
  pc_capacity :: "bytes \<Rightarrow> string + nat"
  pc_constants :: "bytes \<Rightarrow> string \<Rightarrow> string \<Rightarrow> bytes option"
  pc_fetch_owner :: "nat \<Rightarrow> bytes \<Rightarrow> string \<Rightarrow> string + (string + account) option"
  pc_fetch_balance :: "nat \<Rightarrow> bytes \<Rightarrow> account \<Rightarrow> string + (string + u128) option"
  pc_fetch_allowance :: "nat \<Rightarrow> bytes \<Rightarrow> account \<Rightarrow> string + (string + u32) option"

type_synonym ('tb, 'a) people_prog = "('tb world, string, 'a) prog"

definition at_current_block :: "people_rpc \<Rightarrow> ('tb, bytes) people_prog" where
  "at_current_block pc = remote (pc_block pc)"

definition fetch_many :: "people_rpc \<Rightarrow> bytes list \<Rightarrow> bytes \<Rightarrow> ('tb world, batch_read_error, bytes option list) prog" where
  "fetch_many pc keys at =
     bindE (remote (\<lambda>n. map_error Rpc (pc_query pc n keys at))) (\<lambda>changes.
     lift_result (values_from_changes (pc_fmt pc) keys at changes))"

definition decode_queue_len :: "people_rpc \<Rightarrow> bytes \<Rightarrow> string + nat" where
  "decode_queue_len pc bs = ok_or ''decoding Resources::UsernameReservationQueue length'' (pc_compact_u32 pc bs)"

definition queue_len_of :: "people_rpc \<Rightarrow> bytes option \<Rightarrow> string + nat" where
  "queue_len_of pc q = (case q of Some bs \<Rightarrow> decode_queue_len pc bs | None \<Rightarrow> Inr 0)"

definition queue_capacity_at :: "people_rpc \<Rightarrow> bytes \<Rightarrow> string + nat" where
  "queue_capacity_at pc at = map_error (\<lambda>_. ''reading Resources::MaxReservationQueueLength'') (pc_capacity pc at)"

fun collect_result :: "('e + 'a) list \<Rightarrow> 'e + 'a list" where
  "collect_result [] = Inr []"
| "collect_result (r # rs) = and_then r (\<lambda>a. and_then (collect_result rs) (\<lambda>as. Inr (a # as)))"

definition DISCRIMINATORS :: nat where
  "DISCRIMINATORS = 100"

definition base_keys :: "people_rpc \<Rightarrow> string \<Rightarrow> string + bytes list" where
  "base_keys pc base =
     and_then (collect_result (map (\<lambda>d. pc_owner_key pc (base @ ''.'' @ two_digits d)) [0..<DISCRIMINATORS])) (\<lambda>ks.
     and_then (pc_owner_key pc base) (\<lambda>full.
     and_then (pc_queue_key pc base) (\<lambda>queue. Inr (ks @ [full, queue]))))"

definition base_state_at :: "people_rpc \<Rightarrow> string \<Rightarrow> bytes \<Rightarrow> ('tb, base_state) people_prog" where
  "base_state_at pc base at =
     bindE (lift_result (base_keys pc base)) (\<lambda>keys.
     bindE (map_err (\<lambda>_. ''reading username owners'') (fetch_many pc keys at)) (\<lambda>vals.
     if length vals < 2 then throw ''batched base-state read returned too few values'' else
     let n = length vals - 2 in
     bindE (lift_result (queue_len_of pc (vals ! Suc n))) (\<lambda>len.
     bindE (lift_result (queue_capacity_at pc at)) (\<lambda>cap.
     ret \<lparr>taken = present_of (take n vals), bs_full_name_owned = vals ! n \<noteq> None,
          bs_queue_len = len, bs_queue_capacity = cap\<rparr>))))"

definition base_state_now :: "people_rpc \<Rightarrow> string \<Rightarrow> ('tb, base_state) people_prog" where
  "base_state_now pc base = bindE (at_current_block pc) (base_state_at pc base)"

definition name_reservation_state :: "people_rpc \<Rightarrow> string \<Rightarrow> ('tb, reservation_state) people_prog" where
  "name_reservation_state pc name =
     bindE (at_current_block pc) (\<lambda>at.
     bindE (lift_result (pc_owner_key pc name)) (\<lambda>full.
     bindE (lift_result (pc_queue_key pc name)) (\<lambda>queue.
     bindE (map_err (\<lambda>_. ''reading username reservation state'') (fetch_many pc [full, queue] at)) (\<lambda>vals.
     case vals of
       [fv, qv] \<Rightarrow>
         bindE (lift_result (queue_len_of pc qv)) (\<lambda>len.
         bindE (lift_result (queue_capacity_at pc at)) (\<lambda>cap.
         ret \<lparr>rs_full_name_owned = fv \<noteq> None, rs_queue_len = len, rs_queue_capacity = cap\<rparr>))
     | _ \<Rightarrow> throw ''batched reservation-state read returned too few values''))))"

definition unique_names :: "string list \<Rightarrow> string list" where
  "unique_names names = sort (remdups names)"

definition owners_read ::
  "(nat \<Rightarrow> string + bytes) \<Rightarrow> (string \<Rightarrow> string + bytes) \<Rightarrow> (bytes list \<Rightarrow> bytes \<Rightarrow> ('tb world, batch_read_error, bytes option list) prog) \<Rightarrow>
   string \<Rightarrow> string list \<Rightarrow> ('tb, string \<rightharpoonup> account) people_prog" where
  "owners_read block key_of fetch ctx names =
     (if names = [] then ret Map.empty else
      bindE (remote block) (\<lambda>at.
      bindE (lift_result (collect_result (map key_of (unique_names names)))) (\<lambda>keys.
      bindE (map_err (\<lambda>_. ctx) (fetch keys at)) (\<lambda>vals.
      lift_result (map_error batch_read_error_str (owners_by_name (unique_names names) vals))))))"

definition username_owners :: "people_rpc \<Rightarrow> string list \<Rightarrow> ('tb, string \<rightharpoonup> account) people_prog" where
  "username_owners pc = owners_read (pc_block pc) (pc_owner_key pc) (fetch_many pc) ''reading username owners''"

text \<open>One storage value, decoded, or a default when there is none.\<close>

definition read_or ::
  "(nat \<Rightarrow> string + bytes) \<Rightarrow> (nat \<Rightarrow> bytes \<Rightarrow> 'k \<Rightarrow> string + (string + 'v) option) \<Rightarrow> ('v \<Rightarrow> 'a) \<Rightarrow> 'a \<Rightarrow> 'k \<Rightarrow> ('tb, 'a) people_prog" where
  "read_or block fetch f absent k =
     bindE (remote block) (\<lambda>at.
     bindE (remote (\<lambda>n. fetch n at k)) (\<lambda>v.
     case v of
       Some d \<Rightarrow> bindE (lift_result d) (\<lambda>a. ret (f a))
     | None \<Rightarrow> ret absent))"

definition username_owner :: "people_rpc \<Rightarrow> string \<Rightarrow> ('tb, account option) people_prog" where
  "username_owner pc = read_or (pc_block pc) (pc_fetch_owner pc) Some None"

definition free_balance :: "people_rpc \<Rightarrow> account \<Rightarrow> ('tb, u128) people_prog" where
  "free_balance pc = read_or (pc_block pc) (pc_fetch_balance pc) (\<lambda>b. b) 0"

definition attestation_allowance :: "people_rpc \<Rightarrow> account \<Rightarrow> ('tb, u32) people_prog" where
  "attestation_allowance pc = read_or (pc_block pc) (pc_fetch_allowance pc) (\<lambda>a. a) 0"

definition chain_health :: "people_rpc \<Rightarrow> ('tb, unit) people_prog" where
  "chain_health pc =
     bindE (map_err (\<lambda>_. ''People Chain unreachable'') (at_current_block pc)) (\<lambda>at.
     bindE (lift_result (pc_owner_key pc ''readyz-probe.00'')) (\<lambda>key.
     bindE (map_err (\<lambda>_. ''People Chain does not serve state_queryStorageAt'') (remote (\<lambda>n. pc_query pc n [key] at))) (\<lambda>_.
     ret ())))"

section \<open>Asset Hub\<close>

record asset_rpc =
  ah_block :: "nat \<Rightarrow> string + bytes"
  ah_label_key :: "string \<Rightarrow> string + bytes"
  ah_query :: "nat \<Rightarrow> bytes list \<Rightarrow> bytes \<Rightarrow> string + change_set list"
  ah_fmt :: "bytes \<Rightarrow> string"
  ah_fetch_owner :: "nat \<Rightarrow> bytes \<Rightarrow> string \<Rightarrow> string + (string + account) option"
  ah_fetch_allowance :: "nat \<Rightarrow> bytes \<Rightarrow> account \<Rightarrow> string + (string + u32) option"
  ah_constant :: "bytes \<Rightarrow> string \<Rightarrow> string + u64"

definition asset_fetch_many :: "asset_rpc \<Rightarrow> bytes list \<Rightarrow> bytes \<Rightarrow> ('tb world, batch_read_error, bytes option list) prog" where
  "asset_fetch_many ah keys at =
     bindE (remote (\<lambda>n. map_error Rpc (ah_query ah n keys at))) (\<lambda>changes.
     lift_result (values_from_changes (ah_fmt ah) keys at changes))"

definition lite_label_owners :: "asset_rpc \<Rightarrow> string list \<Rightarrow> ('tb, string \<rightharpoonup> account) people_prog" where
  "lite_label_owners ah = owners_read (ah_block ah) (ah_label_key ah) (asset_fetch_many ah) ''reading dotNS lite label owners''"

definition lite_label_owner :: "asset_rpc \<Rightarrow> string \<Rightarrow> ('tb, account option) people_prog" where
  "lite_label_owner ah = read_or (ah_block ah) (ah_fetch_owner ah) Some None"

definition asset_hub_allowance :: "asset_rpc \<Rightarrow> account \<Rightarrow> ('tb, u32) people_prog" where
  "asset_hub_allowance ah = read_or (ah_block ah) (ah_fetch_allowance ah) (\<lambda>a. a) 0"

record validity_window =
  max_validity_secs :: u64
  max_future_skew_secs :: u64

definition read_validity_window :: "asset_rpc \<Rightarrow> ('tb, validity_window) people_prog" where
  "read_validity_window ah =
     bindE (remote (ah_block ah)) (\<lambda>at.
     bindE (lift_result (map_error (\<lambda>_. ''reading DotnsGateway::MaxValiditySeconds'') (ah_constant ah at ''MaxValiditySeconds''))) (\<lambda>v.
     bindE (lift_result (map_error (\<lambda>_. ''reading DotnsGateway::MaxFutureSkewSeconds'') (ah_constant ah at ''MaxFutureSkewSeconds''))) (\<lambda>s.
     ret \<lparr>max_validity_secs = v, max_future_skew_secs = s\<rparr>)))"

section \<open>The shape of a call\<close>

record call_field =
  cf_name :: "string option"
  cf_ty :: nat

fun join_with :: "string \<Rightarrow> string list \<Rightarrow> string" where
  "join_with sep [] = []"
| "join_with sep [x] = x"
| "join_with sep (x # xs) = x @ sep @ join_with sep xs"

definition field_names :: "call_field list \<Rightarrow> string" where
  "field_names fs = join_with '', '' (map (\<lambda>f. case cf_name f of Some n \<Rightarrow> n | None \<Rightarrow> ''<unnamed>'') fs)"

text \<open>\<open>Ok\<close>, or the expected and the found argument names.\<close>

definition check_pallet_call_args :: "call_field list \<Rightarrow> call_field list \<Rightarrow> (string \<times> string) + unit" where
  "check_pallet_call_args want found =
     (if length found = length want \<and>
         list_all (\<lambda>(f, e). cf_ty f = cf_ty e \<and> cf_name f = cf_name e) (zip found want)
      then Inr () else Inl (field_names want, field_names found))"

section \<open>What the reads return\<close>

lemma fetch_many_Inr:
  "fetch_many pc keys at w = (Inr vals, w') \<longleftrightarrow>
     w' = w\<lparr>w_step := Suc (w_step w)\<rparr> \<and> distinct keys \<and>
     (\<exists>s. pc_query pc (w_step w) keys at = Inr [s] \<and> cs_block s = at \<and> distinct (map fst (cs_changes s)) \<and>
        fst ` set (cs_changes s) = set keys \<and> vals = map (\<lambda>k. the (map_of (cs_changes s) k)) keys)"
  by (auto simp: fetch_many_def inr_iffs batch_answers_all)

lemma collect_result_Inr: "collect_result rs = Inr as \<longleftrightarrow> rs = map Inr as"
proof (induction rs arbitrary: as)
  case (Cons r rs)
  then show ?case by (cases as) auto
qed auto

lemma present_of_map: "present_of (map f ks) = {i. i < length ks \<and> f (ks ! i) \<noteq> None}"
  by (auto simp: present_of_def)

text \<open>C20: The state of a base username is exactly what one well-formed answer of the node says. If the read succeeds,
  the node was asked at the given block for the hundred discriminated names, the bare name and its reservation queue; it
  answered in one change set, for that block, every key once and no other key; a discriminator is taken just when the
  answer holds an owner for that name, the full name is owned just when it holds one for the bare name, and the queue
  length is the decoded length, or zero when there is no queue. A partial, padded, repeated or misplaced answer is an
  error, never a free name.\<close>

theorem base_state_exact:
  assumes "base_state_at pc base at w = (Inr b, w')"
  shows "\<exists>ks full queue s. (\<forall>d < 100. pc_owner_key pc (base @ ''.'' @ two_digits d) = Inr (ks ! d)) \<and>
     length ks = 100 \<and> pc_owner_key pc base = Inr full \<and> pc_queue_key pc base = Inr queue \<and>
     pc_query pc (w_step w) (ks @ [full, queue]) at = Inr [s] \<and> cs_block s = at \<and>
     distinct (map fst (cs_changes s)) \<and> fst ` set (cs_changes s) = set (ks @ [full, queue]) \<and>
     taken b = {d. d < 100 \<and> (\<exists>owner. map_of (cs_changes s) (ks ! d) = Some (Some owner))} \<and>
     bs_full_name_owned b = (\<exists>owner. map_of (cs_changes s) full = Some (Some owner)) \<and>
     (case the (map_of (cs_changes s) queue) of
        None \<Rightarrow> bs_queue_len b = 0 | Some bs \<Rightarrow> pc_compact_u32 pc bs = Some (bs_queue_len b)) \<and>
     pc_capacity pc at = Inr (bs_queue_capacity b)"
proof -
  from assms obtain keys vals len cap where
    keys: "base_keys pc base = Inr keys"
    and vals: "fetch_many pc keys at w = (Inr vals, w')" and "\<not> length vals < 2"
    and q: "queue_len_of pc (vals ! Suc (length vals - 2)) = Inr len" "queue_capacity_at pc at = Inr cap"
    and b: "b = \<lparr>taken = present_of (take (length vals - 2) vals), bs_full_name_owned = vals ! (length vals - 2) \<noteq> None,
          bs_queue_len = len, bs_queue_capacity = cap\<rparr>"
    unfolding base_state_at_def by (auto simp: inr_iffs Let_def split: if_splits)
  from keys obtain ks full queue where
    ks: "map (\<lambda>d. pc_owner_key pc (base @ ''.'' @ two_digits d)) [0..<DISCRIMINATORS] = map Inr ks"
    and full: "pc_owner_key pc base = Inr full" "pc_queue_key pc base = Inr queue" "keys = ks @ [full, queue]"
    by (auto simp: base_keys_def collect_result_Inr)
  have len: "length ks = 100" using arg_cong [OF ks, of length] by (simp add: DISCRIMINATORS_def)
  have owner: "pc_owner_key pc (base @ ''.'' @ two_digits d) = Inr (ks ! d)" if "d < 100" for d
  proof -
    have "d < DISCRIMINATORS" using that by (simp add: DISCRIMINATORS_def)
    then show ?thesis using arg_cong [OF ks, of "\<lambda>xs. xs ! d"] that len by simp
  qed
  from vals obtain s where s: "pc_query pc (w_step w) keys at = Inr [s]" "cs_block s = at"
    "distinct (map fst (cs_changes s))" "fst ` set (cs_changes s) = set keys" "vals = map (\<lambda>k. the (map_of (cs_changes s) k)) keys"
    by (auto simp: fetch_many_Inr)
  have answered: "the (map_of (cs_changes s) k) \<noteq> None \<longleftrightarrow> (\<exists>owner. map_of (cs_changes s) k = Some (Some owner))"
    if "k \<in> set keys" for k
    using that s(4) by (cases "map_of (cs_changes s) k") (auto simp: map_of_eq_None_iff)
  have nth: "vals ! (length vals - 2) = the (map_of (cs_changes s) full)" "vals ! Suc (length vals - 2) = the (map_of (cs_changes s) queue)"
      "take (length vals - 2) vals = map (\<lambda>k. the (map_of (cs_changes s) k)) ks"
    using s(5) full(3) len by (simp_all add: nth_append)
  have "taken b = {d. d < 100 \<and> (\<exists>owner. map_of (cs_changes s) (ks ! d) = Some (Some owner))}"
    using answered [of "ks ! _"] full(3) len by (simp add: b nth present_of_map del: not_None_eq cong: conj_cong)
  moreover have "bs_full_name_owned b = (\<exists>owner. map_of (cs_changes s) full = Some (Some owner))"
    using answered [of full] full(3) by (simp add: b nth)
  moreover have "case the (map_of (cs_changes s) queue) of
        None \<Rightarrow> bs_queue_len b = 0 | Some bs \<Rightarrow> pc_compact_u32 pc bs = Some (bs_queue_len b)"
    using q(1) by (auto simp: b nth queue_len_of_def decode_queue_len_def split: option.splits)
  moreover have "pc_capacity pc at = Inr (bs_queue_capacity b)"
    using q(2) by (simp add: b queue_capacity_at_def)
  ultimately show ?thesis using owner len full s by blast
qed

text \<open>A node that reports nothing under any name.\<close>

definition demo_people :: people_rpc where
  "demo_people = \<lparr>pc_block = \<lambda>_. Inr [1], pc_owner_key = \<lambda>n. Inr (0 # as_bytes n), pc_queue_key = \<lambda>n. Inr (1 # as_bytes n),
     pc_query = \<lambda>_ keys at. Inr [\<lparr>cs_block = at, cs_changes = map (\<lambda>k. (k, None)) keys\<rparr>], pc_fmt = \<lambda>_. [],
     pc_compact_u32 = \<lambda>_. None, pc_capacity = \<lambda>_. Inr 8, pc_constants = \<lambda>_ _ _. None,
     pc_fetch_owner = \<lambda>_ _ _. Inr None, pc_fetch_balance = \<lambda>_ _ _. Inr None, pc_fetch_allowance = \<lambda>_ _ _. Inr None\<rparr>"

lemma demo_fetch:
  "distinct keys \<Longrightarrow> fetch_many demo_people keys at w = (Inr (map (\<lambda>_. None) keys), w\<lparr>w_step := Suc (w_step w)\<rparr>)"
  unfolding fetch_many_Inr
  by (auto simp: demo_people_def map_of_map_restrict comp_def image_image intro!: map_cong)

lemma demo_base_state:
  "base_state_at demo_people ''abcdef'' [1] w =
     (Inr \<lparr>taken = {}, bs_full_name_owned = False, bs_queue_len = 0, bs_queue_capacity = 8\<rparr>, w\<lparr>w_step := Suc (w_step w)\<rparr>)"
proof -
  let ?ks = "map (\<lambda>d. 0 # as_bytes (''abcdef'' @ ''.'' @ two_digits d)) [0..<DISCRIMINATORS]"
  let ?keys = "?ks @ [0 # as_bytes ''abcdef'', 1 # as_bytes ''abcdef'']"
  have keys: "base_keys demo_people ''abcdef'' = Inr ?keys"
    by (simp add: base_keys_def demo_people_def collect_result_Inr)
  have inj: "inj_on (\<lambda>d. (0::u8) # as_bytes (''abcdef'' @ ''.'' @ two_digits d)) {0..<DISCRIMINATORS}"
    by (rule inj_onI) (simp add: as_bytes_inj two_digits_inj DISCRIMINATORS_def)
  have "distinct ?keys" using inj by (auto simp: distinct_map as_bytes_inj length_two_digits DISCRIMINATORS_def)
  moreover have "length ?keys = Suc (Suc DISCRIMINATORS)" by simp
  ultimately obtain keys where k: "base_keys demo_people ''abcdef'' = Inr keys" "distinct keys" "length keys = Suc (Suc DISCRIMINATORS)"
    using keys by blast
  have cap: "queue_capacity_at demo_people [1] = Inr 8" by (simp add: queue_capacity_at_def demo_people_def map_error_def)
  show ?thesis unfolding base_state_at_def bindE_def lift_result_def k(1)
    by (simp add: demo_fetch [OF k(2)] k(3) cap map_err_def present_of_def queue_len_of_def ret_def Let_def)
qed

theorem base_state_exact_witness:
  "\<exists>b w'. base_state_at demo_people ''abcdef'' [1] \<lparr>w_db = (), w_step = 0\<rparr> = (Inr b, w') \<and> taken b = {} \<and>
     pc_capacity demo_people [1] = Inr (bs_queue_capacity b)"
  using base_state_exact [OF demo_base_state, of "\<lparr>w_db = (), w_step = 0\<rparr>"] demo_base_state by fastforce

end
