(* ===== verification/RateLimit.thy ===== *)
theory RateLimit
  imports Std
begin

text \<open>
  The keyed rate limiter (\<open>http-common/src/rate_limiter.rs\<close>): a quota kept by the governor library,
  a parameter that grants or names a waiting time, and in front of it a bank of credits that
  handlers give back for requests they could not serve. The bank is a cache, so an entry may
  disappear at any time. Shown here: a key never holds more credits than the burst, and never
  spends more credits than quota payments were refunded.
\<close>

datatype paid = Quota | Credit

type_synonym credits = "string \<rightharpoonup> nat"

definition spend_credit :: "string \<Rightarrow> credits \<Rightarrow> bool \<times> credits" where
  "spend_credit key c =
     (case c key of
        None \<Rightarrow> (False, c)
      | Some held \<Rightarrow> if held = 0 then (False, c) else (True, c(key \<mapsto> held - 1)))"

text \<open>\<open>answer\<close> is what the governor says to \<open>check_key\<close>, if it is asked: \<open>Inl\<close> the seconds to wait.\<close>

definition allow :: "nat + unit \<Rightarrow> string \<Rightarrow> credits \<Rightarrow> (nat + paid) \<times> credits" where
  "allow answer key c =
     (case spend_credit key c of
        (True, c') \<Rightarrow> (Inr Credit, c')
      | (False, c') \<Rightarrow> (case answer of Inr _ \<Rightarrow> Inr Quota | Inl wait \<Rightarrow> Inl wait, c'))"

definition refund :: "nat \<Rightarrow> string \<Rightarrow> paid \<Rightarrow> credits \<Rightarrow> credits" where
  "refund max_burst key p c =
     (if p \<noteq> Quota then c
      else let held = (case c key of Some n \<Rightarrow> n | None \<Rightarrow> 0)
           in c(key \<mapsto> if held < max_burst then held + 1 else held))"

section \<open>Credits are never minted\<close>

datatype limiter_event = Took string paid | Returned string paid

inductive limiter_run :: "nat \<Rightarrow> limiter_event list \<Rightarrow> credits \<Rightarrow> bool" for max_burst where
  start: "limiter_run max_burst [] Map.empty"
| took: "limiter_run max_burst evs c \<Longrightarrow> allow answer key c = (Inr p, c') \<Longrightarrow> limiter_run max_burst (evs @ [Took key p]) c'"
| denied: "limiter_run max_burst evs c \<Longrightarrow> allow answer key c = (Inl wait, c') \<Longrightarrow> limiter_run max_burst evs c'"
| returned: "limiter_run max_burst evs c \<Longrightarrow> limiter_run max_burst (evs @ [Returned key p]) (refund max_burst key p c)"
| evicted: "limiter_run max_burst evs c \<Longrightarrow> limiter_run max_burst evs (c(key := None))"

abbreviation held :: "string \<Rightarrow> credits \<Rightarrow> nat" where
  "held key c \<equiv> (case c key of Some n \<Rightarrow> n | None \<Rightarrow> 0)"

lemma allow_held:
  assumes "allow answer key c = (r, c')"
  shows "held j c' + (if r = Inr Credit \<and> j = key then 1 else 0) = held j c"
  using assms by (auto simp: allow_def spend_credit_def split: option.splits if_splits sum.splits)

lemma refund_held:
  "held j (refund b key p c) \<le> held j c + (if p = Quota \<and> j = key then 1 else 0)"
  "held j c \<le> b \<Longrightarrow> held j (refund b key p c) \<le> b"
  by (auto simp: refund_def Let_def split: option.splits)

lemma evicted_held: "held j (c(key := None)) \<le> held j c"
  by auto

text \<open>C24: Credits are conserved: in every history of requests, refusals, refunds and cache evictions, each key holds at
  most the burst, and the credits it has spent together with those it holds are at most the quota payments refunded to
  it, so that a refund never lets a client make more requests than its quota paid for.\<close>

theorem credits_conserved:
  assumes "limiter_run max_burst evs c"
  shows "held key c \<le> max_burst \<and>
    held key c + count_list evs (Took key Credit) \<le> count_list evs (Returned key Quota)"
  using assms
proof (induction rule: limiter_run.induct)
  case (took evs c answer k p c')
  then show ?case using allow_held [OF took.hyps(2), where j = key] by (auto split: if_splits)
next
  case (denied evs c answer k wait c')
  then show ?case using allow_held [OF denied.hyps(2), where j = key] by auto
next
  case (returned evs c k p)
  then show ?case using refund_held [where j = key and b = max_burst and key = k and p = p and c = c] by (auto split: if_splits)
next
  case (evicted evs c k)
  then show ?case using evicted_held [where j = key and c = c and key = k] by linarith
qed simp

theorem credits_conserved_witness:
  "\<exists>c. limiter_run 2 [Took ''a'' Quota, Returned ''a'' Quota, Took ''a'' Credit] c \<and> held ''a'' c = 0"
proof -
  have "limiter_run 2 ([] @ [Took ''a'' Quota]) Map.empty"
    by (rule limiter_run.took [OF limiter_run.start, of "Inr ()"]) (simp add: allow_def spend_credit_def)
  from limiter_run.took [OF limiter_run.returned [OF this, of "''a''" Quota], of "Inl 5" "''a''" Credit "[''a'' \<mapsto> 0]"]
  have run: "limiter_run 2 [Took ''a'' Quota, Returned ''a'' Quota, Took ''a'' Credit] [''a'' \<mapsto> 0]"
    by (simp add: allow_def spend_credit_def refund_def)
  with credits_conserved [OF run, of "''a''"] show ?thesis by auto
qed

end
