(* ===== verification/DeviceCheck.thy ===== *)
theory DeviceCheck
  imports Env
begin

text \<open>
  Apple DeviceCheck (\<open>device_check.rs\<close>, \<open>device_check/client.rs\<close>): the client with its cached team
  token and its bounded retries, the two bits of a device, and the decision of the claim route.
  Apple's endpoint, JWT encoding, JSON decoding and random bytes are parameters; the endpoint
  answers at each step as it likes. Sleeping between attempts only passes time. Shown here: a
  device counts as fresh only on an explicit answer of Apple that says so, and a call makes at most
  four attempts.
\<close>

section \<open>The client\<close>

datatype device_check_error = DcJwt string | DcApi string

fun device_check_error_str :: "device_check_error \<Rightarrow> string" where
  "device_check_error_str (DcJwt e) = ''devicecheck jwt: '' @ e"
| "device_check_error_str (DcApi e) = ''devicecheck api: '' @ e"

datatype try_error = Transient device_check_error | Fatal device_check_error

record cached_jwt =
  cj_token :: string
  cj_expires_at :: int

record dc_payload =
  dp_device_token :: string
  dp_transaction_id :: string
  dp_timestamp :: int
  dp_bits :: "(bool \<times> bool) option"

record dc_client =
  dc_config :: device_check_config
  dc_encode :: "string \<Rightarrow> string \<times> int \<times> int \<Rightarrow> string + string"
  dc_post :: "nat \<Rightarrow> string \<Rightarrow> string \<Rightarrow> dc_payload \<Rightarrow> string + nat \<times> (string + bytes)"
  dc_b64 :: "bytes \<Rightarrow> string"
  dc_hex :: "bytes \<Rightarrow> string"
  dc_random :: "nat \<Rightarrow> bytes"
  dc_bits_json :: "bytes \<Rightarrow> (bool \<times> bool) option"
  dc_lossy :: "bytes \<Rightarrow> string"

type_synonym 'tb dc_state = "'tb world \<times> cached_jwt option"
type_synonym ('tb, 'e, 'a) dcprog = "('tb dc_state, 'e, 'a) prog"

abbreviation JWT_TTL_SECS :: int where "JWT_TTL_SECS \<equiv> 600"
abbreviation JWT_REFRESH_GRACE_SECS :: int where "JWT_REFRESH_GRACE_SECS \<equiv> 30"
abbreviation MAX_RETRIES :: nat where "MAX_RETRIES \<equiv> 3"

definition dc_mint :: "dc_client \<Rightarrow> int \<Rightarrow> ('tb, device_check_error, string) dcprog" where
  "dc_mint dc now =
     bindE (lift_result (map_error DcJwt (dc_encode dc (key_id (dc_config dc)) (team_id (dc_config dc), now, now + JWT_TTL_SECS)))) (\<lambda>token.
     bindE (modify (\<lambda>(w, _). (w, Some \<lparr>cj_token = token, cj_expires_at = now + JWT_TTL_SECS\<rparr>))) (\<lambda>_. ret token))"

definition dc_jwt :: "'tb env \<Rightarrow> dc_client \<Rightarrow> ('tb, device_check_error, string) dcprog" where
  "dc_jwt E dc =
     bindE (on_first (now_utc E)) (\<lambda>at.
     bindE (gets snd) (\<lambda>cache.
     case cache of
       Some c \<Rightarrow>
         if cj_expires_at c - unix_timestamp at > JWT_REFRESH_GRACE_SECS then ret (cj_token c)
         else dc_mint dc (unix_timestamp at)
     | None \<Rightarrow> dc_mint dc (unix_timestamp at)))"

text \<open>One HTTP attempt, from its answer.\<close>

definition dc_try_answer :: "dc_client \<Rightarrow> string \<Rightarrow> string + nat \<times> (string + bytes) \<Rightarrow> try_error + bytes" where
  "dc_try_answer dc endpoint answer =
     (case answer of
        Inl e \<Rightarrow> Inl (Transient (DcApi (endpoint @ '' request failed: '' @ e)))
      | Inr (status, Inl e) \<Rightarrow> Inl (Transient (DcApi (endpoint @ '' body: '' @ e)))
      | Inr (status, Inr body) \<Rightarrow>
          if 200 \<le> status \<and> status < 300 then Inr body
          else let err = DcApi (endpoint @ '' rejected ('' @ nat_to_string status @ ''): '' @ dc_lossy dc body)
               in if 500 \<le> status \<and> status < 600 then Inl (Transient err) else Inl (Fatal err))"

definition try_call :: "dc_client \<Rightarrow> string \<Rightarrow> string \<Rightarrow> dc_payload \<Rightarrow> string \<Rightarrow> ('tb, try_error, bytes) dcprog" where
  "try_call dc url jwt payload endpoint =
     on_first (remote (\<lambda>n. dc_try_answer dc endpoint (dc_post dc n url jwt payload)))"

fun dc_attempts :: "dc_client \<Rightarrow> string \<Rightarrow> string \<Rightarrow> dc_payload \<Rightarrow> string \<Rightarrow> nat \<Rightarrow> ('tb, device_check_error, bytes) dcprog" where
  "dc_attempts dc url jwt payload endpoint retries =
     bindE (attempt (try_call dc url jwt payload endpoint)) (\<lambda>r.
     case r of
       Inr body \<Rightarrow> ret body
     | Inl (Fatal e) \<Rightarrow> throw e
     | Inl (Transient e) \<Rightarrow>
         (case retries of 0 \<Rightarrow> throw e | Suc n \<Rightarrow> dc_attempts dc url jwt payload endpoint n))"

declare dc_attempts.simps [simp del]

definition dc_call :: "'tb env \<Rightarrow> dc_client \<Rightarrow> string \<Rightarrow> bytes \<Rightarrow> (bool \<times> bool) option \<Rightarrow> ('tb, device_check_error, bytes) dcprog" where
  "dc_call E dc endpoint device_token bits =
     bindE (dc_jwt E dc) (\<lambda>jwt.
     bindE (on_first (remote (\<lambda>n. Inr (dc_random dc n)))) (\<lambda>tid.
     bindE (on_first (now_utc E)) (\<lambda>now.
     let payload = \<lparr>dp_device_token = dc_b64 dc device_token, dp_transaction_id = dc_hex dc tid,
                    dp_timestamp = unix_timestamp now * 1000, dp_bits = bits\<rparr>
     in dc_attempts dc (base_url (dc_config dc) @ ''/'' @ endpoint) jwt payload endpoint MAX_RETRIES)))"

section \<open>The two bits\<close>

record bit_state =
  bit0 :: bool
  bit1 :: bool

definition is_registered :: "bit_state \<Rightarrow> bool" where
  "is_registered b \<longleftrightarrow> \<not> bit0 b \<and> bit1 b"

abbreviation NO_BITS_MARKER :: string where "NO_BITS_MARKER \<equiv> ''Failed to find bit state''"

definition is_no_bits_marker :: "bytes \<Rightarrow> bool" where
  "is_no_bits_marker body =
     (case from_utf8 body of
        Some s \<Rightarrow> to_ascii_lowercase (trim s) = to_ascii_lowercase NO_BITS_MARKER | None \<Rightarrow> False)"

definition classify_query_response :: "dc_client \<Rightarrow> bytes \<Rightarrow> device_check_error + bit_state option" where
  "classify_query_response dc body =
     (case dc_bits_json dc body of
        Some (b0, b1) \<Rightarrow> Inr (Some \<lparr>bit0 = b0, bit1 = b1\<rparr>)
      | None \<Rightarrow>
          if is_no_bits_marker body then Inr None
          else Inl (DcApi (''unrecognized query_two_bits body: '' @ trim (dc_lossy dc body))))"

definition query_bits :: "'tb env \<Rightarrow> dc_client \<Rightarrow> bytes \<Rightarrow> ('tb, device_check_error, bit_state option) dcprog" where
  "query_bits E dc device_token =
     bindE (dc_call E dc ''query_two_bits'' device_token None) (\<lambda>body. lift_result (classify_query_response dc body))"

definition already_used :: "'tb env \<Rightarrow> dc_client \<Rightarrow> bytes \<Rightarrow> ('tb, device_check_error, bool) dcprog" where
  "already_used E dc device_token =
     bindE (query_bits E dc device_token) (\<lambda>b. ret (case b of None \<Rightarrow> False | Some bits \<Rightarrow> is_registered bits))"

definition register_device :: "'tb env \<Rightarrow> dc_client \<Rightarrow> bytes \<Rightarrow> ('tb, device_check_error, unit) dcprog" where
  "register_device E dc device_token =
     bindE (dc_call E dc ''update_two_bits'' device_token (Some (False, True))) (\<lambda>_. ret ())"

section \<open>The decision\<close>

datatype verdict = Available | AlreadyUsed | Failed string | Inactive

datatype decision = Register | Proceed "bool option" | Blocked | TokenRequired | Unavailable string

fun decide_gate :: "verdict \<Rightarrow> bool \<Rightarrow> decision" where
  "decide_gate Available True = Register"
| "decide_gate Available False = Proceed (Some True)"
| "decide_gate AlreadyUsed True = Blocked"
| "decide_gate AlreadyUsed False = Proceed (Some False)"
| "decide_gate (Failed cause) True = Unavailable cause"
| "decide_gate (Failed _) False = Proceed None"
| "decide_gate Inactive True = TokenRequired"
| "decide_gate Inactive False = Proceed None"

definition evaluate :: "'tb env \<Rightarrow> dc_client \<Rightarrow> bytes option \<Rightarrow> ('tb, 'e, verdict) dcprog" where
  "evaluate E dc device_token =
     (case device_token of
        None \<Rightarrow> ret Inactive
      | Some token \<Rightarrow>
          bindE (attempt (already_used E dc token)) (\<lambda>r.
          ret (case r of Inr True \<Rightarrow> AlreadyUsed | Inr False \<Rightarrow> Available | Inl e \<Rightarrow> Failed (device_check_error_str e))))"

section \<open>Calls reach Apple\<close>

text \<open>A step between \<open>m\<close> and \<open>n\<close> at which the endpoint answered with a success status and this body.\<close>

definition answered_at :: "dc_client \<Rightarrow> string \<Rightarrow> bytes \<Rightarrow> (bool \<times> bool) option \<Rightarrow> nat \<Rightarrow> bytes \<Rightarrow> bool" where
  "answered_at dc endpoint device_token bits k body \<longleftrightarrow>
     (\<exists>jwt payload status. dp_device_token payload = dc_b64 dc device_token \<and> dp_bits payload = bits \<and>
        200 \<le> status \<and> status < 300 \<and>
        dc_post dc k (base_url (dc_config dc) @ ''/'' @ endpoint) jwt payload = Inr (status, Inr body))"

lemma dc_try_answer_Inr:
  "dc_try_answer dc endpoint answer = Inr body \<longleftrightarrow> (\<exists>status. 200 \<le> status \<and> status < 300 \<and> answer = Inr (status, Inr body))"
  by (auto simp: dc_try_answer_def Let_def split: sum.splits prod.splits if_splits)

lemma try_call_run:
  "try_call dc url jwt payload endpoint (w, c) =
     (dc_try_answer dc endpoint (dc_post dc (w_step w) url jwt payload), (w\<lparr>w_step := Suc (w_step w)\<rparr>, c))"
  by (simp add: try_call_def on_first_def remote_def)

lemma dc_attempts_run:
  assumes "dc_attempts dc url jwt payload endpoint retries (w, c) = (r, (w', c'))"
  shows "w_db w' = w_db w \<and> c' = c \<and> w_step w < w_step w' \<and> w_step w' \<le> w_step w + Suc retries \<and>
    (\<forall>body. r = Inr body \<longrightarrow> (\<exists>k status. w_step w \<le> k \<and> k < w_step w' \<and> 200 \<le> status \<and> status < 300 \<and>
       dc_post dc k url jwt payload = Inr (status, Inr body)))"
  using assms
proof (induction retries arbitrary: w)
  case 0
  then show ?case
    by (subst (asm) dc_attempts.simps)
       (auto simp: bindE_def attempt_def try_call_run ret_def throw_def dc_try_answer_Inr split: sum.splits try_error.splits)
next
  case (Suc n)
  show ?case
  proof (cases "dc_try_answer dc endpoint (dc_post dc (w_step w) url jwt payload)")
    case (Inr body)
    then have "r = Inr body \<and> w' = w\<lparr>w_step := Suc (w_step w)\<rparr> \<and> c' = c"
      using Suc.prems by (subst (asm) dc_attempts.simps) (simp add: bindE_def attempt_def try_call_run ret_def)
    moreover from Inr obtain status where "200 \<le> status" "status < 300" "dc_post dc (w_step w) url jwt payload = Inr (status, Inr body)"
      by (auto simp: dc_try_answer_Inr)
    ultimately show ?thesis by auto
  next
    case (Inl e)
    show ?thesis
    proof (cases e)
      case (Fatal x)
      then show ?thesis using Suc.prems Inl
        by (subst (asm) dc_attempts.simps) (auto simp: bindE_def attempt_def try_call_run throw_def)
    next
      case (Transient x)
      then have "dc_attempts dc url jwt payload endpoint n (w\<lparr>w_step := Suc (w_step w)\<rparr>, c) = (r, (w', c'))"
        using Suc.prems Inl by (subst (asm) dc_attempts.simps) (simp add: bindE_def attempt_def try_call_run)
      from Suc.IH [OF this] show ?thesis by (auto dest: Suc_leD) (metis Suc_leD)
    qed
  qed
qed

lemma dc_jwt_run:
  assumes "dc_jwt E dc (w, c) = (r, (w', c'))"
  shows "w_db w' = w_db w \<and> w_step w' = Suc (w_step w)"
  using assms by (auto simp: dc_jwt_def dc_mint_def bindE_def on_first_def now_utc_def remote_def gets_def modify_def ret_def
      lift_result_def throw_def split: option.splits if_splits sum.splits)

lemma dc_call_run:
  assumes "dc_call E dc endpoint device_token bits (w, c) = (r, (w', c'))"
  shows "w_db w' = w_db w \<and> w_step w < w_step w' \<and> w_step w' \<le> w_step w + 7 \<and>
    (\<forall>body. r = Inr body \<longrightarrow> (\<exists>k. w_step w \<le> k \<and> k < w_step w' \<and> answered_at dc endpoint device_token bits k body))"
proof -
  obtain rj w1 c1 where jwt: "dc_jwt E dc (w, c) = (rj, (w1, c1))" by (metis prod_cases3)
  note j = dc_jwt_run [OF jwt]
  show ?thesis
  proof (cases rj)
    case (Inl e)
    then show ?thesis using assms jwt j by (auto simp: dc_call_def bindE_def)
  next
    case (Inr tok)
    let ?w2 = "w1\<lparr>w_step := Suc (Suc (w_step w1))\<rparr>"
    let ?p = "\<lparr>dp_device_token = dc_b64 dc device_token, dp_transaction_id = dc_hex dc (dc_random dc (w_step w1)),
        dp_timestamp = unix_timestamp (e_clock E (Suc (w_step w1))) * 1000, dp_bits = bits\<rparr>"
    have "dc_attempts dc (base_url (dc_config dc) @ ''/'' @ endpoint) tok ?p endpoint MAX_RETRIES (?w2, c1) = (r, (w', c'))"
      using assms jwt Inr by (simp add: dc_call_def bindE_def on_first_def remote_def now_utc_def Let_def)
    note run = dc_attempts_run [OF this]
    have "answered_at dc endpoint device_token bits k body"
      if "200 \<le> status" "status < 300" "dc_post dc k (base_url (dc_config dc) @ ''/'' @ endpoint) tok ?p = Inr (status, Inr body)"
      for k status body
      unfolding answered_at_def using that by (intro exI [of _ tok] exI [of _ ?p] exI [of _ status]) simp
    note answered = this
    have "\<exists>k. w_step w \<le> k \<and> k < w_step w' \<and> answered_at dc endpoint device_token bits k body" if r: "r = Inr body" for body
    proof -
      from run r obtain k status where "w_step ?w2 \<le> k" "k < w_step w'" "200 \<le> status" "status < 300"
        "dc_post dc k (base_url (dc_config dc) @ ''/'' @ endpoint) tok ?p = Inr (status, Inr body)" by blast
      with answered j show ?thesis by (intro exI [of _ k]) simp
    qed
    moreover have "w_db w' = w_db w" "w_step w < w_step w'" "w_step w' \<le> w_step w + 7" using run j by simp_all
    ultimately show ?thesis by blast
  qed
qed

text \<open>C23: DeviceCheck fails closed. Whenever a device token is found not to have been used, Apple answered the query for
  that very token, during the call, with a success status and a body that is either a bit state other than
  \<open>(false, true)\<close> or exactly the marker for a device without bits; outages, rejections, truncated and unknown bodies are
  errors. And the call ends after at most four requests, having changed nothing in the database.\<close>

theorem fresh_device_on_answer:
  assumes "already_used E dc device_token (w, c) = (Inr False, (w', c'))"
  shows "\<exists>k body. w_step w \<le> k \<and> k < w_step w' \<and> w_step w' \<le> w_step w + 7 \<and> w_db w' = w_db w \<and>
    answered_at dc ''query_two_bits'' device_token None k body \<and>
    (case dc_bits_json dc body of Some bits \<Rightarrow> bits \<noteq> (False, True) | None \<Rightarrow> is_no_bits_marker body)"
proof -
  from assms obtain body b where call: "dc_call E dc ''query_two_bits'' device_token None (w, c) = (Inr body, (w', c'))"
    and cls: "classify_query_response dc body = Inr b" "\<not> (case b of None \<Rightarrow> False | Some bits \<Rightarrow> is_registered bits)"
    by (auto simp: already_used_def query_bits_def inr_iffs)
  have "case dc_bits_json dc body of Some bits \<Rightarrow> bits \<noteq> (False, True) | None \<Rightarrow> is_no_bits_marker body"
    using cls by (auto simp: classify_query_response_def is_registered_def split: option.splits if_splits)
  with dc_call_run [OF call] show ?thesis by auto
qed

definition demo_dc :: dc_client where
  "demo_dc = \<lparr>dc_config = \<lparr>team_id = ''T'', key_id = ''K'', private_key_pem = [], base_url = ''u''\<rparr>,
     dc_encode = \<lambda>_ _. Inr ''j'', dc_post = \<lambda>_ _ _ _. Inr (200, Inr [1]), dc_b64 = \<lambda>_. ''b'', dc_hex = \<lambda>_. ''h'',
     dc_random = \<lambda>_. [7], dc_bits_json = \<lambda>_. Some (False, False), dc_lossy = \<lambda>_. []\<rparr>"

lemma demo_fresh:
  "\<exists>w' c'. already_used (quiet 0) demo_dc [1] (\<lparr>w_db = (), w_step = 0\<rparr>, None) = (Inr False, (w', c'))"
  by (simp add: already_used_def query_bits_def dc_call_def dc_jwt_def dc_mint_def dc_attempts.simps try_call_run
      dc_try_answer_def classify_query_response_def is_registered_def demo_dc_def bindE_def on_first_def now_utc_def remote_def
      gets_def modify_def ret_def lift_result_def map_error_def attempt_def Let_def)

theorem fresh_device_on_answer_witness:
  "\<exists>k body. k < 7 \<and> answered_at demo_dc ''query_two_bits'' [1] None k body"
proof -
  obtain w' c' where "already_used (quiet 0) demo_dc [1] (\<lparr>w_db = (), w_step = 0\<rparr>, None) = (Inr False, (w', c'))"
    using demo_fresh by blast
  from fresh_device_on_answer [OF this] show ?thesis by (auto intro: less_le_trans)
qed

end
