(* ===== verification/Request.thy ===== *)
theory Request
  imports Env Messages
begin

text \<open>
  Intake of a registration request (\<open>usernames/register/request.rs\<close>, \<open>http-common/src/error.rs\<close>):
  the flat request, the report that collects field errors, the newtypes of single fields and the
  whole validation. A JSON value is what \<open>serde_json\<close> gives; decoding it into the request struct is
  the derived deserializer's work and a parameter, whose failure is a path and a message. Text is
  its UTF-8 bytes. Shown here: validation accepts exactly the well-formed requests with a valid
  candidate signature, and otherwise reports every failing field at once.
\<close>

section \<open>JSON and field errors\<close>

datatype json = JNull | JBool bool | JNumber string | JString string | JArray "json list" | JObject "(string \<times> json) list"

record field_error =
  fe_message :: string
  fe_field :: string

fun type_name :: "json \<Rightarrow> string" where
  "type_name JNull = ''null''"
| "type_name (JBool _) = ''boolean''"
| "type_name (JNumber _) = ''number''"
| "type_name (JString _) = ''string''"
| "type_name (JArray _) = ''array''"
| "type_name (JObject _) = ''object''"

definition received_name :: "json option \<Rightarrow> string" where
  "received_name v = (case v of None \<Rightarrow> ''nothing'' | Some j \<Rightarrow> type_name j)"

definition expected_msg :: "string \<Rightarrow> string \<Rightarrow> string" where
  "expected_msg want got = ''expected '' @ want @ '', received '' @ got"

definition at_most_items :: "nat \<Rightarrow> string" where
  "at_most_items n = ''must contain at most '' @ nat_to_string n @ '' items''"

definition must_match :: "string \<Rightarrow> string" where
  "must_match pattern = ''must match '' @ pattern"

text \<open>\<open>Value::get\<close> with a string index.\<close>

fun json_get :: "string \<Rightarrow> json \<Rightarrow> json option" where
  "json_get k (JObject kvs) = map_of kvs k"
| "json_get k _ = None"

section \<open>The request\<close>

record dotns_request =
  dr_signature :: string
  dr_signed_at :: int
  dr_reserved_username :: "string option"

record register_request =
  rr_candidate_account_id :: string
  rr_username :: string
  rr_preferred_digits :: "string option"
  rr_candidate_signature :: string
  rr_ring_vrf_key :: string
  rr_proof_of_ownership :: string
  rr_consumer_registration_signature :: string
  rr_identifier_key :: string
  rr_payload_version :: u16
  rr_lifetime_poud_voucher :: "string option"
  rr_dotns :: "dotns_request option"

definition strip_suffix :: "string \<Rightarrow> string \<Rightarrow> string option" where
  "strip_suffix suffix s = map_option rev (strip_prefix (rev suffix) (rev s))"

definition structural_error :: "string \<Rightarrow> string \<Rightarrow> field_error" where
  "structural_error path message =
     (let parent = (if path \<noteq> ''.'' then Some path else None);
          missing = Option.bind (strip_prefix ''missing field `'' message) (strip_suffix ''`'');
          field = (case (parent, missing) of
             (Some p, Some name) \<Rightarrow> p @ ''.'' @ name
           | (None, Some name) \<Rightarrow> name
           | (Some p, None) \<Rightarrow> p
           | (None, None) \<Rightarrow> ''body'')
      in \<lparr>fe_message = message, fe_field = field\<rparr>)"

section \<open>The report\<close>

type_synonym report = "field_error list"

definition flag :: "string \<Rightarrow> string \<Rightarrow> report \<Rightarrow> report" where
  "flag field message r = r @ [\<lparr>fe_message = message, fe_field = field\<rparr>]"

definition check :: "string \<Rightarrow> string + 'a \<Rightarrow> report \<Rightarrow> 'a option \<times> report" where
  "check field checked r = (case checked of Inr a \<Rightarrow> (Some a, r) | Inl message \<Rightarrow> (None, flag field message r))"

definition check_optional :: "string \<Rightarrow> (string + 'a) option \<Rightarrow> report \<Rightarrow> 'a option option \<times> report" where
  "check_optional field checked r =
     (case checked of
        None \<Rightarrow> (Some None, r)
      | Some c \<Rightarrow> (case check field c r of (v, r') \<Rightarrow> (map_option Some v, r')))"

section \<open>Single fields\<close>

definition MSG_DIGITS :: string where "MSG_DIGITS = ''Digits must be between 01-99''"
definition MSG_INVALID_SS58 :: string where "MSG_INVALID_SS58 = ''Invalid ss58 address.''"
definition MSG_INVALID_SIGNATURE :: string where "MSG_INVALID_SIGNATURE = ''Invalid signature.''"
definition MAX_DOTNS_LABEL_LEN :: nat where "MAX_DOTNS_LABEL_LEN = 32"
definition PATTERN_BASE :: string where "PATTERN_BASE = ''^([a-z]{6,})$''"
definition PATTERN_HEX_STRING :: string where "PATTERN_HEX_STRING = ''^(0x)?[a-fA-F0-9]+$''"
definition MAX_BASE_LEN :: nat where "MAX_BASE_LEN = 29"
definition MIN_BASE_LEN :: nat where "MIN_BASE_LEN = 6"

abbreviation char_between :: "nat \<Rightarrow> char \<Rightarrow> nat \<Rightarrow> bool" where
  "char_between a c b \<equiv> a \<le> of_char c \<and> of_char c \<le> b"

definition is_ascii_lowercase :: "char \<Rightarrow> bool" where
  "is_ascii_lowercase c \<longleftrightarrow> char_between 97 c 122"

definition is_ascii_hexdigit :: "char \<Rightarrow> bool" where
  "is_ascii_hexdigit c \<longleftrightarrow> char_between 48 c 57 \<or> char_between 65 c 70 \<or> char_between 97 c 102"

definition hex_fixed :: "nat \<Rightarrow> codecs \<Rightarrow> string \<Rightarrow> string + bytes" where
  "hex_fixed n cd value =
     ok_or (''Must be a hexadecimal string of exactly '' @ nat_to_string n @ '' bytes.'')
       (case strip_prefix ''0x'' value of
          None \<Rightarrow> None
        | Some digits \<Rightarrow>
            if length digits = 2 * n
            then (case cd_hex cd digits of Inl _ \<Rightarrow> None | Inr bs \<Rightarrow> try_array n bs) else None)"

definition ring_vrf_key_of :: "codecs \<Rightarrow> string \<Rightarrow> string + bytes" where
  "ring_vrf_key_of cd value =
     (let digits = strip_0x value
      in if digits = [] \<or> \<not> list_all is_ascii_hexdigit digits then Inl (must_match PATTERN_HEX_STRING)
         else Inr (case cd_hex cd digits of Inr bs \<Rightarrow> bs | Inl _ \<Rightarrow> []))"

definition base_name :: "string \<Rightarrow> string + string" where
  "base_name value =
     (if 6 \<le> length value \<and> list_all is_ascii_lowercase value then Inr value else Inl (must_match PATTERN_BASE))"

definition base_name_bounded :: "string \<Rightarrow> nat \<Rightarrow> string \<Rightarrow> string + string" where
  "base_name_bounded value max_len too_long =
     and_then (base_name value) (\<lambda>name. if length name > max_len then Inl too_long else Inr name)"

definition preferred_digits_of :: "string \<Rightarrow> string + nat" where
  "preferred_digits_of value =
     (case value of
        [tens, ones] \<Rightarrow>
          if char_between 48 tens 57 \<and> char_between 48 ones 57 \<and> [tens, ones] \<noteq> ''00''
          then Inr ((of_char tens - 48) * 10 + (of_char ones - 48)) else Inl MSG_DIGITS
      | _ \<Rightarrow> Inl MSG_DIGITS)"

datatype payload_version = V1

definition payload_version_of :: "u16 \<Rightarrow> string + payload_version" where
  "payload_version_of v = (if v = 1 then Inr V1 else Inl ''Unsupported payload version. Supported: 1.'')"

fun payload_version_u16 :: "payload_version \<Rightarrow> u16" where
  "payload_version_u16 V1 = 1"

section \<open>The parsed request\<close>

record parsed_dotns =
  pd_signature :: bytes
  pd_signed_at :: int
  pd_reserved_username :: "string option"

record parsed_register =
  pr_candidate_account_id :: string
  pr_username :: string
  pr_preferred_digits :: "nat option"
  pr_candidate_signature :: bytes
  pr_ring_vrf_key :: bytes
  pr_proof_of_ownership :: bytes
  pr_consumer_registration_signature :: bytes
  pr_identifier_key :: bytes
  pr_payload_version :: payload_version
  pr_voucher :: "string option"
  pr_dotns :: "parsed_dotns option"

definition reserved_name :: "parsed_register \<Rightarrow> string option" where
  "reserved_name p = Option.bind (pr_dotns p) pd_reserved_username"

text \<open>64-bit arithmetic of the release build, and \<open>as i64\<close> of a 64-bit unsigned number.\<close>

definition wrap_i64 :: "int \<Rightarrow> int" where
  "wrap_i64 x = (x + 2 ^ 63) mod 2 ^ 64 - 2 ^ 63"

text \<open>\<open>Dotns::validate\<close>; \<open>now\<close> is the clock reading in seconds.\<close>

definition signed_at_of :: "int \<Rightarrow> string + int" where
  "signed_at_of s = (if s < 0 then Inl ''must be greater than or equal to 0'' else Inr s)"

definition label_too_long :: string where
  "label_too_long = ''reservedUsername exceeds the maximum label length: ('' @ nat_to_string MAX_DOTNS_LABEL_LEN @ '').''"

definition freshness :: "config \<Rightarrow> int \<Rightarrow> int \<Rightarrow> report \<Rightarrow> report" where
  "freshness cfg now signed_at r =
     (let skew = wrap_i64 (int (dotns_max_future_skew_secs cfg));
          max_age = wrap_i64 (int (dotns_intake_freshness_max_age_secs cfg));
          r1 = (if signed_at > wrap_i64 (now + skew)
                then flag ''dotns.signedAt'' (''signedAt is in the future (tolerance '' @ int_to_string skew @ ''s).'') r else r)
      in if wrap_i64 (now - signed_at) > max_age
         then flag ''dotns.signedAt'' (''signedAt is older than the intake freshness bound ('' @ int_to_string max_age @
                ''s). Re-sign with a fresh timestamp and resubmit.'') r1
         else r1)"

definition dotns_validate :: "config \<Rightarrow> codecs \<Rightarrow> int \<Rightarrow> dotns_request \<Rightarrow> report \<Rightarrow> parsed_dotns option \<times> report" where
  "dotns_validate cfg cd now d r =
     (let (signature, r) = check ''dotns.signature'' (hex_fixed 64 cd (dr_signature d)) r;
          (signed_at, r) = check ''dotns.signedAt'' (signed_at_of (dr_signed_at d)) r;
          (reserved, r) = check_optional ''dotns.reservedUsername''
            (map_option (\<lambda>name. base_name_bounded name MAX_DOTNS_LABEL_LEN label_too_long) (dr_reserved_username d)) r;
          r = (case signed_at of Some s \<Rightarrow> freshness cfg now s r | None \<Rightarrow> r)
      in (case (signature, signed_at, reserved) of
            (Some sig, Some s, Some name) \<Rightarrow> Some \<lparr>pd_signature = sig, pd_signed_at = s, pd_reserved_username = name\<rparr>
          | _ \<Rightarrow> None, r))"

definition base_too_long :: string where
  "base_too_long = ''Username sum exceeds the maximum length: ('' @ nat_to_string MAX_BASE_LEN @ '').''"

definition claim_signature_ok ::
  "(bytes \<Rightarrow> bytes \<Rightarrow> account \<Rightarrow> bool) \<Rightarrow> payload_version \<Rightarrow> account \<Rightarrow> bytes \<Rightarrow> bytes \<Rightarrow> account_signature_form \<Rightarrow> bool" where
  "claim_signature_ok vrfy version candidate signature ring form =
     (let message = (case version of V1 \<Rightarrow> candidate_message candidate ring)
      in verify_account_signature vrfy signature message candidate form)"

text \<open>The end of \<open>validate\<close>: the candidate signature when nothing failed, then the parsed request.\<close>

definition validate_finish ::
  "(bytes \<Rightarrow> bytes \<Rightarrow> account \<Rightarrow> bool) \<Rightarrow> config \<Rightarrow> account_signature_form \<Rightarrow> register_request \<Rightarrow>
   account option \<Rightarrow> string option \<Rightarrow> nat option option \<Rightarrow> bytes option \<Rightarrow> bytes option \<Rightarrow> bytes option \<Rightarrow> bytes option \<Rightarrow>
   bytes option \<Rightarrow> payload_version option \<Rightarrow> parsed_dotns option option \<Rightarrow> report \<Rightarrow> report + parsed_register" where
  "validate_finish vrfy cfg form q candidate username digits signature ring ownership consumer identifier version dotns r =
     (let voucher = (case rr_lifetime_poud_voucher q of
             Some v \<Rightarrow> if registration_vouchers_enabled cfg \<and> v \<noteq> [] then Some v else None
           | None \<Rightarrow> None);
          r' = (case (r, candidate, signature, ring, version) of
             ([], Some c, Some sg, Some k, Some ver) \<Rightarrow>
               if \<not> claim_signature_ok vrfy ver c sg k form then flag ''candidateSignature'' MSG_INVALID_SIGNATURE r else r
           | _ \<Rightarrow> r)
      in case (candidate, username, digits, signature, ring, ownership, consumer, identifier, version, dotns) of
           (Some _, Some u, Some dg, Some sg, Some k, Some own, Some con, Some ident, Some ver, Some dn) \<Rightarrow>
             if r' = [] then Inr \<lparr>pr_candidate_account_id = rr_candidate_account_id q, pr_username = u,
               pr_preferred_digits = dg, pr_candidate_signature = sg, pr_ring_vrf_key = k, pr_proof_of_ownership = own,
               pr_consumer_registration_signature = con, pr_identifier_key = ident, pr_payload_version = ver,
               pr_voucher = voucher, pr_dotns = dn\<rparr> else Inl r'
         | _ \<Rightarrow> Inl r')"

definition validate ::
  "(bytes \<Rightarrow> bytes \<Rightarrow> account \<Rightarrow> bool) \<Rightarrow> codecs \<Rightarrow> config \<Rightarrow> account_signature_form \<Rightarrow> int \<Rightarrow> register_request \<Rightarrow>
   report + parsed_register" where
  "validate vrfy cd cfg form now q =
     (let (candidate, r) = check ''candidateAccountId''
            (map_error (\<lambda>_. MSG_INVALID_SS58) (cd_ss58 cd (rr_candidate_account_id q))) [];
          (username, r) = check ''username'' (base_name_bounded (rr_username q) MAX_BASE_LEN base_too_long) r;
          (digits, r) = check_optional ''preferredDigits'' (map_option preferred_digits_of (rr_preferred_digits q)) r;
          (signature, r) = check ''candidateSignature'' (hex_fixed 64 cd (rr_candidate_signature q)) r;
          (ring, r) = check ''ringVrfKey'' (ring_vrf_key_of cd (rr_ring_vrf_key q)) r;
          (ownership, r) = check ''proofOfOwnership'' (hex_fixed 64 cd (rr_proof_of_ownership q)) r;
          (consumer, r) = check ''consumerRegistrationSignature'' (hex_fixed 64 cd (rr_consumer_registration_signature q)) r;
          (identifier, r) = check ''identifierKey'' (hex_fixed 65 cd (rr_identifier_key q)) r;
          (version, r) = check ''payloadVersion'' (payload_version_of (rr_payload_version q)) r;
          (dotns, r) = (case rr_dotns q of
             None \<Rightarrow> (Some None, r)
           | Some d \<Rightarrow> (case dotns_validate cfg cd now d r of (v, r') \<Rightarrow> (map_option Some v, r')))
      in validate_finish vrfy cfg form q candidate username digits signature ring ownership consumer identifier version dotns r)"

text \<open>\<open>validate_register\<close>: the derived deserializer, then \<open>validate\<close>.\<close>

definition validate_register ::
  "(json \<Rightarrow> (string \<times> string) + register_request) \<Rightarrow> (bytes \<Rightarrow> bytes \<Rightarrow> account \<Rightarrow> bool) \<Rightarrow> codecs \<Rightarrow> config \<Rightarrow>
   account_signature_form \<Rightarrow> int \<Rightarrow> json \<Rightarrow> report + parsed_register" where
  "validate_register decode vrfy cd cfg form now body =
     (case decode body of
        Inl (path, message) \<Rightarrow> Inl [structural_error path message]
      | Inr q \<Rightarrow> validate vrfy cd cfg form now q)"

section \<open>Well-formed requests\<close>

definition hex_ok :: "codecs \<Rightarrow> nat \<Rightarrow> string \<Rightarrow> bytes \<Rightarrow> bool" where
  "hex_ok cd n s bs \<longleftrightarrow> (\<exists>ds. s = ''0x'' @ ds \<and> length ds = 2 * n \<and> cd_hex cd ds = Inr bs \<and> length bs = n)"

definition base_ok :: "nat \<Rightarrow> string \<Rightarrow> bool" where
  "base_ok max_len s \<longleftrightarrow> 6 \<le> length s \<and> length s \<le> max_len \<and> list_all is_ascii_lowercase s"

definition ring_ok :: "codecs \<Rightarrow> string \<Rightarrow> bytes \<Rightarrow> bool" where
  "ring_ok cd s bs \<longleftrightarrow> (\<exists>ds. ds = strip_0x s \<and> ds \<noteq> [] \<and> list_all is_ascii_hexdigit ds \<and>
     (cd_hex cd ds = Inr bs \<or> (\<exists>e. cd_hex cd ds = Inl e) \<and> bs = []))"

definition signed_fresh :: "config \<Rightarrow> int \<Rightarrow> int \<Rightarrow> bool" where
  "signed_fresh cfg now s \<longleftrightarrow> s \<le> wrap_i64 (now + wrap_i64 (int (dotns_max_future_skew_secs cfg))) \<and>
     wrap_i64 (now - s) \<le> wrap_i64 (int (dotns_intake_freshness_max_age_secs cfg))"

definition dotns_ok :: "config \<Rightarrow> codecs \<Rightarrow> int \<Rightarrow> dotns_request \<Rightarrow> parsed_dotns \<Rightarrow> bool" where
  "dotns_ok cfg cd now d p \<longleftrightarrow> hex_ok cd 64 (dr_signature d) (pd_signature p) \<and> 0 \<le> dr_signed_at d \<and>
     pd_signed_at p = dr_signed_at d \<and> signed_fresh cfg now (dr_signed_at d) \<and>
     pd_reserved_username p = dr_reserved_username d \<and>
     (case dr_reserved_username d of None \<Rightarrow> True | Some name \<Rightarrow> base_ok MAX_DOTNS_LABEL_LEN name)"

definition request_parses :: "codecs \<Rightarrow> config \<Rightarrow> int \<Rightarrow> register_request \<Rightarrow> account \<Rightarrow> parsed_register \<Rightarrow> bool" where
  "request_parses cd cfg now q candidate p \<longleftrightarrow>
     cd_ss58 cd (rr_candidate_account_id q) = Inr candidate \<and> pr_candidate_account_id p = rr_candidate_account_id q \<and>
     base_ok MAX_BASE_LEN (rr_username q) \<and> pr_username p = rr_username q \<and>
     (case pr_preferred_digits p of
        None \<Rightarrow> rr_preferred_digits q = None
      | Some n \<Rightarrow> 1 \<le> n \<and> n \<le> 99 \<and> rr_preferred_digits q = Some (two_digits n)) \<and>
     hex_ok cd 64 (rr_candidate_signature q) (pr_candidate_signature p) \<and>
     ring_ok cd (rr_ring_vrf_key q) (pr_ring_vrf_key p) \<and>
     hex_ok cd 64 (rr_proof_of_ownership q) (pr_proof_of_ownership p) \<and>
     hex_ok cd 64 (rr_consumer_registration_signature q) (pr_consumer_registration_signature p) \<and>
     hex_ok cd 65 (rr_identifier_key q) (pr_identifier_key p) \<and>
     rr_payload_version q = 1 \<and> pr_payload_version p = V1 \<and>
     pr_voucher p = (if registration_vouchers_enabled cfg then Option.bind (rr_lifetime_poud_voucher q)
        (\<lambda>v. if v = [] then None else Some v) else None) \<and>
     (case (rr_dotns q, pr_dotns p) of
        (None, None) \<Rightarrow> True | (Some d, Some pd) \<Rightarrow> dotns_ok cfg cd now d pd | _ \<Rightarrow> False)"

section \<open>One check per field\<close>

definition faults :: "string \<Rightarrow> string + 'a \<Rightarrow> report" where
  "faults field c = (case c of Inl m \<Rightarrow> [\<lparr>fe_message = m, fe_field = field\<rparr>] | Inr _ \<Rightarrow> [])"

definition ok :: "'e + 'a \<Rightarrow> 'a option" where
  "ok c = (case c of Inl _ \<Rightarrow> None | Inr a \<Rightarrow> Some a)"

lemma ok_eq_Some [simp]: "ok c = Some a \<longleftrightarrow> c = Inr a"
  by (cases c) (auto simp: ok_def)

lemma ok_Inr [simp]: "ok (Inr a) = Some a"
  by simp

lemma faults_none: "faults field c = [] \<longleftrightarrow> (\<exists>a. c = Inr a)"
  by (cases c) (auto simp: faults_def)

lemma check_eq: "check field c r = (ok c, r @ faults field c)"
  by (cases c) (auto simp: check_def ok_def faults_def flag_def)

abbreviation optional_faults :: "string \<Rightarrow> (string + 'a) option \<Rightarrow> report" where
  "optional_faults field c \<equiv> (case c of None \<Rightarrow> [] | Some x \<Rightarrow> faults field x)"

abbreviation optional_ok :: "('e + 'a) option \<Rightarrow> 'a option option" where
  "optional_ok c \<equiv> (case c of None \<Rightarrow> Some None | Some x \<Rightarrow> map_option Some (ok x))"

lemma check_optional_eq: "check_optional field c r = (optional_ok c, r @ optional_faults field c)"
  by (cases c) (auto simp: check_optional_def check_eq)

lemma hex_fixed_iff: "hex_fixed n cd s = Inr bs \<longleftrightarrow> hex_ok cd n s bs"
proof
  assume "hex_fixed n cd s = Inr bs"
  then obtain ds where "strip_prefix ''0x'' s = Some ds" "length ds = 2 * n" "cd_hex cd ds = Inr bs" "length bs = n"
    by (auto simp: hex_fixed_def split: option.splits if_splits sum.splits)
  then show "hex_ok cd n s bs" unfolding hex_ok_def strip_prefix_def
    by (metis append_take_drop_id option.distinct(1) option.inject)
next
  assume "hex_ok cd n s bs"
  then show "hex_fixed n cd s = Inr bs" by (auto simp: hex_ok_def hex_fixed_def strip_prefix_def)
qed

lemma base_name_iff: "base_name_bounded s n e = Inr u \<longleftrightarrow> base_ok n s \<and> u = s"
  by (auto simp: base_name_bounded_def base_name_def base_ok_def)

lemma ring_iff: "ring_vrf_key_of cd s = Inr bs \<longleftrightarrow> ring_ok cd s bs"
  by (auto simp: ring_vrf_key_of_def ring_ok_def Let_def split: sum.splits)

lemma preferred_iff: "preferred_digits_of s = Inr n \<longleftrightarrow> 1 \<le> n \<and> n \<le> 99 \<and> s = two_digits n"
proof
  assume "preferred_digits_of s = Inr n"
  then obtain a b where s: "s = [a, b]" and ab: "char_between 48 a 57" "char_between 48 b 57" "[a, b] \<noteq> ''00''"
    and n: "n = (of_char a - 48) * 10 + (of_char b - 48)"
    by (auto simp: preferred_digits_of_def split: list.splits if_splits)
  define i j :: nat where ij: "i = of_char a - 48" "j = of_char b - 48"
  have dig: "a = digit_char i" "b = digit_char j" "i < 10" "j < 10"
    using ab by (auto simp: ij digit_char_def)
  have "n \<noteq> 0" using ab(3) dig n unfolding ij [symmetric] by (cases "i = 0"; cases "j = 0") (auto simp: zero_char)
  then show "1 \<le> n \<and> n \<le> 99 \<and> s = two_digits n" using dig n s two_digits_chars [of n] unfolding ij [symmetric] by auto
next
  assume n: "1 \<le> n \<and> n \<le> 99 \<and> s = two_digits n"
  then have d: "n div 10 < 10" "n mod 10 < 10" "n div 10 \<noteq> 0 \<or> n mod 10 \<noteq> 0" "n < 100" by auto
  then have "[digit_char (n div 10), digit_char (n mod 10)] \<noteq> ''00''"
    by (auto simp: digit_char_inj zero_char)
  with n d show "preferred_digits_of s = Inr n"
    by (simp add: preferred_digits_of_def two_digits_chars digit_char_code)
qed

lemma version_iff: "payload_version_of v = Inr pv \<longleftrightarrow> v = 1 \<and> pv = V1"
  by (auto simp: payload_version_of_def)

lemma signed_at_iff: "signed_at_of i = Inr s \<longleftrightarrow> 0 \<le> i \<and> s = i"
  by (auto simp: signed_at_of_def)

lemma freshness_append: "freshness cfg now s r = r @ freshness cfg now s []"
  by (simp add: freshness_def flag_def Let_def)

lemma freshness_none: "freshness cfg now s [] = [] \<longleftrightarrow> signed_fresh cfg now s"
  by (auto simp: freshness_def signed_fresh_def flag_def Let_def)

lemmas field_iffs = hex_fixed_iff base_name_iff ring_iff preferred_iff version_iff signed_at_iff

definition dotns_faults :: "config \<Rightarrow> codecs \<Rightarrow> int \<Rightarrow> dotns_request \<Rightarrow> report" where
  "dotns_faults cfg cd now d =
     faults ''dotns.signature'' (hex_fixed 64 cd (dr_signature d)) @
     faults ''dotns.signedAt'' (signed_at_of (dr_signed_at d)) @
     optional_faults ''dotns.reservedUsername''
       (map_option (\<lambda>name. base_name_bounded name MAX_DOTNS_LABEL_LEN label_too_long) (dr_reserved_username d)) @
     (if dr_signed_at d < 0 then [] else freshness cfg now (dr_signed_at d) [])"

definition dotns_value :: "codecs \<Rightarrow> dotns_request \<Rightarrow> parsed_dotns option" where
  "dotns_value cd d =
     (case (ok (hex_fixed 64 cd (dr_signature d)), ok (signed_at_of (dr_signed_at d)),
            optional_ok (map_option (\<lambda>name. base_name_bounded name MAX_DOTNS_LABEL_LEN label_too_long) (dr_reserved_username d))) of
        (Some sig, Some s, Some name) \<Rightarrow> Some \<lparr>pd_signature = sig, pd_signed_at = s, pd_reserved_username = name\<rparr>
      | _ \<Rightarrow> None)"

lemma dotns_validate_eq: "dotns_validate cfg cd now d r = (dotns_value cd d, r @ dotns_faults cfg cd now d)"
  by (auto simp: dotns_validate_def dotns_value_def dotns_faults_def check_eq check_optional_eq
      freshness_append [of _ _ _ "_ @ _"] ok_def signed_at_of_def Let_def)

lemma case_option_Some_iff:
  "(case x of None \<Rightarrow> None | Some a \<Rightarrow> f a) = Some b \<longleftrightarrow> (\<exists>a. x = Some a \<and> f a = Some b)"
  by (cases x) auto

lemma optional_ok_iff:
  "optional_ok c = Some v \<longleftrightarrow> (case v of None \<Rightarrow> c = None | Some a \<Rightarrow> c = Some (Inr a))"
  by (auto split: option.splits)

lemma optional_faults_none: "optional_faults field c = [] \<longleftrightarrow> (\<forall>x. c = Some x \<longrightarrow> (\<exists>a. x = Inr a))"
  by (auto simp: faults_none split: option.splits)

lemma dotns_value_ok:
  "dotns_faults cfg cd now d = [] \<and> dotns_value cd d = Some p \<longleftrightarrow> dotns_ok cfg cd now d p"
  by (cases p; cases "dr_reserved_username d")
     (auto simp: dotns_value_def dotns_faults_def faults_none field_iffs freshness_none
      case_option_Some_iff dotns_ok_def signed_at_of_def split: if_splits)

definition format_faults :: "config \<Rightarrow> codecs \<Rightarrow> int \<Rightarrow> register_request \<Rightarrow> report" where
  "format_faults cfg cd now q =
     faults ''candidateAccountId'' (map_error (\<lambda>_. MSG_INVALID_SS58) (cd_ss58 cd (rr_candidate_account_id q))) @
     faults ''username'' (base_name_bounded (rr_username q) MAX_BASE_LEN base_too_long) @
     optional_faults ''preferredDigits'' (map_option preferred_digits_of (rr_preferred_digits q)) @
     faults ''candidateSignature'' (hex_fixed 64 cd (rr_candidate_signature q)) @
     faults ''ringVrfKey'' (ring_vrf_key_of cd (rr_ring_vrf_key q)) @
     faults ''proofOfOwnership'' (hex_fixed 64 cd (rr_proof_of_ownership q)) @
     faults ''consumerRegistrationSignature'' (hex_fixed 64 cd (rr_consumer_registration_signature q)) @
     faults ''identifierKey'' (hex_fixed 65 cd (rr_identifier_key q)) @
     faults ''payloadVersion'' (payload_version_of (rr_payload_version q)) @
     (case rr_dotns q of None \<Rightarrow> [] | Some d \<Rightarrow> dotns_faults cfg cd now d)"

abbreviation bad_signature :: field_error where
  "bad_signature \<equiv> \<lparr>fe_message = MSG_INVALID_SIGNATURE, fe_field = ''candidateSignature''\<rparr>"

abbreviation dotns_part :: "codecs \<Rightarrow> register_request \<Rightarrow> parsed_dotns option option" where
  "dotns_part cd q \<equiv> (case rr_dotns q of None \<Rightarrow> Some None | Some d \<Rightarrow> map_option Some (dotns_value cd d))"

lemma validate_finish_eq:
  "validate vrfy cd cfg form now q =
     validate_finish vrfy cfg form q (ok (map_error (\<lambda>_. MSG_INVALID_SS58) (cd_ss58 cd (rr_candidate_account_id q))))
       (ok (base_name_bounded (rr_username q) MAX_BASE_LEN base_too_long))
       (optional_ok (map_option preferred_digits_of (rr_preferred_digits q)))
       (ok (hex_fixed 64 cd (rr_candidate_signature q))) (ok (ring_vrf_key_of cd (rr_ring_vrf_key q)))
       (ok (hex_fixed 64 cd (rr_proof_of_ownership q))) (ok (hex_fixed 64 cd (rr_consumer_registration_signature q)))
       (ok (hex_fixed 65 cd (rr_identifier_key q))) (ok (payload_version_of (rr_payload_version q)))
       (dotns_part cd q) (format_faults cfg cd now q)"
  unfolding validate_def check_eq check_optional_eq Let_def prod.case append_Nil append_assoc dotns_validate_eq format_faults_def
  by (cases "rr_dotns q") simp_all

lemma validate_faulty:
  assumes "format_faults cfg cd now q \<noteq> []"
  shows "validate vrfy cd cfg form now q = Inl (format_faults cfg cd now q)"
proof -
  have "validate_finish vrfy cfg form q a b c d e f g h i j r = Inl r" if "r \<noteq> []" for a b c d e f g h i j r
    using that by (cases r) (simp_all add: validate_finish_def Let_def split: option.split)
  with assms show ?thesis by (simp add: validate_finish_eq)
qed

lemma format_faults_none:
  "format_faults cfg cd now q = [] \<longleftrightarrow> (\<exists>c p. request_parses cd cfg now q c p)" (is "?L \<longleftrightarrow> ?R")
proof
  assume ?L
  then obtain c sg k own con ident where
    fields: "cd_ss58 cd (rr_candidate_account_id q) = Inr c" "base_ok MAX_BASE_LEN (rr_username q)"
      "hex_ok cd 64 (rr_candidate_signature q) sg" "ring_ok cd (rr_ring_vrf_key q) k" "hex_ok cd 64 (rr_proof_of_ownership q) own"
      "hex_ok cd 64 (rr_consumer_registration_signature q) con" "hex_ok cd 65 (rr_identifier_key q) ident" "rr_payload_version q = 1"
    and digs: "optional_faults ''preferredDigits'' (map_option preferred_digits_of (rr_preferred_digits q)) = []"
    and dn: "(case rr_dotns q of None \<Rightarrow> [] | Some d \<Rightarrow> dotns_faults cfg cd now d) = []"
    by (auto simp: format_faults_def faults_none field_iffs)
  from digs obtain dg where dg: "case dg of None \<Rightarrow> rr_preferred_digits q = None
      | Some n \<Rightarrow> 1 \<le> n \<and> n \<le> 99 \<and> rr_preferred_digits q = Some (two_digits n)"
    by (cases "rr_preferred_digits q") (auto simp: faults_none preferred_iff intro: that [of None] that [of "Some _"])
  have "\<exists>p. dotns_ok cfg cd now d p" if "dotns_faults cfg cd now d = []" for d
  proof -
    from that have "dotns_value cd d \<noteq> None"
      by (cases "dr_reserved_username d") (auto simp: dotns_faults_def dotns_value_def faults_none simp del: not_None_eq)
    with that show ?thesis using dotns_value_ok by blast
  qed
  then obtain pd where "case (rr_dotns q, pd) of (None, None) \<Rightarrow> True
      | (Some d, Some x) \<Rightarrow> dotns_ok cfg cd now d x | _ \<Rightarrow> False"
    using dn that [of None] that [of "Some _"] by (cases "rr_dotns q") force+
  with fields dg have "request_parses cd cfg now q c \<lparr>pr_candidate_account_id = rr_candidate_account_id q,
      pr_username = rr_username q, pr_preferred_digits = dg, pr_candidate_signature = sg, pr_ring_vrf_key = k,
      pr_proof_of_ownership = own, pr_consumer_registration_signature = con, pr_identifier_key = ident,
      pr_payload_version = V1, pr_voucher = (if registration_vouchers_enabled cfg then Option.bind (rr_lifetime_poud_voucher q)
        (\<lambda>v. if v = [] then None else Some v) else None), pr_dotns = pd\<rparr>"
    by (simp add: request_parses_def)
  then show ?R by blast
next
  assume ?R
  then obtain c p where "request_parses cd cfg now q c p" by blast
  then show ?L unfolding format_faults_def request_parses_def
    using dotns_value_ok [of cfg cd now "the (rr_dotns q)" "the (pr_dotns p)"]
    by (auto simp: faults_none field_iffs split: option.splits)
qed

lemma validate_parsed:
  assumes "request_parses cd cfg now q c p"
  shows "validate vrfy cd cfg form now q =
    (if claim_signature_ok vrfy V1 c (pr_candidate_signature p) (pr_ring_vrf_key p) form then Inr p else Inl [bad_signature])"
proof -
  have "optional_ok (map_option preferred_digits_of (rr_preferred_digits q)) = Some (pr_preferred_digits p)"
    using assms by (auto simp: request_parses_def optional_ok_iff preferred_iff split: option.splits)
  moreover have "dotns_part cd q = Some (pr_dotns p)"
    using assms dotns_value_ok [of cfg cd now "the (rr_dotns q)" "the (pr_dotns p)"]
    by (cases "rr_dotns q"; cases "pr_dotns p") (simp_all add: request_parses_def)
  moreover have "format_faults cfg cd now q = []" using assms format_faults_none by blast
  moreover have "ok (map_error (\<lambda>_. MSG_INVALID_SS58) (cd_ss58 cd (rr_candidate_account_id q))) = Some c"
      "ok (base_name_bounded (rr_username q) MAX_BASE_LEN base_too_long) = Some (pr_username p)"
      "ok (hex_fixed 64 cd (rr_candidate_signature q)) = Some (pr_candidate_signature p)"
      "ok (ring_vrf_key_of cd (rr_ring_vrf_key q)) = Some (pr_ring_vrf_key p)"
      "ok (hex_fixed 64 cd (rr_proof_of_ownership q)) = Some (pr_proof_of_ownership p)"
      "ok (hex_fixed 64 cd (rr_consumer_registration_signature q)) = Some (pr_consumer_registration_signature p)"
      "ok (hex_fixed 65 cd (rr_identifier_key q)) = Some (pr_identifier_key p)"
      "ok (payload_version_of (rr_payload_version q)) = Some V1"
    using assms by (simp_all add: request_parses_def field_iffs)
  ultimately have "validate vrfy cd cfg form now q = validate_finish vrfy cfg form q (Some c) (Some (pr_username p))
      (Some (pr_preferred_digits p)) (Some (pr_candidate_signature p)) (Some (pr_ring_vrf_key p))
      (Some (pr_proof_of_ownership p)) (Some (pr_consumer_registration_signature p)) (Some (pr_identifier_key p))
      (Some V1) (Some (pr_dotns p)) []"
    unfolding validate_finish_eq by (simp only:)
  then show ?thesis using assms
    by (cases p) (auto simp: validate_finish_def flag_def request_parses_def Let_def split: option.splits)
qed

text \<open>C19: Validation of a registration request is exact and complete. It accepts a request just when every field has its
  format (address, base name of 6 to 29 lowercase letters, digits 01 to 99, hexadecimal strings of their exact lengths,
  payload version 1, dotNS block with a fresh timestamp) and the candidate signed its claim, and then returns exactly the
  decoded fields; otherwise it returns either all format failures of all fields at once, in field order, or, when there is
  none, the signature failure alone.\<close>

theorem validate_exact:
  "(validate vrfy cd cfg form now q = Inr p \<longleftrightarrow>
      (\<exists>c. request_parses cd cfg now q c p \<and>
         claim_signature_ok vrfy V1 c (pr_candidate_signature p) (pr_ring_vrf_key p) form)) \<and>
   (validate vrfy cd cfg form now q = Inl errs \<longleftrightarrow>
      format_faults cfg cd now q \<noteq> [] \<and> errs = format_faults cfg cd now q \<or>
      (\<exists>c p. request_parses cd cfg now q c p \<and> errs = [bad_signature] \<and>
         \<not> claim_signature_ok vrfy V1 c (pr_candidate_signature p) (pr_ring_vrf_key p) form))"
proof (cases "format_faults cfg cd now q = []")
  case True
  then obtain c0 p0 where r0: "request_parses cd cfg now q c0 p0" using format_faults_none by blast
  have same: "p' = p0 \<and> c' = c0" if "request_parses cd cfg now q c' p'" for c' p'
  proof -
    have "validate (\<lambda>_ _ _. True) cd cfg Plain now q = Inr x" if "request_parses cd cfg now q y x" for x y
    proof -
      have "length (pr_candidate_signature x) = 64" using that by (auto simp: request_parses_def hex_ok_def)
      then show ?thesis using validate_parsed [OF that, of "\<lambda>_ _ _. True" Plain]
        by (simp add: claim_signature_ok_def verify_account_signature_def try_array_def)
    qed
    from this [OF r0] this [OF that] r0 that show ?thesis by (simp add: request_parses_def)
  qed
  have uniq: "request_parses cd cfg now q c' p' \<longleftrightarrow> p' = p0 \<and> c' = c0" for c' p' using same r0 by metis
  show ?thesis unfolding uniq validate_parsed [OF r0, of vrfy form] True by auto
next
  case False
  then show ?thesis using validate_faulty [OF False] format_faults_none [of cfg cd now q] by auto
qed

end
