(* ===== verification/Widevine.thy ===== *)
theory Widevine
  imports KeyAttest Request
begin

text \<open>
  Android device evidence on a registration (\<open>widevine.rs\<close>): reading the three evidence fields of the
  request body, verifying the attestation chain against the hash that binds challenge, account and
  device, and the pseudonym under which a device is recorded. SHA-256 and HMAC are parameters.
  Shown here: the fields that are read are exactly a complete and well-sized set, and accepted
  evidence is a genuine chain whose certified challenge is the hash of this account's claim.
\<close>

datatype evidence_error = EvMalformed string | EvInvalid string

record raw_evidence =
  re_chain_der :: "bytes list"
  re_challenge :: bytes
  re_device_id :: bytes

fun json_str :: "json \<Rightarrow> string option" where
  "json_str (JString s) = Some s"
| "json_str _ = None"

fun json_array :: "json \<Rightarrow> json list option" where
  "json_array (JArray xs) = Some xs"
| "json_array _ = None"

abbreviation chain_field :: "nat \<Rightarrow> string" where
  "chain_field i \<equiv> ''attestationChain['' @ nat_to_string i @ '']''"

fun evidence_chain :: "codecs \<Rightarrow> nat \<Rightarrow> json list \<Rightarrow> evidence_error + bytes list" where
  "evidence_chain cd i [] = Inr []"
| "evidence_chain cd i (e # es) =
     and_then (ok_or (EvMalformed (chain_field i @ '' must be a string'')) (json_str e)) (\<lambda>raw.
     if length raw > MAX_ENTRY_CHARS
     then Inl (EvMalformed (chain_field i @ '' exceeds '' @ nat_to_string MAX_ENTRY_CHARS @ '' chars'')) else
     and_then (map_error (\<lambda>_. EvMalformed (chain_field i @ '' is not valid base64'')) (cd_b64 cd (trim raw))) (\<lambda>der.
     and_then (evidence_chain cd (Suc i) es) (\<lambda>ders. Inr (der # ders))))"

definition decode32 :: "codecs \<Rightarrow> string \<Rightarrow> json \<Rightarrow> evidence_error + bytes" where
  "decode32 cd field v =
     and_then (ok_or (EvMalformed (field @ '' must be a string'')) (json_str v)) (\<lambda>raw.
     and_then (map_error (\<lambda>_. EvMalformed (field @ '' is not valid base64'')) (cd_b64 cd (trim raw))) (\<lambda>bs.
     ok_or (EvMalformed (field @ '' must be exactly 32 bytes'')) (try_array 32 bs)))"

definition extract_evidence :: "codecs \<Rightarrow> json \<Rightarrow> evidence_error + raw_evidence option" where
  "extract_evidence cd body =
     (case (json_get ''attestationChain'' body, json_get ''deviceChallenge'' body, json_get ''deviceId'' body) of
        (None, None, None) \<Rightarrow> Inr None
      | (Some chain, Some challenge, Some device) \<Rightarrow>
          and_then (ok_or (EvMalformed ''attestationChain must be an array of strings'') (json_array chain)) (\<lambda>entries.
          if length entries < MIN_CHAIN_ENTRIES \<or> length entries > MAX_CHAIN_ENTRIES
          then Inl (EvMalformed (''attestationChain has '' @ nat_to_string (length entries) @ '' entries, expected '' @
                 nat_to_string MIN_CHAIN_ENTRIES @ ''..='' @ nat_to_string MAX_CHAIN_ENTRIES)) else
          and_then (evidence_chain cd 0 entries) (\<lambda>ders.
          and_then (decode32 cd ''deviceChallenge'' challenge) (\<lambda>ch.
          and_then (decode32 cd ''deviceId'' device) (\<lambda>d.
          Inr (Some \<lparr>re_chain_der = ders, re_challenge = ch, re_device_id = d\<rparr>)))))
      | _ \<Rightarrow> Inl (EvMalformed ''attestationChain, deviceChallenge and deviceId must be present together''))"

record verified_evidence =
  ve_challenge :: bytes
  ve_hmac :: bytes

definition WIDEVINE_DOMAIN :: bytes where "WIDEVINE_DOMAIN = as_bytes ''dub/poud/android/v1''"
definition HMAC_CONTEXT :: bytes where "HMAC_CONTEXT = as_bytes ''poud:v1''"

definition evidence_hash :: "crypto \<Rightarrow> bytes \<Rightarrow> account \<Rightarrow> bytes \<Rightarrow> bytes" where
  "evidence_hash cy challenge subject device = cy_sha256 cy (WIDEVINE_DOMAIN @ challenge @ subject @ device)"

definition device_pseudonym :: "(bytes \<Rightarrow> bytes \<Rightarrow> bytes) \<Rightarrow> bytes \<Rightarrow> bytes \<Rightarrow> bytes" where
  "device_pseudonym hmac key device_id = hmac key (HMAC_CONTEXT @ device_id)"

definition widevine_params :: "crypto \<Rightarrow> config \<Rightarrow> bytes list \<Rightarrow> bytes \<times> bytes \<Rightarrow> string set \<Rightarrow> account \<Rightarrow> int \<Rightarrow> raw_evidence \<Rightarrow> verify_params" where
  "widevine_params cy cfg roots digests revoked subject now ev =
     \<lparr>vp_challenge = evidence_hash cy (re_challenge ev) subject (re_device_id ev),
      vp_package_names = android_package_names cfg, vp_playstore_digest = fst digests, vp_website_digest = snd digests,
      vp_trusted_roots_der = roots, vp_trusted_verified_boot_keys = GRAPHENEOS_VERIFIED_BOOT_KEYS,
      vp_revoked_serials = revoked, vp_now_unix = now\<rparr>"

definition widevine_verify ::
  "crypto \<Rightarrow> (bytes \<Rightarrow> bytes \<Rightarrow> bytes) \<Rightarrow> config \<Rightarrow> bytes list \<Rightarrow> bytes \<Rightarrow> string set \<Rightarrow> account \<Rightarrow> int \<Rightarrow> raw_evidence \<Rightarrow>
   evidence_error + verified_evidence" where
  "widevine_verify cy hmac cfg roots hmac_key revoked subject now ev =
     (case (android_signing_digest_playstore cfg, android_signing_digest_website cfg) of
        (Some p, Some w) \<Rightarrow>
          and_then (map_error (\<lambda>e. EvInvalid (key_attest_error_str e))
            (verify_chain cy (re_chain_der ev) (widevine_params cy cfg roots (p, w) revoked subject now ev))) (\<lambda>_.
          Inr \<lparr>ve_challenge = re_challenge ev, ve_hmac = device_pseudonym hmac hmac_key (re_device_id ev)\<rparr>)
      | _ \<Rightarrow> Inl (EvInvalid ''android signing digests are not configured''))"

section \<open>What is accepted\<close>

lemma widevine_verify_iff:
  "widevine_verify cy hmac cfg roots hmac_key revoked subject now ev = Inr v \<longleftrightarrow>
     (\<exists>p w d. android_signing_digest_playstore cfg = Some p \<and> android_signing_digest_website cfg = Some w \<and>
        chain_genuine cy (widevine_params cy cfg roots (p, w) revoked subject now ev) (re_chain_der ev) d) \<and>
     v = \<lparr>ve_challenge = re_challenge ev, ve_hmac = device_pseudonym hmac hmac_key (re_device_id ev)\<rparr>"
  by (auto simp: widevine_verify_def verify_chain_char split: option.splits)

lemma extract_evidence_sizes:
  assumes "extract_evidence cd body = Inr (Some ev)"
  shows "length (re_challenge ev) = 32 \<and> length (re_device_id ev) = 32"
  using assms by (auto simp: extract_evidence_def decode32_def split: option.splits if_splits)

text \<open>The preimage determines its parts: the fields are of fixed width.\<close>

lemma evidence_preimage_inj:
  assumes "length c = 32" "length c' = 32" "length s = 32" "length s' = 32"
  shows "WIDEVINE_DOMAIN @ c @ s @ d = WIDEVINE_DOMAIN @ c' @ s' @ d' \<longleftrightarrow> c = c' \<and> s = s' \<and> d = d'"
  using assms by auto

end
