(* ===== verification/Eligibility.thy ===== *)
theory Eligibility
  imports Outbox Std SingleUse Transactions
begin

text \<open>
  Registration vouchers (\<open>eligibility.rs\<close>, \<open>bin/voucher_mint.rs\<close>): the state of a submitted key, the
  decision table, redeeming a voucher together with the reservation it pays for, and minting.
  \<open>sha\<close> is SHA-256. Shown here: a voucher is burned at most once; redeeming burns it and reserves the
  username in one step or does neither; and minting stores every printed key, or none.
\<close>

datatype voucher_state = Redeemable | Spent | Expired | Unknown

datatype lane_choice = Instant | Standard

datatype voucher_error = VUnknown | VSpent | VExpired

fun decide :: "voucher_state option \<Rightarrow> voucher_error + lane_choice" where
  "decide None = Inr Standard"
| "decide (Some Redeemable) = Inr Instant"
| "decide (Some Spent) = Inl VSpent"
| "decide (Some Expired) = Inl VExpired"
| "decide (Some Unknown) = Inl VUnknown"

definition key_hash :: "(bytes \<Rightarrow> bytes) \<Rightarrow> string \<Rightarrow> bytes" where
  "key_hash sha key = sha (as_bytes key)"

definition select_voucher :: "bytes \<Rightarrow> (tables, voucher_row option) stmt" where
  "select_voucher h now t = (registration_vouchers t h, t)"

definition voucher_state_of :: "tables env \<Rightarrow> (bytes \<Rightarrow> bytes) \<Rightarrow> string \<Rightarrow> (tables world, string, voucher_state) prog" where
  "voucher_state_of E sha key =
     bindE (sql E (select_voucher (key_hash sha key))) (\<lambda>row.
     case row of
       None \<Rightarrow> ret Unknown
     | Some r \<Rightarrow>
         if voucher_used_at r \<noteq> None then ret Spent
         else bindE (now_utc E) (\<lambda>now. ret (if voucher_expires_at r \<le> now then Expired else Redeemable)))"

datatype redeem_error = RedeemConflict | RedeemVoucher voucher_error | RedeemDb string

definition voucher_live :: "bytes \<Rightarrow> instant \<Rightarrow> tables \<Rightarrow> bool" where
  "voucher_live h now t =
     (case registration_vouchers t h of
        None \<Rightarrow> False
      | Some r \<Rightarrow> voucher_used_at r = None \<and> voucher_expires_at r > now)"

definition burn_voucher :: "bytes \<Rightarrow> (tables, bool) stmt" where
  "burn_voucher h now t =
     (if voucher_live h now t
      then (True, t\<lparr>registration_vouchers := (registration_vouchers t)(h \<mapsto>
              (the (registration_vouchers t h))\<lparr>voucher_used_at := Some now\<rparr>)\<rparr>)
      else (False, t))"

fun lost_reason :: "voucher_state \<Rightarrow> voucher_error" where
  "lost_reason Unknown = VUnknown"
| "lost_reason Expired = VExpired"
| "lost_reason Spent = VSpent"
| "lost_reason Redeemable = VSpent"

definition redeem_and_reserve ::
  "tables env \<Rightarrow> (bytes \<Rightarrow> bytes) \<Rightarrow> string \<Rightarrow> new_reservation \<Rightarrow> (tables world, redeem_error, int) prog" where
  "redeem_and_reserve E sha key new =
     bindE (transaction E RedeemDb (\<lambda>tx_now.
       bindE (map_err RedeemDb (tx_sql E tx_now (burn_voucher (key_hash sha key)))) (\<lambda>burned.
       if \<not> burned then ret (Rollback None) else
       bindE (map_err RedeemDb (tx_sql E tx_now (insert_reserved new))) (\<lambda>r.
       case r of
         Inr i \<Rightarrow> ret (Commit (Some i))
       | Inl Conflict \<Rightarrow> throw RedeemConflict
       | Inl (InsertDb e) \<Rightarrow> throw (RedeemDb e))))) (\<lambda>done_id.
     case done_id of
       Some i \<Rightarrow> ret i
     | None \<Rightarrow>
         bindE (map_err RedeemDb (voucher_state_of E sha key)) (\<lambda>st.
         throw (RedeemVoucher (lost_reason st))))"

section \<open>Minting\<close>

record mint_args =
  ma_count :: nat
  ma_ttl_days :: nat
  ma_batch :: "string option"

datatype mint_stop = Help | MintError string

fun parse_mint_flags :: "mint_args \<Rightarrow> string list \<Rightarrow> mint_stop + mint_args" where
  "parse_mint_flags a [] = Inr a"
| "parse_mint_flags a (flag # rest) =
     (if flag = ''--count'' then
        (case rest of
           [] \<Rightarrow> Inl (MintError ''--count requires a value'')
         | v # vs \<Rightarrow> and_then (map_error (\<lambda>_. MintError ''--count: not a number'') (parse_uint (2 ^ 32) v)) (\<lambda>n.
             parse_mint_flags (a\<lparr>ma_count := n\<rparr>) vs))
      else if flag = ''--ttl-days'' then
        (case rest of
           [] \<Rightarrow> Inl (MintError ''--ttl-days requires a value'')
         | v # vs \<Rightarrow> and_then (map_error (\<lambda>_. MintError ''--ttl-days: not a number'') (parse_uint (2 ^ 32) v)) (\<lambda>n.
             parse_mint_flags (a\<lparr>ma_ttl_days := n\<rparr>) vs))
      else if flag = ''--batch'' then
        (case rest of
           [] \<Rightarrow> Inl (MintError ''--batch requires a value'')
         | v # vs \<Rightarrow> parse_mint_flags (a\<lparr>ma_batch := Some v\<rparr>) vs)
      else if flag = ''--help'' \<or> flag = ''-h'' then Inl Help
      else Inl (MintError (''unknown argument: '' @ flag)))"

definition parse_mint_args :: "string list \<Rightarrow> mint_stop + mint_args" where
  "parse_mint_args argv =
     and_then (parse_mint_flags \<lparr>ma_count = 1, ma_ttl_days = 30, ma_batch = None\<rparr> argv) (\<lambda>a.
     if ma_count a = 0 \<or> ma_ttl_days a = 0 then Inl (MintError ''--count and --ttl-days must be at least 1'') else Inr a)"

definition insert_voucher :: "bytes \<Rightarrow> string \<Rightarrow> instant \<Rightarrow> (tables, string + unit) stmt" where
  "insert_voucher h batch expires now t =
     (case registration_vouchers t h of
        Some _ \<Rightarrow> (Inl ''duplicate key value violates unique constraint'', t)
      | None \<Rightarrow> (Inr (), t\<lparr>registration_vouchers := (registration_vouchers t)(h \<mapsto>
                  \<lparr>minted_batch = batch, voucher_expires_at = expires, voucher_used_at = None\<rparr>)\<rparr>))"

text \<open>\<open>fresh\<close> is the URL-safe base64 of the random bytes drawn at a step, \<open>date\<close> the calendar date of an instant.\<close>

definition mint ::
  "tables env \<Rightarrow> (bytes \<Rightarrow> bytes) \<Rightarrow> (nat \<Rightarrow> string) \<Rightarrow> (instant \<Rightarrow> string) \<Rightarrow> mint_args \<Rightarrow> (tables world, string, string list) prog" where
  "mint E sha fresh date a =
     bindE (now_utc E) (\<lambda>now.
     let expires = now + secs (86400 * int (ma_ttl_days a));
         batch = (case ma_batch a of Some b \<Rightarrow> b | None \<Rightarrow> ''mint-'' @ date now)
     in
     bindE (mapE (\<lambda>_. remote (\<lambda>n. Inr (fresh n))) [0..<ma_count a]) (\<lambda>keys.
     bindE (transaction E (\<lambda>e. e) (\<lambda>tx_now.
       bindE (forE (\<lambda>key. bindE (tx_sql E tx_now (insert_voucher (key_hash sha key) batch expires)) lift_result) keys) (\<lambda>_.
       ret (Commit ())))) (\<lambda>_.
     ret keys)))"

section \<open>Burned once\<close>

definition voucher_spent :: "bytes \<Rightarrow> tables \<Rightarrow> bool" where
  "voucher_spent h t = (case registration_vouchers t h of None \<Rightarrow> False | Some r \<Rightarrow> voucher_used_at r \<noteq> None)"

interpretation vouchers: single_use burn_voucher voucher_spent
  by unfold_locales (auto simp: burn_voucher_def voucher_live_def voucher_spent_def split: if_splits option.splits)


definition demo_voucher_tables :: tables where
  "demo_voucher_tables = snd (insert_voucher [1] ''b'' 10 0 empty_tables)"


section \<open>Both or neither\<close>

lemma case_insert_error_run_iff:
  "(case e of Conflict \<Rightarrow> f | InsertDb m \<Rightarrow> g m) s = (Inr b, s') \<longleftrightarrow>
     (e = Conflict \<and> f s = (Inr b, s')) \<or> (\<exists>m. e = InsertDb m \<and> g m s = (Inr b, s'))"
  by (cases e) auto

text \<open>C22: Redeeming is atomic: under every interleaving, clock and fault, a redemption that returns a reservation found the
  voucher unused and unexpired, burned it and inserted that reservation, and nothing else, in one step; a redemption that
  fails, on a taken name, a lost race, an expired voucher or a database error, neither burned a voucher nor inserted a
  row.\<close>

theorem redeem_atomic:
  "case redeem_and_reserve E sha key new w of
     (Inr i, w') \<Rightarrow>
       voucher_live (key_hash sha key) (e_clock E (w_step w)) (e_others E (w_step w) (w_db w)) \<and>
       insert_reserved new (e_clock E (w_step w))
         (snd (burn_voucher (key_hash sha key) (e_clock E (w_step w)) (e_others E (w_step w) (w_db w)))) = (Inr i, w_db w')
   | (Inl e, w') \<Rightarrow> w_db w' = e_others E (w_step w) (w_db w) \<or> (\<exists>n. w_db w' = e_others E n (e_others E (w_step w) (w_db w)))"
proof -
  let ?tx = "transaction E RedeemDb (\<lambda>tx_now.
       bindE (map_err RedeemDb (tx_sql E tx_now (burn_voucher (key_hash sha key)))) (\<lambda>burned.
       if \<not> burned then ret (Rollback None) else
       bindE (map_err RedeemDb (tx_sql E tx_now (insert_reserved new))) (\<lambda>r.
       case r of
         Inr i \<Rightarrow> ret (Commit (Some i))
       | Inl Conflict \<Rightarrow> throw RedeemConflict
       | Inl (InsertDb e) \<Rightarrow> throw (RedeemDb e))))"
  obtain r w1 where tx: "?tx w = (r, w1)" by (cases "?tx w")
  from tx show ?thesis
  proof (cases rule: transaction_cases)
    case (failed e)
    then show ?thesis using tx by (simp add: redeem_and_reserve_def bindE_def)
  next
    case (rolled_back a w2)
    then have "a = None" by (auto simp: inr_iffs case_run_iffs case_insert_error_run_iff split: if_splits)
    with rolled_back tx show ?thesis
      by (auto simp: redeem_and_reserve_def bindE_def voucher_state_of_def sql_def now_utc_def remote_def map_err_def ret_def
          throw_def select_voucher_def Let_def split: option.splits)
  next
    case (committed a w2)
    then obtain i where "a = Some i"
      "voucher_live (key_hash sha key) (e_clock E (w_step w)) (e_others E (w_step w) (w_db w))"
      "insert_reserved new (e_clock E (w_step w))
         (snd (burn_voucher (key_hash sha key) (e_clock E (w_step w)) (e_others E (w_step w) (w_db w)))) = (Inr i, w_db w2)"
      by (auto simp: inr_iffs case_run_iffs case_insert_error_run_iff tx_sql_Inr_iff burn_voucher_def split: if_splits)
    then show ?thesis using tx committed by (simp add: redeem_and_reserve_def bindE_def ret_def)
  qed
qed

section \<open>Minting stores every key it prints\<close>

lemma insert_vouchers_run:
  assumes "forE (\<lambda>key. bindE (tx_sql E tx_now (insert_voucher (key_hash sha key) batch expires)) lift_result) keys w = (Inr u, w')"
  shows "distinct (map (key_hash sha) keys) \<and> w_step w' = w_step w + length keys \<and>
    registration_vouchers (w_db w') = (\<lambda>h. if h \<in> key_hash sha ` set keys
      then Some \<lparr>minted_batch = batch, voucher_expires_at = expires, voucher_used_at = None\<rparr> else registration_vouchers (w_db w) h) \<and>
    (\<forall>h \<in> key_hash sha ` set keys. registration_vouchers (w_db w) h = None)"
  using assms
proof (induction keys arbitrary: w)
  case (Cons key keys)
  then obtain t1 where ins: "insert_voucher (key_hash sha key) batch expires tx_now (w_db w) = (Inr (), t1)"
    and rest: "forE (\<lambda>key. bindE (tx_sql E tx_now (insert_voucher (key_hash sha key) batch expires)) lift_result) keys
      (w\<lparr>w_db := t1, w_step := Suc (w_step w)\<rparr>) = (Inr u, w')"
    by (auto simp: inr_iffs tx_sql_Inr_iff)
  from Cons.IH [OF rest] ins show ?case
    by (auto simp: insert_voucher_def fun_eq_iff split: option.splits if_splits)
qed (simp add: inr_iffs)

lemma mapE_remote_run:
  "mapE (\<lambda>_. remote (\<lambda>n. Inr (f n))) xs w = (Inr (map f [w_step w..<w_step w + length xs]), w\<lparr>w_step := w_step w + length xs\<rparr>)"
  by (induction xs arbitrary: w) (simp_all add: ret_def bindE_def remote_def upt_conv_Cons del: upt_Suc)

theorem mint_stores_all:
  "case mint E sha fresh date a w of
     (Inr keys, w') \<Rightarrow> length keys = ma_count a \<and> distinct (map (key_hash sha) keys) \<and>
       list_all (\<lambda>key. \<exists>r. registration_vouchers (w_db w') (key_hash sha key) = Some r \<and> voucher_used_at r = None \<and>
         voucher_expires_at r = e_clock E (w_step w) + secs (86400 * int (ma_ttl_days a))) keys
   | (Inl e, w') \<Rightarrow> \<exists>n. w_db w' = e_others E n (w_db w)"
proof -
  let ?exp = "e_clock E (w_step w) + secs (86400 * int (ma_ttl_days a))"
  let ?batch = "case ma_batch a of Some b \<Rightarrow> b | None \<Rightarrow> ''mint-'' @ date (e_clock E (w_step w))"
  let ?w1 = "w\<lparr>w_step := Suc (w_step w) + ma_count a\<rparr>"
  let ?keys = "map fresh [Suc (w_step w)..<Suc (w_step w) + ma_count a]"
  let ?body = "\<lambda>tx_now. bindE (forE (\<lambda>key. bindE (tx_sql E tx_now (insert_voucher (key_hash sha key) ?batch ?exp)) lift_result) ?keys)
      (\<lambda>_. ret (Commit ()))"
  obtain r w' where tx: "transaction E (\<lambda>e. e) ?body ?w1 = (r, w')" by (cases "transaction E (\<lambda>e. e) ?body ?w1")
  have run: "mint E sha fresh date a w = (case r of Inl e \<Rightarrow> (Inl e, w') | Inr _ \<Rightarrow> (Inr ?keys, w'))"
    using tx by (cases r) (simp_all add: mint_def bindE_def now_utc_def remote_def mapE_remote_run Let_def ret_def)
  from tx show ?thesis
  proof (cases rule: transaction_cases)
    case (failed e)
    then show ?thesis using run by auto
  next
    case (rolled_back x w2)
    then show ?thesis by (simp add: inr_iffs)
  next
    case (committed x w2)
    then obtain u where "forE (\<lambda>key. bindE (tx_sql E (e_clock E (w_step ?w1)) (insert_voucher (key_hash sha key) ?batch ?exp)) lift_result) ?keys
        (?w1\<lparr>w_db := e_others E (w_step ?w1) (w_db ?w1), w_step := Suc (w_step ?w1)\<rparr>) = (Inr u, w2)"
      by (auto simp: inr_iffs)
    from insert_vouchers_run [OF this] show ?thesis using run committed(2,3) by (simp add: list_all_iff)
  qed
qed

end
