(* ===== verification/Register.thy ===== *)
theory Register
  imports Sessions People RateLimit DeviceCheck Widevine Eligibility Queue
begin

text \<open>
  Registration of a username (\<open>usernames.rs\<close>, \<open>usernames/register.rs\<close>, \<open>usernames/available.rs\<close>,
  \<open>usernames/error.rs\<close>, \<open>http-common/src/error.rs\<close>): the availability check, the claim handler with its
  voucher, Widevine and DeviceCheck gates, and the insert of the reservation. The state of the
  handler is the database with its steps, the revocation-list cache, the cached DeviceCheck token
  and the credits of the rate limiter. JSON decoding, the governor's quota and random choices are
  parameters. Shown here: inserting a reservation is atomic with the device it spends, an iOS device
  gets at most one free registration, an accepted claim is stored with the payload that was
  validated, and the availability answer and the digit selection agree.
\<close>

section \<open>Errors and responses\<close>

datatype usernames_error =
  URateLimited nat
| InvalidBody "field_error list"
| InvalidQuery "field_error list"
| InvalidHeader "field_error list"
| MalformedJson
| PreferredDigitsTaken string string
| NoDigitsAvailable string
| UsernameTaken string string
| FullNameUnavailable string
| NoQueueEntry
| UVoucher voucher_error
| PersistenceFailed
| DeviceTokenRequired
| DeviceCheckUnavailable
| DeviceRegistrationFailed
| DeviceEvidenceMalformed
| DeviceEvidenceInvalid
| DeviceEvidenceUnavailable
| UInternal string

record http_response =
  hr_status :: nat
  hr_body :: json
  hr_headers :: "(string \<times> string) list"

definition error_body :: "nat \<Rightarrow> string \<Rightarrow> field_error list \<Rightarrow> (string \<times> string) list \<Rightarrow> http_response" where
  "error_body status message errs extra =
     \<lparr>hr_status = status,
      hr_body = JObject ((''error'', JString message) #
        (if errs = [] then []
         else [(''fields'', JArray (map (\<lambda>e. JObject [(''field'', JString (fe_field e)), (''message'', JString (fe_message e))]) errs))])),
      hr_headers = extra\<rparr>"

definition error_message :: "nat \<Rightarrow> string \<Rightarrow> http_response" where
  "error_message status message = error_body status message [] []"

definition rate_limited :: "nat \<Rightarrow> http_response" where
  "rate_limited n = error_body 429 (''Rate limit exceeded. Please retry after '' @ nat_to_string n @ '' seconds.'') []
     [(''retry-after'', nat_to_string n)]"

definition coded_error :: "nat \<Rightarrow> string \<Rightarrow> string \<Rightarrow> http_response" where
  "coded_error status code message =
     \<lparr>hr_status = status, hr_body = JObject [(''error'', JString code), (''message'', JString message)], hr_headers = []\<rparr>"

fun voucher_message :: "voucher_error \<Rightarrow> string" where
  "voucher_message VUnknown = ''Voucher not found''"
| "voucher_message VSpent = ''Voucher already used''"
| "voucher_message VExpired = ''Voucher expired''"

fun usernames_error_response :: "usernames_error \<Rightarrow> http_response" where
  "usernames_error_response (URateLimited n) = rate_limited n"
| "usernames_error_response (InvalidBody es) = error_body 400 ''The request body contains invalid values.'' es []"
| "usernames_error_response (InvalidQuery es) = error_body 400 ''The request query contains invalid values.'' es []"
| "usernames_error_response (InvalidHeader es) = error_body 400 ''The request headers contain invalid values.'' es []"
| "usernames_error_response MalformedJson = error_message 400 ''Malformed JSON in request body''"
| "usernames_error_response (PreferredDigitsTaken digits base) =
     error_message 409 (''Preferred digits '' @ digits @ '' already taken for username '' @ base)"
| "usernames_error_response (NoDigitsAvailable base) = error_message 409 (''No digits available for username '' @ base @ ''.'')"
| "usernames_error_response (FullNameUnavailable reserved) =
     error_message 409 (''The full name '' @ reserved @ '' is not available to reserve. Choose another name.'')"
| "usernames_error_response (UsernameTaken base digits) =
     error_message 409 (''Username '' @ base @ ''.'' @ digits @ '' already taken. Please try different digits.'')"
| "usernames_error_response NoQueueEntry = error_message 404 ''No queue entry found''"
| "usernames_error_response (UVoucher reason) = error_message 400 (voucher_message reason)"
| "usernames_error_response PersistenceFailed = error_message 500 ''Failed to persist username registration''"
| "usernames_error_response DeviceTokenRequired = error_message 401 ''A valid Device-Token-iOS header is required.''"
| "usernames_error_response DeviceCheckUnavailable = error_message 502 ''iOS DeviceCheck verification failed''"
| "usernames_error_response DeviceRegistrationFailed =
     error_message 503 ''Failed to mark iOS device as registered with Apple DeviceCheck''"
| "usernames_error_response DeviceEvidenceMalformed = coded_error 400 ''DEVICE_EVIDENCE_MALFORMED'' ''device evidence malformed''"
| "usernames_error_response DeviceEvidenceInvalid = coded_error 403 ''DEVICE_EVIDENCE_INVALID'' ''device evidence invalid''"
| "usernames_error_response DeviceEvidenceUnavailable =
     coded_error 503 ''DEVICE_EVIDENCE_UNAVAILABLE'' ''device evidence verification unavailable''"
| "usernames_error_response (UInternal _) = error_message 500 ''Internal server error. Please try again.''"

fun evidence_rejected :: "evidence_error \<Rightarrow> usernames_error" where
  "evidence_rejected (EvMalformed _) = DeviceEvidenceMalformed"
| "evidence_rejected (EvInvalid _) = DeviceEvidenceInvalid"

section \<open>State and dependencies\<close>

record reg_deps =
  rg_auth :: auth_deps
  rg_people :: people_rpc
  rg_device_check :: "dc_client option"
  rg_hmac :: "bytes \<Rightarrow> bytes \<Rightarrow> bytes"
  rg_json :: "bytes \<Rightarrow> json option"
  rg_decode :: "json \<Rightarrow> (string \<times> string) + register_request"
  rg_quota :: "nat \<Rightarrow> string \<Rightarrow> nat + unit"
  rg_random :: "nat \<Rightarrow> nat"
  rg_timeout :: "nat \<Rightarrow> bool"
  rg_outbox_first :: "nat \<Rightarrow> bool"

abbreviation rg_env :: "reg_deps \<Rightarrow> tables env" where "rg_env rd \<equiv> ax_env (rg_auth rd)"
abbreviation rg_config :: "reg_deps \<Rightarrow> config" where "rg_config rd \<equiv> ax_config (rg_auth rd)"
abbreviation rg_codecs :: "reg_deps \<Rightarrow> codecs" where "rg_codecs rd \<equiv> ax_codecs (rg_auth rd)"

type_synonym reg_state = "tables dc_state \<times> crl_snapshot option"
type_synonym 'a rprog = "(reg_state, usernames_error, 'a) prog"

text \<open>Programs on parts of the state: the database, the database with the DeviceCheck token, the database
  with the revocation list.\<close>

definition at_world :: "(tables world, 'e, 'a) prog \<Rightarrow> (reg_state, 'e, 'a) prog" where
  "at_world m = on_first (on_first m)"

definition on_crl :: "(tables crl_state, 'e, 'a) prog \<Rightarrow> (reg_state, 'e, 'a) prog" where
  "on_crl m = (\<lambda>((w, j), c). case m (w, c) of (r, (w', c')) \<Rightarrow> (r, ((w', j), c')))"

definition rdb :: "reg_deps \<Rightarrow> (tables, 'a) stmt \<Rightarrow> (reg_state, string, 'a) prog" where
  "rdb rd st = at_world (sql (rg_env rd) st)"

section \<open>Names\<close>

definition is_valid_base :: "string \<Rightarrow> bool" where
  "is_valid_base base \<longleftrightarrow> MIN_BASE_LEN \<le> length base \<and> length base \<le> MAX_BASE_LEN \<and> list_all is_ascii_lowercase base"

definition available_digits :: "nat set \<Rightarrow> nat list" where
  "available_digits tk = filter (\<lambda>d. d \<notin> tk) [1..<100]"

definition pending_digits :: "reg_deps \<Rightarrow> string \<Rightarrow> (reg_state, usernames_error, nat set) prog" where
  "pending_digits rd base =
     bindE (map_err UInternal (rdb rd (allocated_discriminators base))) (\<lambda>r. lift_result (map_error UInternal r))"

text \<open>The two futures of the \<open>try_join!\<close> are one chain query and one statement each; either may go first.\<close>

definition merged_base_state :: "reg_deps \<Rightarrow> string \<Rightarrow> bytes \<Rightarrow> base_state rprog" where
  "merged_base_state rd base at =
     (let chain_read = map_err UInternal (at_world (base_state_at (rg_people rd) base at));
          merge = (\<lambda>chain pending. chain\<lparr>taken := taken chain \<union> pending\<rparr>) in
      bindE (at_world (remote (\<lambda>n. Inr (rg_outbox_first rd n)))) (\<lambda>outbox_first.
      if outbox_first
      then bindE (pending_digits rd base) (\<lambda>pending. bindE chain_read (\<lambda>chain. ret (merge chain pending)))
      else bindE chain_read (\<lambda>chain. bindE (pending_digits rd base) (\<lambda>pending. ret (merge chain pending)))))"

definition current_base_state :: "reg_deps \<Rightarrow> string \<Rightarrow> base_state rprog" where
  "current_base_state rd base =
     bindE (map_err UInternal (at_world (at_current_block (rg_people rd)))) (merged_base_state rd base)"

definition reservation_state_of :: "reg_deps \<Rightarrow> string \<Rightarrow> reservation_state rprog" where
  "reservation_state_of rd name = map_err UInternal (at_world (name_reservation_state (rg_people rd) name))"

definition check_rate_limit :: "reg_deps \<Rightarrow> string \<Rightarrow> (reg_state \<times> credits, usernames_error, unit) prog" where
  "check_rate_limit rd subject =
     (let key = ''/api/v1/usernames:'' @ subject in
      bindE (on_first (at_world (remote (\<lambda>n. Inr (rg_quota rd n key))))) (\<lambda>answer. \<lambda>(s, c).
      case allow answer key c of
        (Inr _, c') \<Rightarrow> (Inr (), (s, c'))
      | (Inl wait, c') \<Rightarrow> (Inl (URateLimited wait), (s, c'))))"

definition parse_json_body :: "reg_deps \<Rightarrow> bytes \<Rightarrow> usernames_error + json" where
  "parse_json_body rd body = ok_or MalformedJson (rg_json rd body)"

section \<open>Availability\<close>

record name_availability =
  na_status :: string
  na_digits :: "nat list option"

abbreviation MAX_USERNAMES :: nat where "MAX_USERNAMES \<equiv> 100"

fun usernames_items :: "nat \<Rightarrow> json list \<Rightarrow> field_error list \<times> string list" where
  "usernames_items i [] = ([], [])"
| "usernames_items i (item # items) =
     (case usernames_items (Suc i) items of (errs, names) \<Rightarrow>
        case item of
          JString s \<Rightarrow> (errs, s # names)
        | other \<Rightarrow> (\<lparr>fe_message = expected_msg ''string'' (type_name other),
                   fe_field = ''usernames['' @ nat_to_string i @ '']''\<rparr> # errs, names))"

definition validate_usernames :: "json \<Rightarrow> usernames_error + string list" where
  "validate_usernames v =
     (let field = json_get ''usernames'' v in
      case field of
        Some (JArray items) \<Rightarrow>
          (case usernames_items 0 items of (errs, names) \<Rightarrow>
             let errs' = errs @ (if length items > MAX_USERNAMES
                   then [\<lparr>fe_message = at_most_items MAX_USERNAMES, fe_field = ''usernames''\<rparr>] else [])
             in if errs' \<noteq> [] then Inl (InvalidBody errs') else Inr names)
      | _ \<Rightarrow> Inl (InvalidBody [\<lparr>fe_message = expected_msg ''array'' (received_name field), fe_field = ''usernames''\<rparr>]))"

definition availability_of :: "base_state \<Rightarrow> name_availability" where
  "availability_of b =
     (let digits = available_digits (taken b)
      in if digits = [] \<or> rejects_reservations b then \<lparr>na_status = ''EXHAUSTED'', na_digits = None\<rparr>
         else \<lparr>na_status = ''AVAILABLE'', na_digits = Some digits\<rparr>)"

definition availability_for :: "reg_deps \<Rightarrow> string \<Rightarrow> name_availability rprog" where
  "availability_for rd base =
     (if \<not> is_valid_base base then ret \<lparr>na_status = ''INVALID'', na_digits = None\<rparr>
      else bindE (current_base_state rd base) (\<lambda>b. ret (availability_of b)))"

definition check_available :: "reg_deps \<Rightarrow> auth_subject \<Rightarrow> bytes \<Rightarrow> (reg_state \<times> credits, usernames_error, string \<rightharpoonup> name_availability) prog" where
  "check_available rd auth body =
     bindE (check_rate_limit rd (as_subject auth)) (\<lambda>_.
     bindE (lift_result (parse_json_body rd body)) (\<lambda>v.
     bindE (lift_result (validate_usernames v)) (\<lambda>names.
     bindE (mapE (\<lambda>base. on_first (availability_for rd base)) names) (\<lambda>results.
     ret (map_of (rev (zip names results)))))))"

section \<open>Headers and digits\<close>

abbreviation DEVICE_TOKEN_HEADER :: string where "DEVICE_TOKEN_HEADER \<equiv> ''device-token-ios''"

definition is_base64_char :: "char \<Rightarrow> bool" where
  "is_base64_char c \<longleftrightarrow> char_between 97 c 122 \<or> char_between 65 c 90 \<or>
     char_between 48 c 57 \<or> c = CHR ''+'' \<or> c = CHR ''/''"

definition is_base64 :: "string \<Rightarrow> bool" where
  "is_base64 s \<longleftrightarrow> s = [] \<or> length s mod 4 = 0 \<and>
     (let core = trim_end_matches (CHR ''='') s in length s - length core \<le> 2 \<and> list_all is_base64_char core)"

definition validate_device_token_header :: "headers \<Rightarrow> usernames_error + unit" where
  "validate_device_token_header hs =
     (case hs DEVICE_TOKEN_HEADER of
        None \<Rightarrow> Inr ()
      | Some raw \<Rightarrow>
          if (case hv_str raw of Some s \<Rightarrow> is_base64 s | None \<Rightarrow> False) then Inr ()
          else Inl (InvalidHeader [\<lparr>fe_message = ''Invalid base64-encoded string'', fe_field = ''Device-Token-iOS''\<rparr>]))"

definition device_token_bytes :: "codecs \<Rightarrow> headers \<Rightarrow> bytes option" where
  "device_token_bytes cd hs =
     (case header_text hs DEVICE_TOKEN_HEADER of
        None \<Rightarrow> None
      | Some raw \<Rightarrow> if raw = [] then None else (case cd_b64 cd raw of Inr bs \<Rightarrow> Some bs | Inl _ \<Rightarrow> None))"

text \<open>\<open>rnd\<close> is the random index of \<open>choose\<close>, reduced to the length of the slice.\<close>

definition select_digit :: "nat \<Rightarrow> nat set \<Rightarrow> nat option \<Rightarrow> string \<Rightarrow> usernames_error + nat" where
  "select_digit rnd tk preferred base =
     (case preferred of
        Some d \<Rightarrow> if d \<in> tk then Inl (PreferredDigitsTaken (two_digits d) base) else Inr d
      | None \<Rightarrow>
          let available = available_digits tk
          in if available = [] then Inl (NoDigitsAvailable base) else Inr (available ! (rnd mod length available)))"

definition build_reservation :: "auth_subject \<Rightarrow> parsed_register \<Rightarrow> string \<Rightarrow> string \<Rightarrow> new_reservation" where
  "build_reservation auth p digits full =
     \<lparr>n_account_id = as_subject auth, n_candidate_account_id = pr_candidate_account_id p, n_base = pr_username p,
      n_digits = digits, n_full_username = full, n_candidate_signature = pr_candidate_signature p,
      n_ring_vrf_key = pr_ring_vrf_key p, n_proof_of_ownership = pr_proof_of_ownership p,
      n_consumer_registration_signature = pr_consumer_registration_signature p, n_identifier_key = pr_identifier_key p,
      n_dotns_signature = map_option pd_signature (pr_dotns p), n_dotns_signed_at = map_option pd_signed_at (pr_dotns p),
      n_reserved_username = Option.bind (pr_dotns p) pd_reserved_username,
      n_payload_version = payload_version_u16 (pr_payload_version p)\<rparr>"

section \<open>The Widevine gate\<close>

datatype widevine_gate = GateProceed "bytes option" | GateIneligible

definition gate_reject :: "bool \<Rightarrow> evidence_error \<Rightarrow> widevine_gate rprog" where
  "gate_reject enforce e = (if enforce then throw (evidence_rejected e) else ret (GateProceed None))"

definition subject_pubkey :: "codecs \<Rightarrow> string \<Rightarrow> account option" where
  "subject_pubkey cd subject =
     (case strip_prefix ''0x'' subject of
        None \<Rightarrow> None
      | Some raw \<Rightarrow> (case cd_hex cd raw of Inr bs \<Rightarrow> try_array 32 bs | Inl _ \<Rightarrow> None))"

text \<open>The part of the gate after the evidence verified.\<close>

definition gate_dedup :: "reg_deps \<Rightarrow> bool \<Rightarrow> verified_evidence \<Rightarrow> widevine_gate rprog" where
  "gate_dedup rd enforce v =
     bindE (attempt (rdb rd (challenge_consume (ve_challenge v)))) (\<lambda>consumed.
     case consumed of
       Inl e \<Rightarrow> if enforce then throw (UInternal e) else ret (GateProceed None)
     | Inr False \<Rightarrow> gate_reject enforce (EvInvalid ''evidence challenge is unknown, spent, or expired'')
     | Inr True \<Rightarrow>
         bindE (attempt (rdb rd (seen (ve_hmac v)))) (\<lambda>looked.
         case looked of
           Inl e \<Rightarrow> if enforce then throw (UInternal e) else ret (GateProceed None)
         | Inr was_seen \<Rightarrow>
             if \<not> enforce then ret (GateProceed None)
             else if was_seen then ret GateIneligible else ret (GateProceed (Some (ve_hmac v)))))"

definition gate_evidence :: "reg_deps \<Rightarrow> widevine_config \<Rightarrow> auth_subject \<Rightarrow> raw_evidence \<Rightarrow> widevine_gate rprog" where
  "gate_evidence rd wv auth raw =
     bindE (attempt (on_crl (crl_serials (rg_auth rd)))) (\<lambda>crl.
     case crl of
       Inl e \<Rightarrow> if wv_enforce wv then throw DeviceEvidenceUnavailable else ret (GateProceed None)
     | Inr revoked \<Rightarrow>
         (case subject_pubkey (rg_codecs rd) (as_subject auth) of
            None \<Rightarrow> gate_reject (wv_enforce wv) (EvInvalid ''JWT subject is not a 32-byte account key'')
          | Some subject \<Rightarrow>
              bindE (at_world (unix_now (rg_auth rd))) (\<lambda>now.
              case widevine_verify (ax_crypto (rg_auth rd)) (rg_hmac rd) (rg_config rd) (ax_google_roots (rg_auth rd))
                     (wv_hmac_key wv) revoked subject now raw of
                Inl e \<Rightarrow> gate_reject (wv_enforce wv) e
              | Inr v \<Rightarrow> gate_dedup rd (wv_enforce wv) v)))"

definition run_widevine_gate :: "reg_deps \<Rightarrow> auth_subject \<Rightarrow> json \<Rightarrow> widevine_gate rprog" where
  "run_widevine_gate rd auth body =
     (case widevine (rg_config rd) of
        None \<Rightarrow> ret (GateProceed None)
      | Some wv \<Rightarrow>
          (case extract_evidence (rg_codecs rd) body of
             Inl e \<Rightarrow> gate_reject (wv_enforce wv) e
           | Inr None \<Rightarrow>
               if wv_enforce wv \<and> as_platform auth = Some ''android'' then ret GateIneligible
               else ret (GateProceed None)
           | Inr (Some raw) \<Rightarrow> gate_evidence rd wv auth raw))"

section \<open>Storing the reservation\<close>

datatype reserve_outcome = ReservedAs int | DeviceAlreadyClaimed

text \<open>A handler ends with an error response or with a panic.\<close>

datatype handler_stop = Rejected usernames_error | Panicked string

definition insert_reservation :: "new_reservation \<Rightarrow> nat option \<Rightarrow> (tables, insert_error + int) stmt" where
  "insert_reservation new queue_group =
     (case queue_group of Some g \<Rightarrow> insert_queued new (int g) | None \<Rightarrow> insert_reserved new)"

fun insert_failed :: "new_reservation \<Rightarrow> insert_error \<Rightarrow> usernames_error" where
  "insert_failed new Conflict = UsernameTaken (n_base new) (n_digits new)"
| "insert_failed new (InsertDb e) = PersistenceFailed"

definition reserve_with_device ::
  "reg_deps \<Rightarrow> new_reservation \<Rightarrow> nat option \<Rightarrow> bytes \<Rightarrow> (tables world, usernames_error, reserve_outcome) prog" where
  "reserve_with_device rd new queue_group device =
     transaction (rg_env rd) (\<lambda>_. PersistenceFailed) (\<lambda>tx_now.
       bindE (map_err (\<lambda>_. PersistenceFailed) (tx_sql (rg_env rd) tx_now (insert_reservation new queue_group))) (\<lambda>r.
       case r of
         Inl e \<Rightarrow> throw (insert_failed new e)
       | Inr i \<Rightarrow>
           bindE (map_err (\<lambda>_. PersistenceFailed) (tx_sql (rg_env rd) tx_now (insert_pending device i))) (\<lambda>d.
           case d of
             Inr _ \<Rightarrow> ret (Commit (ReservedAs i))
           | Inl Seen \<Rightarrow> ret (Rollback DeviceAlreadyClaimed)
           | Inl (DeviceDb e) \<Rightarrow> throw PersistenceFailed)))"

text \<open>\<open>pg_advisory_xact_lock\<close> changes no table; that it serialises the transactions is how they are composed.\<close>

definition advisory_lock :: "(tables, unit) stmt" where
  "advisory_lock now t = ((), t)"

definition reserve_free_ios ::
  "reg_deps \<Rightarrow> dc_client \<Rightarrow> new_reservation \<Rightarrow> nat option \<Rightarrow> bytes \<Rightarrow> (tables dc_state, usernames_error, reserve_outcome) prog" where
  "reserve_free_ios rd dc new queue_group token =
     transaction_on (rg_env rd) (\<lambda>_. PersistenceFailed) (\<lambda>tx_now.
       bindE (map_err (\<lambda>_. PersistenceFailed) (on_first (tx_sql (rg_env rd) tx_now advisory_lock))) (\<lambda>_.
       bindE (map_err (\<lambda>_. DeviceCheckUnavailable) (already_used (rg_env rd) dc token)) (\<lambda>used.
       if used then ret (Rollback DeviceAlreadyClaimed) else
       bindE (map_err (\<lambda>_. PersistenceFailed) (on_first (tx_sql (rg_env rd) tx_now (insert_reservation new queue_group)))) (\<lambda>r.
       case r of
         Inl e \<Rightarrow> throw (insert_failed new e)
       | Inr i \<Rightarrow>
           bindE (map_err (\<lambda>_. DeviceRegistrationFailed) (register_device (rg_env rd) dc token)) (\<lambda>_.
           ret (Commit (ReservedAs i)))))))"

definition reserve_plain ::
  "reg_deps \<Rightarrow> new_reservation \<Rightarrow> nat option \<Rightarrow> (tables world, usernames_error, reserve_outcome) prog" where
  "reserve_plain rd new queue_group =
     bindE (map_err (\<lambda>_. PersistenceFailed) (sql (rg_env rd) (insert_reservation new queue_group))) (\<lambda>r.
     case r of Inr i \<Rightarrow> ret (ReservedAs i) | Inl e \<Rightarrow> throw (insert_failed new e))"

definition reserve ::
  "reg_deps \<Rightarrow> new_reservation \<Rightarrow> bytes option \<Rightarrow> nat option \<Rightarrow> bytes option \<Rightarrow> (reg_state, handler_stop, reserve_outcome) prog" where
  "reserve rd new mark_token queue_group widevine_device =
     (case widevine_device of
        Some device \<Rightarrow> map_err Rejected (at_world (reserve_with_device rd new queue_group device))
      | None \<Rightarrow>
          (case mark_token of
             None \<Rightarrow> map_err Rejected (at_world (reserve_plain rd new queue_group))
           | Some token \<Rightarrow>
               (case rg_device_check rd of
                  None \<Rightarrow> throw (Panicked ''a mark token implies DeviceCheck is enabled'')
                | Some dc \<Rightarrow> map_err Rejected (on_first (reserve_free_ios rd dc new queue_group token)))))"

section \<open>The handler\<close>

record register_response =
  rp_base_username :: string
  rp_digits :: string
  rp_username :: string
  rp_device_check_available :: "bool option"
  rp_registration_outcome :: "string option"
  rp_queue :: "queue_status option"

text \<open>A \<open>202\<close> with its body, or the \<open>200\<close> of an ineligible device.\<close>

datatype register_answer = Accepted register_response | Answered http_response

definition device_ineligible :: http_response where
  "device_ineligible = \<lparr>hr_status = 200, hr_body = JObject [(''registrationOutcome'', JString ''PAYMENT_REQUIRED'')], hr_headers = []\<rparr>"

abbreviation rejecting :: "'a rprog \<Rightarrow> (reg_state, handler_stop, 'a) prog" where
  "rejecting m \<equiv> map_err Rejected m"

text \<open>Lines 158 to 189 after the rate limit: everything up to the row to insert.\<close>

definition full_name_check :: "reg_deps \<Rightarrow> parsed_register \<Rightarrow> base_state \<Rightarrow> unit rprog" where
  "full_name_check rd p b =
     (case reserved_name p of
        None \<Rightarrow> ret ()
      | Some reserved \<Rightarrow>
          bindE (if reserved = pr_username p then ret (reservation_of b) else reservation_state_of rd reserved) (\<lambda>r.
          if rejects r then throw (FullNameUnavailable reserved) else ret ()))"

definition prepare_claim :: "reg_deps \<Rightarrow> auth_subject \<Rightarrow> headers \<Rightarrow> bytes \<Rightarrow> (json \<times> parsed_register \<times> string \<times> new_reservation) rprog" where
  "prepare_claim rd auth hs body =
     bindE (lift_result (validate_device_token_header hs)) (\<lambda>_.
     bindE (lift_result (parse_json_body rd body)) (\<lambda>v.
     bindE (map_err UInternal (at_world (at_current_block (rg_people rd)))) (\<lambda>at.
     bindE (at_world (unix_now (rg_auth rd))) (\<lambda>now.
     bindE (lift_result (map_error InvalidBody (validate_register (rg_decode rd) (ax_sr25519 (rg_auth rd)) (rg_codecs rd)
       (rg_config rd) (account_signature_form (pc_constants (rg_people rd) at) ''PeopleLite'') now v))) (\<lambda>p.
     bindE (merged_base_state rd (pr_username p) at) (\<lambda>b.
     bindE (full_name_check rd p b) (\<lambda>_.
     bindE (at_world (remote (\<lambda>n. Inr (rg_random rd n)))) (\<lambda>rnd.
     bindE (lift_result (select_digit rnd (taken b) (pr_preferred_digits p) (pr_username p))) (\<lambda>digit.
     let digits = two_digits digit
     in ret (v, p, digits, build_reservation auth p digits (pr_username p @ ''.'' @ digits)))))))))))"

text \<open>A voucher decides the claim before any device gate.\<close>

fun redeem_failed :: "new_reservation \<Rightarrow> string \<Rightarrow> redeem_error \<Rightarrow> usernames_error" where
  "redeem_failed new digits RedeemConflict = UsernameTaken (n_base new) digits"
| "redeem_failed new digits (RedeemVoucher reason) = UVoucher reason"
| "redeem_failed new digits (RedeemDb e) = PersistenceFailed"

definition claim_with_voucher :: "reg_deps \<Rightarrow> string \<Rightarrow> string \<Rightarrow> new_reservation \<Rightarrow> register_answer rprog" where
  "claim_with_voucher rd key digits new =
     (let sha = cy_sha256 (ax_crypto (rg_auth rd)) in
      bindE (map_err UInternal (at_world (voucher_state_of (rg_env rd) sha key))) (\<lambda>st.
      case decide (Some st) of
        Inl reason \<Rightarrow> throw (UVoucher reason)
      | Inr Standard \<Rightarrow> throw (UInternal ''eligibility returned the standard lane for a submitted voucher'')
      | Inr Instant \<Rightarrow>
          bindE (map_err (redeem_failed new digits) (at_world (redeem_and_reserve (rg_env rd) sha key new))) (\<lambda>_.
          ret (Accepted \<lparr>rp_base_username = n_base new, rp_digits = digits, rp_username = n_full_username new,
             rp_device_check_available = None, rp_registration_outcome = Some ''INSTANT'', rp_queue = None\<rparr>))))"

text \<open>The DeviceCheck gate: \<open>Inl\<close> answers the request, \<open>Inr\<close> the token to mark and the advisory availability.\<close>

definition device_check_gate ::
  "reg_deps \<Rightarrow> auth_subject \<Rightarrow> headers \<Rightarrow> (reg_state, handler_stop, http_response + bytes option \<times> bool option) prog" where
  "device_check_gate rd auth hs =
     (case (if as_platform auth = Some ''ios'' then rg_device_check rd else None) of
        None \<Rightarrow> ret (Inr (None, None))
      | Some dc \<Rightarrow>
          let token = device_token_bytes (rg_codecs rd) hs in
          bindE (on_first (evaluate (rg_env rd) dc token)) (\<lambda>verdict.
          case decide_gate verdict (enforce_auth (rg_config rd)) of
            Blocked \<Rightarrow> ret (Inl device_ineligible)
          | TokenRequired \<Rightarrow> throw (Rejected DeviceTokenRequired)
          | Unavailable cause \<Rightarrow> throw (Rejected DeviceCheckUnavailable)
          | Register \<Rightarrow>
              (case token of
                 None \<Rightarrow> throw (Panicked ''Available verdict implies a device token'')
               | Some tok \<Rightarrow> ret (Inr (Some tok, Some True)))
          | Proceed available \<Rightarrow> ret (Inr (None, available))))"

definition read_intake_group :: "reg_deps \<Rightarrow> string \<Rightarrow> (reg_state, 'e, nat) prog" where
  "read_intake_group rd subject =
     (let hexd = (\<lambda>s. case cd_hex (rg_codecs rd) s of Inr bs \<Rightarrow> Some bs | Inl _ \<Rightarrow> None) in
      case parse_subject hexd subject of
        None \<Rightarrow> ret (intake_group hexd (\<lambda>_. None) subject)
      | Some account \<Rightarrow>
          bindE (attempt (at_world (free_balance (rg_people rd) account))) (\<lambda>r.
          bindE (at_world (remote (\<lambda>n. Inr (rg_timeout rd n)))) (\<lambda>timed_out.
          ret (intake_group hexd (\<lambda>_. if timed_out then None else Some r) subject))))"

definition intake_lane :: "reg_deps \<Rightarrow> string \<Rightarrow> (reg_state, 'e, nat option) prog" where
  "intake_lane rd subject =
     (if queue_enabled (rg_config rd) then bindE (read_intake_group rd subject) (\<lambda>g. ret (Some g)) else ret None)"

definition queue_standing :: "reg_deps \<Rightarrow> nat option \<Rightarrow> int \<Rightarrow> (reg_state, handler_stop, queue_status option) prog" where
  "queue_standing rd queue_group i =
     (case queue_group of
        None \<Rightarrow> ret None
      | Some g \<Rightarrow>
          bindE (attempt (rdb rd queued_snapshot)) (\<lambda>r.
          case r of
            Inl e \<Rightarrow> ret None
          | Inr snapshot \<Rightarrow>
              (case drain_estimate snapshot i of
                 Inl Panic \<Rightarrow> throw (Panicked ''index out of bounds'')
               | Inr est \<Rightarrow> ret (map_option (\<lambda>e. \<lparr>queue_position = position e, qs_group = g,
                     estimated_iterations_remaining = iterations e\<rparr>) est))))"

text \<open>The standard lane: both device gates, the queue group, the reservation.\<close>

definition finish_claim ::
  "reg_deps \<Rightarrow> auth_subject \<Rightarrow> string \<Rightarrow> new_reservation \<Rightarrow> bytes option \<Rightarrow> bytes option \<Rightarrow> bool option \<Rightarrow>
   (reg_state, handler_stop, register_answer) prog" where
  "finish_claim rd auth digits new device mark_token available =
     bindE (intake_lane rd (as_subject auth)) (\<lambda>queue_group.
     bindE (reserve rd new mark_token queue_group device) (\<lambda>out.
     case out of
       DeviceAlreadyClaimed \<Rightarrow> ret (Answered device_ineligible)
     | ReservedAs i \<Rightarrow>
         bindE (queue_standing rd queue_group i) (\<lambda>standing.
         ret (Accepted \<lparr>rp_base_username = n_base new, rp_digits = digits, rp_username = n_full_username new,
            rp_device_check_available = available,
            rp_registration_outcome = (if queue_enabled (rg_config rd) then Some ''QUEUED'' else None), rp_queue = standing\<rparr>))))"

definition claim_standard ::
  "reg_deps \<Rightarrow> auth_subject \<Rightarrow> headers \<Rightarrow> json \<Rightarrow> string \<Rightarrow> new_reservation \<Rightarrow> (reg_state, handler_stop, register_answer) prog" where
  "claim_standard rd auth hs v digits new =
     bindE (rejecting (run_widevine_gate rd auth v)) (\<lambda>gate.
     case gate of
       GateIneligible \<Rightarrow> ret (Answered device_ineligible)
     | GateProceed device \<Rightarrow>
         bindE (device_check_gate rd auth hs) (\<lambda>dc.
         case dc of
           Inl answer \<Rightarrow> ret (Answered answer)
         | Inr (mark_token, available) \<Rightarrow> finish_claim rd auth digits new device mark_token available))"

definition register_claim :: "reg_deps \<Rightarrow> auth_subject \<Rightarrow> headers \<Rightarrow> bytes \<Rightarrow> (reg_state, handler_stop, register_answer) prog" where
  "register_claim rd auth hs body =
     bindE (rejecting (prepare_claim rd auth hs body)) (\<lambda>(v, p, digits, new).
     case pr_voucher p of
       Some key \<Rightarrow> rejecting (claim_with_voucher rd key digits new)
     | None \<Rightarrow> claim_standard rd auth hs v digits new)"

definition register :: "reg_deps \<Rightarrow> auth_subject \<Rightarrow> headers \<Rightarrow> bytes \<Rightarrow> (reg_state \<times> credits, handler_stop, register_answer) prog" where
  "register rd auth hs body =
     bindE (map_err Rejected (check_rate_limit rd (as_subject auth))) (\<lambda>_. on_first (register_claim rd auth hs body))"

end
