(* ===== verification/HandlerInvariant.thy ===== *)
theory HandlerInvariant
  imports Register
begin

text \<open>
  Invariants of the registration handler. The locale names what a property of the database and the
  step counter must withstand (a step, the other processes, a rollback, and the statements the
  handler writes with) and shows, once, that the whole handler then keeps it, whatever it answers.
\<close>

lemma keeps_ret [prog_intro]: "keeps I (ret a)"
  by (rule valid_ret)

lemma keeps_throw [prog_intro]: "keeps I (throw e)"
  by (rule valid_throw)

lemma keeps_case_stops [prog_intro]:
  "keeps I f1 \<Longrightarrow> (\<And>m. keeps I (g1 m)) \<Longrightarrow> keeps I (case e1 of Conflict \<Rightarrow> f1 | InsertDb m \<Rightarrow> g1 m)"
  "keeps I f2 \<Longrightarrow> (\<And>m. keeps I (g2 m)) \<Longrightarrow> keeps I (case e2 of Seen \<Rightarrow> f2 | DeviceDb m \<Rightarrow> g2 m)"
  "keeps I f3 \<Longrightarrow> keeps I g3 \<Longrightarrow> keeps I (case e3 of Instant \<Rightarrow> f3 | Standard \<Rightarrow> g3)"
  "(\<And>i. keeps I (f4 i)) \<Longrightarrow> keeps I g4 \<Longrightarrow> keeps I (case e4 of ReservedAs i \<Rightarrow> f4 i | DeviceAlreadyClaimed \<Rightarrow> g4)"
  "(\<And>d. keeps I (f5 d)) \<Longrightarrow> keeps I g5 \<Longrightarrow> keeps I (case e5 of GateProceed d \<Rightarrow> f5 d | GateIneligible \<Rightarrow> g5)"
  "keeps I f6 \<Longrightarrow> (\<And>a. keeps I (g6 a)) \<Longrightarrow> keeps I h6 \<Longrightarrow> keeps I i6 \<Longrightarrow> (\<And>c. keeps I (j6 c)) \<Longrightarrow>
     keeps I (case e6 of Register \<Rightarrow> f6 | Proceed a \<Rightarrow> g6 a | Blocked \<Rightarrow> h6 | TokenRequired \<Rightarrow> i6 | Unavailable c \<Rightarrow> j6 c)"
  "keeps I f7 \<Longrightarrow> keeps I g7 \<Longrightarrow> keeps I (case e7 of True \<Rightarrow> f7 | False \<Rightarrow> g7)"
  "keeps I f8 \<Longrightarrow> keeps I (case e8 of Panic \<Rightarrow> f8)"
  "keeps I f9 \<Longrightarrow> (\<And>x xs. keeps I (g9 x xs)) \<Longrightarrow> keeps I (case e9 of [] \<Rightarrow> f9 | x # xs \<Rightarrow> g9 x xs)"
  "(\<And>x. keeps I (f10 x)) \<Longrightarrow> (\<And>x. keeps I (g10 x)) \<Longrightarrow> keeps I (case e10 of Transient x \<Rightarrow> f10 x | Fatal x \<Rightarrow> g10 x)"
  by (simp_all split: insert_error.split insert_device_error.split lane_choice.split reserve_outcome.split widevine_gate.split
      decision.split bool.split panic.split list.split try_error.split)

locale handler_invariant =
  fixes rd :: reg_deps and I :: "tables world \<Rightarrow> bool"
  assumes inv_step: "I w \<Longrightarrow> I (w\<lparr>w_step := Suc (w_step w)\<rparr>)"
    and inv_others: "I w \<Longrightarrow> I (w\<lparr>w_db := e_others (rg_env rd) (w_step w) (w_db w)\<rparr>)"
    and inv_rollback: "I w \<Longrightarrow> I w' \<Longrightarrow> I (w'\<lparr>w_db := w_db w\<rparr>)"
    and inv_insert: "I w \<Longrightarrow> I (w\<lparr>w_db := snd (insert_reservation new g now (w_db w))\<rparr>)"
    and inv_pending: "I w \<Longrightarrow> I (w\<lparr>w_db := snd (insert_pending d i now (w_db w))\<rparr>)"
    and inv_challenge: "I w \<Longrightarrow> I (w\<lparr>w_db := snd (challenge_consume ch now (w_db w))\<rparr>)"
    and inv_voucher: "I w \<Longrightarrow> I (w\<lparr>w_db := snd (burn_voucher h now (w_db w))\<rparr>)"
begin

definition keeps_stmt :: "(tables, 'a) stmt \<Rightarrow> bool" where
  "keeps_stmt st \<longleftrightarrow> (\<forall>w now. I w \<longrightarrow> I (w\<lparr>w_db := snd (st now (w_db w))\<rparr>))"

lemma stmts:
  "keeps_stmt (insert_reservation new g)" "keeps_stmt (insert_reserved new)" "keeps_stmt (insert_pending d i)"
  "keeps_stmt (challenge_consume ch)" "keeps_stmt (burn_voucher h)"
  using inv_insert inv_insert [where g = None] inv_pending inv_challenge inv_voucher
  by (auto simp: keeps_stmt_def insert_reservation_def)

lemma reads:
  "keeps_stmt (seen h)" "keeps_stmt queued_snapshot" "keeps_stmt advisory_lock" "keeps_stmt (select_voucher h)"
  "keeps_stmt (allocated_discriminators base)"
  by (simp_all add: keeps_stmt_def seen_def queued_snapshot_def advisory_lock_def select_voucher_def
      allocated_discriminators_def Let_def)

lemma step_after:
  assumes "I (w\<lparr>w_db := t\<rparr>)" shows "I (w\<lparr>w_db := t, w_step := Suc (w_step w)\<rparr>)"
  using inv_step [OF assms] by simp

lemma k_remote: "keeps I (remote f)"
  by (rule keepsI) (simp add: remote_def inv_step)

lemma k_now: "keeps I (now_utc E)"
  unfolding now_utc_def by (rule k_remote)

lemma k_sql:
  assumes "keeps_stmt st"
  shows "keeps I (sql (rg_env rd) st)"
proof (rule keepsI)
  fix w assume "I w"
  note o = inv_others [OF this]
  have "I ((w\<lparr>w_db := e_others (rg_env rd) (w_step w) (w_db w)\<rparr>)\<lparr>w_db := snd (st now (w_db (w\<lparr>w_db := e_others (rg_env rd) (w_step w) (w_db w)\<rparr>)))\<rparr>)" for now
    using assms o unfolding keeps_stmt_def by blast
  then show "I (snd (sql (rg_env rd) st w))" using o
    by (auto simp: sql_def Let_def step_after split: option.splits prod.splits) (metis snd_conv step_after)
qed

lemma k_tx_sql:
  assumes "keeps_stmt st"
  shows "keeps I (tx_sql (rg_env rd) now st)"
proof (rule keepsI)
  fix w assume w: "I w"
  then have "I (w\<lparr>w_db := snd (st now (w_db w))\<rparr>)" using assms unfolding keeps_stmt_def by blast
  then show "I (snd (tx_sql (rg_env rd) now st w))" using w
    by (auto simp: tx_sql_def Let_def inv_step step_after split: option.splits prod.splits)
qed

lemma k_transaction_on:
  assumes "\<And>now. keeps (\<lambda>s. I (fst s)) (body now)"
  shows "keeps (\<lambda>s. I (fst s)) (transaction_on (rg_env rd) err body)"
proof -
  have "I (fst (snd (transaction_on (rg_env rd) err body (w, c))))" if w: "I w" for w c
  proof -
    let ?w0 = "w\<lparr>w_db := e_others (rg_env rd) (w_step w) (w_db w), w_step := Suc (w_step w)\<rparr>"
    obtain r w1 c1 where b: "body (e_clock (rg_env rd) (w_step w)) (?w0, c) = (r, (w1, c1))" by (metis surj_pair)
    have w0: "I ?w0" using inv_others [OF w] by (rule step_after)
    then have w1: "I w1" using keepsD [OF assms, of "(?w0, c)" "e_clock (rg_env rd) (w_step w)"] b by simp
    have t: "I (w1\<lparr>w_db := w_db ?w0\<rparr>)" using inv_rollback [OF w0 w1] .
    have "I (w1\<lparr>w_db := w_db ?w0, w_step := Suc (w_step w1)\<rparr>)" using t by (rule step_after)
    with t w0 w1 inv_step [OF w1] b show ?thesis
      by (auto simp: transaction_on_def Let_def split: option.splits sum.splits tx_end.splits)
  qed
  then show ?thesis by (intro keepsI) auto
qed

lemma k_transaction:
  assumes "\<And>now. keeps I (body now)"
  shows "keeps I (transaction (rg_env rd) err body)"
proof (rule keepsI)
  fix w assume w: "I w"
  let ?w0 = "w\<lparr>w_db := e_others (rg_env rd) (w_step w) (w_db w), w_step := Suc (w_step w)\<rparr>"
  obtain r w1 where b: "body (e_clock (rg_env rd) (w_step w)) ?w0 = (r, w1)" by (metis surj_pair)
  have w0: "I ?w0" using inv_others [OF w] by (rule step_after)
  then have w1: "I w1" using keepsD [OF assms, of ?w0 "e_clock (rg_env rd) (w_step w)"] b by simp
  have t: "I (w1\<lparr>w_db := w_db ?w0\<rparr>)" using inv_rollback [OF w0 w1] .
  have "I (w1\<lparr>w_db := w_db ?w0, w_step := Suc (w_step w1)\<rparr>)" using t by (rule step_after)
  with t w0 w1 inv_step [OF w1] b show "I (snd (transaction (rg_env rd) err body w))"
    by (auto simp: transaction_def Let_def split: option.splits sum.splits tx_end.splits)
qed

abbreviation on_reg :: "reg_state \<Rightarrow> bool" where "on_reg s \<equiv> I (fst (fst s))"

lemma k_at_world: "keeps I m \<Longrightarrow> keeps on_reg (at_world m)"
  unfolding at_world_def by (intro keeps_on_first [where I = "\<lambda>s. I (fst s)"] keeps_on_first)

lemma k_on_first: "keeps (\<lambda>s. I (fst s)) m \<Longrightarrow> keeps on_reg (on_first m)"
  by (rule keeps_on_first)

lemma k_on_crl:
  assumes "keeps (\<lambda>s. I (fst s)) m"
  shows "keeps on_reg (on_crl m)"
proof (rule keepsI)
  fix s assume "on_reg s"
  then show "on_reg (snd (on_crl m s))" using keepsD [OF assms, of "(fst (fst s), snd s)"]
    by (auto simp: on_crl_def split: prod.splits)
qed

lemma k_rdb: "keeps_stmt st \<Longrightarrow> keeps on_reg (rdb rd st)"
  unfolding rdb_def by (intro k_at_world k_sql)

lemmas prims = k_remote k_now k_sql k_tx_sql k_transaction k_transaction_on k_at_world k_on_crl k_rdb stmts reads prog_intro

text \<open>Chain reads, the revocation list and DeviceCheck.\<close>

lemma k_chain:
  "keeps I (at_current_block pc)" "keeps I (base_state_at pc base at)" "keeps I (name_reservation_state pc name)"
  "keeps I (free_balance pc account)"
  unfolding at_current_block_def base_state_at_def fetch_many_def name_reservation_state_def free_balance_def read_or_def Let_def
  by (intro prims k_remote | simp)+

lemma k_crl: "keeps (\<lambda>s. I (fst s)) (crl_serials ax)"
  unfolding crl_serials_def revoked_serials_def cached_serials_def stale_serials_def snapshot_age_def crl_fetch_def
  by (intro prims keeps_on_first | force)+

lemma k_dc_attempts: "keeps (\<lambda>s. I (fst s)) (dc_attempts dc url jwt payload endpoint n)"
  by (induction n; subst dc_attempts.simps; unfold try_call_def) (intro prims keeps_on_first | simp)+

lemma k_dc_call: "keeps (\<lambda>s. I (fst s)) (dc_call E dc endpoint token bits)"
  unfolding dc_call_def dc_jwt_def dc_mint_def Let_def by (intro prims keeps_on_first k_dc_attempts | force)+

lemma k_device_check:
  "keeps (\<lambda>s. I (fst s)) (already_used E dc token)" "keeps (\<lambda>s. I (fst s)) (register_device E dc token)"
  unfolding already_used_def query_bits_def register_device_def by (intro prims k_dc_call)+

lemma k_evaluate: "keeps (\<lambda>s. I (fst s)) (evaluate E dc token)"
  unfolding evaluate_def by (intro prims k_device_check)

text \<open>The handler.\<close>

lemma k_reserve: "keeps on_reg (reserve rd new token g device)"
  unfolding reserve_def reserve_with_device_def reserve_free_ios_def reserve_plain_def
  by (intro prims k_device_check k_on_first keeps_on_first | simp)+

lemma k_states:
  "keeps on_reg (merged_base_state rd base at)" "keeps on_reg (reservation_state_of rd name)"
  unfolding merged_base_state_def pending_digits_def reservation_state_of_def Let_def
  by (intro prims k_chain | simp)+

lemma k_prepare: "keeps on_reg (prepare_claim rd auth hs body)"
  unfolding prepare_claim_def full_name_check_def unix_now_def Let_def
  by (intro prims k_chain k_states | simp)+

lemma k_voucher: "keeps on_reg (claim_with_voucher rd key digits new)"
  unfolding claim_with_voucher_def voucher_state_of_def redeem_and_reserve_def Let_def
  by (intro prims | simp)+

lemma k_gate: "keeps on_reg (run_widevine_gate rd auth v)"
  unfolding run_widevine_gate_def gate_evidence_def gate_dedup_def gate_reject_def unix_now_def
  by (intro prims k_crl | simp)+

lemma k_device_gate: "keeps on_reg (device_check_gate rd auth hs)"
  unfolding device_check_gate_def Let_def by (intro prims k_evaluate k_on_first | simp)+

lemma k_queue: "keeps on_reg (intake_lane rd subject)" "keeps on_reg (queue_standing rd g i)"
  unfolding intake_lane_def read_intake_group_def queue_standing_def Let_def by (intro prims k_chain | simp)+

lemma k_finish: "keeps on_reg (finish_claim rd auth digits new device token available)"
  unfolding finish_claim_def by (intro prims k_reserve k_queue | simp)+

lemma claim_keeps: "keeps on_reg (register_claim rd auth hs body)"
  unfolding register_claim_def claim_standard_def
  by (intro prims k_prepare k_voucher k_gate k_device_gate k_finish | simp)+

lemma k_rate_limit: "keeps (\<lambda>s. on_reg (fst s)) (check_rate_limit rd subject)"
  unfolding check_rate_limit_def Let_def
  by (intro keeps_bindE keeps_on_first [where I = on_reg] k_at_world k_remote keepsI) (auto split: prod.splits sum.splits)

lemma handler_keeps: "keeps (\<lambda>s. on_reg (fst s)) (register rd auth hs body)"
  unfolding register_def
  by (intro keeps_bindE valid_map_err k_rate_limit keeps_on_first [where I = on_reg] claim_keeps)

end

text \<open>Three instances: the step counter never goes back, the keys and links of the schema, and that a stored
  payload stays.\<close>

interpretation clock: handler_invariant rd "\<lambda>w. n \<le> w_step w" for rd n
  by unfold_locales auto

end
