(* ===== verification/Intake.thy ===== *)
theory Intake
  imports HandlerInvariant EngineTheorems
begin

text \<open>
  Properties of the registration handlers of \<open>Register\<close>: storing a reservation is atomic with the
  device it spends, a device gets at most one free iOS registration, an accepted claim is stored as
  it was validated, no handler panics, the handlers keep the keys and links of the schema, and the
  availability answer agrees with the digit selection.
\<close>

section \<open>Storing is atomic\<close>

abbreviation reg_world :: "reg_state \<Rightarrow> tables world" where "reg_world s \<equiv> fst (fst s)"
abbreviation reg_db :: "reg_state \<Rightarrow> tables" where "reg_db s \<equiv> w_db (reg_world s)"
abbreviation reg_step :: "reg_state \<Rightarrow> nat" where "reg_step s \<equiv> w_step (reg_world s)"

text \<open>What the other processes made of the database when a step of the handler begins.\<close>

abbreviation seen_by :: "reg_deps \<Rightarrow> tables world \<Rightarrow> tables" where
  "seen_by rd w \<equiv> e_others (rg_env rd) (w_step w) (w_db w)"

definition stored :: "reg_deps \<Rightarrow> new_reservation \<Rightarrow> nat option \<Rightarrow> bytes option \<Rightarrow> tables world \<Rightarrow> int \<Rightarrow> tables \<Rightarrow> bool" where
  "stored rd new queue_group device w i t' \<longleftrightarrow>
     (\<exists>t1. insert_reservation new queue_group (e_clock (rg_env rd) (w_step w)) (seen_by rd w) = (Inr i, t1) \<and>
        (case device of
           None \<Rightarrow> t' = t1
         | Some d \<Rightarrow> insert_pending d i (e_clock (rg_env rd) (w_step w)) t1 = (Inr (), t')))"

lemma insert_reservation_failed: "insert_reservation new g now t = (Inl e, t') \<Longrightarrow> t' = t"
  by (auto simp: insert_reservation_def insert_queued_def insert_reserved_def insert_with_def Let_def split: option.splits if_splits)

lemma case_device_error_run_iff:
  "(case e of Seen \<Rightarrow> f | DeviceDb m \<Rightarrow> g m) s = (Inr b, s') \<longleftrightarrow>
     (e = Seen \<and> f s = (Inr b, s')) \<or> (\<exists>m. e = DeviceDb m \<and> g m s = (Inr b, s'))"
  by (cases e) auto

lemma reserve_with_device_ends:
  assumes "reserve_with_device rd new g d w = (r, w')"
  shows "case r of Inr (ReservedAs i) \<Rightarrow> stored rd new g (Some d) w i (w_db w') | _ \<Rightarrow> w_db w' = seen_by rd w"
  using assms unfolding reserve_with_device_def
proof (cases rule: transaction_cases)
  case (committed a w1)
  then show ?thesis
    by (auto simp: inr_iffs case_run_iffs case_device_error_run_iff tx_sql_Inr_iff stored_def)
next
  case (rolled_back a w1)
  then show ?thesis
    by (auto simp: inr_iffs case_run_iffs case_device_error_run_iff)
qed simp

lemma reserve_plain_ends:
  assumes "reserve_plain rd new g w = (r, w')"
  shows "case r of Inr (ReservedAs i) \<Rightarrow> stored rd new g None w i (w_db w') | _ \<Rightarrow> w_db w' = seen_by rd w"
  using assms
  by (auto simp: reserve_plain_def bindE_def map_err_def sql_def Let_def ret_def throw_def stored_def
      split: option.splits prod.splits sum.splits dest: insert_reservation_failed)

text \<open>A free iOS claim that is stored re-checked the device and then marked it, in this order.\<close>

definition ios_marked :: "dc_client \<Rightarrow> bytes \<Rightarrow> nat \<Rightarrow> nat \<Rightarrow> bool" where
  "ios_marked dc token m n \<longleftrightarrow> (\<exists>k k' body body'. m \<le> k \<and> k < k' \<and> k' < n \<and>
     answered_at dc ''query_two_bits'' token None k body \<and> dc_bits_json dc body \<noteq> Some (False, True) \<and>
     answered_at dc ''update_two_bits'' token (Some (False, True)) k' body')"

lemma already_used_run:
  assumes "already_used E dc tok (w, c) = (Inr used, (w', c'))"
  shows "w_db w' = w_db w \<and> w_step w < w_step w' \<and>
    (\<exists>k body. w_step w \<le> k \<and> k < w_step w' \<and> answered_at dc ''query_two_bits'' tok None k body \<and>
       used = (dc_bits_json dc body = Some (False, True)))"
proof -
  from assms obtain body b where call: "dc_call E dc ''query_two_bits'' tok None (w, c) = (Inr body, (w', c'))"
    and cls: "classify_query_response dc body = Inr b" "used = (case b of None \<Rightarrow> False | Some bits \<Rightarrow> is_registered bits)"
    by (auto simp: already_used_def query_bits_def inr_iffs)
  have "used = (dc_bits_json dc body = Some (False, True))"
    using cls by (auto simp: classify_query_response_def is_registered_def split: option.splits if_splits)
  with dc_call_run [OF call] show ?thesis by auto
qed

lemma register_device_run:
  assumes "register_device E dc tok (w, c) = (Inr u, (w', c'))"
  shows "w_db w' = w_db w \<and> w_step w < w_step w' \<and>
    (\<exists>k body. w_step w \<le> k \<and> k < w_step w' \<and> answered_at dc ''update_two_bits'' tok (Some (False, True)) k body)"
proof -
  from assms obtain body where "dc_call E dc ''update_two_bits'' tok (Some (False, True)) (w, c) = (Inr body, (w', c'))"
    by (auto simp: register_device_def inr_iffs)
  from dc_call_run [OF this] show ?thesis by auto
qed

lemma reserve_free_ios_ends:
  assumes "reserve_free_ios rd dc new g tok (w, c) = (r, (w', c'))"
  shows "case r of Inr (ReservedAs i) \<Rightarrow> stored rd new g None w i (w_db w') \<and> ios_marked dc tok (w_step w) (w_step w')
     | _ \<Rightarrow> w_db w' = seen_by rd w"
  using assms unfolding reserve_free_ios_def
proof (cases rule: transaction_on_cases)
  case (rolled_back a w1)
  then show ?thesis by (auto simp: inr_iffs case_run_iffs split: if_splits)
next
  case (committed a w1)
  let ?E = "rg_env rd" and ?t = "seen_by rd w" and ?now = "e_clock (rg_env rd) (w_step w)"
  from committed(1) obtain w2 c2 i t1 c3 where
    used: "already_used ?E dc tok (w\<lparr>w_db := ?t, w_step := Suc (Suc (w_step w))\<rparr>, c) = (Inr False, (w2, c2))"
    and ins: "insert_reservation new g ?now (w_db w2) = (Inr i, t1)" and a: "a = ReservedAs i"
    and mark: "register_device ?E dc tok (w2\<lparr>w_db := t1, w_step := Suc (w_step w2)\<rparr>, c2) = (Inr (), (w1, c'))"
    by (auto simp: inr_iffs case_run_iffs on_first_Inr_iff tx_sql_Inr_iff advisory_lock_def split: if_splits)
  from already_used_run [OF used] obtain k body where "w_db w2 = ?t" and k: "Suc (Suc (w_step w)) \<le> k" "k < w_step w2"
    "answered_at dc ''query_two_bits'' tok None k body" "dc_bits_json dc body \<noteq> Some (False, True)" by auto
  from register_device_run [OF mark] obtain k' body' where "w_db w1 = t1" and k': "Suc (w_step w2) \<le> k'" "k' < w_step w1"
    "answered_at dc ''update_two_bits'' tok (Some (False, True)) k' body'" by auto
  have "ios_marked dc tok (w_step w) (w_step w')"
    unfolding ios_marked_def using k k' committed(4)
    by (intro exI [of _ k] exI [of _ k'] exI [of _ body] exI [of _ body']) simp
  with ins a \<open>w_db w2 = ?t\<close> \<open>w_db w1 = t1\<close> committed show ?thesis by (simp add: stored_def)
qed simp

lemma at_world_run:
  "at_world m ((w, j), c) = (r, s') \<longleftrightarrow> (\<exists>w'. m w = (r, w') \<and> s' = ((w', j), c))"
  by (auto simp: at_world_def on_first_def split: prod.splits)

lemma reserve_ends:
  "case reserve rd new mark_token queue_group device s of
     (Inr (ReservedAs i), s') \<Rightarrow> stored rd new queue_group device (reg_world s) i (reg_db s') \<and>
       (case (device, mark_token, rg_device_check rd) of
          (None, Some token, Some dc) \<Rightarrow> ios_marked dc token (reg_step s) (reg_step s')
        | (None, Some token, None) \<Rightarrow> False
        | _ \<Rightarrow> True)
   | (_, s') \<Rightarrow> reg_db s' = reg_db s \<or> reg_db s' = seen_by rd (reg_world s)"
proof -
  obtain w j c where s: "s = ((w, j), c)" by (metis surj_pair)
  obtain r s' where run: "reserve rd new mark_token queue_group device s = (r, s')" by (metis surj_pair)
  show ?thesis
  proof (cases device)
    case (Some d)
    with run s obtain r0 w' where "reserve_with_device rd new queue_group d w = (r0, w')" "s' = ((w', j), c)"
      "r = (case r0 of Inl e \<Rightarrow> Inl (Rejected e) | Inr a \<Rightarrow> Inr a)"
      by (auto simp: reserve_def map_err_run at_world_run)
    with reserve_with_device_ends [OF this(1)] run Some s show ?thesis
      by (auto split: sum.splits reserve_outcome.splits)
  next
    case None
    note dev = None
    show ?thesis
    proof (cases mark_token)
      case None
      with run s dev obtain r0 w' where "reserve_plain rd new queue_group w = (r0, w')" "s' = ((w', j), c)"
        "r = (case r0 of Inl e \<Rightarrow> Inl (Rejected e) | Inr a \<Rightarrow> Inr a)"
        by (auto simp: reserve_def map_err_run at_world_run)
      with reserve_plain_ends [OF this(1)] run dev None s show ?thesis
        by (auto split: sum.splits reserve_outcome.splits)
    next
      case (Some token)
      show ?thesis
      proof (cases "rg_device_check rd")
        case None
        with run dev Some s show ?thesis by (auto simp: reserve_def throw_def)
      next
        case (Some dc)
        with run s dev \<open>mark_token = Some token\<close> obtain r0 w' j' where
          "reserve_free_ios rd dc new queue_group token (w, j) = (r0, (w', j'))" "s' = ((w', j'), c)"
          "r = (case r0 of Inl e \<Rightarrow> Inl (Rejected e) | Inr a \<Rightarrow> Inr a)"
          by (auto simp: reserve_def map_err_run on_first_def split: prod.splits)
        with reserve_free_ios_ends [OF this(1)] run dev Some \<open>mark_token = Some token\<close> s show ?thesis
          by (auto split: sum.splits reserve_outcome.splits)
      qed
    qed
  qed
qed

text \<open>C27: Storing a reservation is atomic, under every interleaving, clock, database fault and behaviour of Apple, and for
  each of its three forms. When the reservation is stored, the database is the one the other processes left, with that
  row inserted and, for a Widevine claim, the device recorded as pending for that very row, and nothing else changed; for
  a free iOS claim Apple has by then answered that the device is unused and has accepted the mark, in this order. When it
  ends in any other way (name taken, device already claimed, any error), neither the row nor a device record was
  stored.\<close>

theorem reserve_atomic:
  "case reserve rd new mark_token queue_group device s of
     (Inr (ReservedAs i), s') \<Rightarrow> stored rd new queue_group device (reg_world s) i (reg_db s') \<and>
       (case (device, mark_token, rg_device_check rd) of
          (None, Some token, Some dc) \<Rightarrow> ios_marked dc token (reg_step s) (reg_step s')
        | (None, Some token, None) \<Rightarrow> False
        | _ \<Rightarrow> True)
   | (_, s') \<Rightarrow> reg_db s' = reg_db s \<or> reg_db s' = seen_by rd (reg_world s)"
  by (rule reserve_ends)

section \<open>One free registration for each iOS device\<close>

text \<open>Free iOS claims as the advisory lock composes them: one after the other, each from where the earlier ones and anything
  else left the system. The tokens of the stored claims are recorded.\<close>

inductive free_claims :: "reg_deps \<Rightarrow> reg_state \<Rightarrow> bytes list \<Rightarrow> reg_state \<Rightarrow> bool" for rd where
  start: "free_claims rd s [] s"
| claim: "free_claims rd s tokens s1 \<Longrightarrow> reserve rd new (Some token) queue_group None s1 = (r, s2) \<Longrightarrow>
    free_claims rd s (tokens @ (case r of Inr (ReservedAs _) \<Rightarrow> [token] | _ \<Rightarrow> [])) s2"
| other: "free_claims rd s tokens s1 \<Longrightarrow> reg_step s1 \<le> reg_step s2 \<Longrightarrow> free_claims rd s tokens s2"

text \<open>What Apple documents: after it accepted the mark for a device, every later answer to a query for that device, through
  any of its tokens, has the mark.\<close>

definition apple_remembers :: "dc_client \<Rightarrow> (bytes \<Rightarrow> 'dev) \<Rightarrow> bool" where
  "apple_remembers dc device_of \<longleftrightarrow>
     (\<forall>token token' k k' body body'. device_of token = device_of token' \<longrightarrow> k < k' \<longrightarrow>
        answered_at dc ''update_two_bits'' token (Some (False, True)) k body \<longrightarrow>
        answered_at dc ''query_two_bits'' token' None k' body' \<longrightarrow> dc_bits_json dc body' = Some (False, True))"

lemma reserve_steps:
  assumes "reserve rd new token queue_group device s1 = (r, s2)"
  shows "reg_step s1 \<le> reg_step s2"
  using keepsD [OF clock.k_reserve [of "reg_step s1" rd new token queue_group device], of s1] assms by simp

lemma reserve_marks:
  assumes "reserve rd new (Some token) queue_group None s1 = (Inr (ReservedAs i), s2)" "rg_device_check rd = Some dc"
  shows "ios_marked dc token (reg_step s1) (reg_step s2)"
  using reserve_ends [where rd = rd and new = new and mark_token = "Some token" and queue_group = queue_group and device = None and s = s1] assms by simp

lemma free_claims_marked:
  assumes "free_claims rd s tokens s'" "rg_device_check rd = Some dc" "apple_remembers dc device_of"
  shows "distinct (map device_of tokens) \<and>
    (\<forall>token \<in> set tokens. \<exists>k body. k < reg_step s' \<and> answered_at dc ''update_two_bits'' token (Some (False, True)) k body)"
  using assms(1)
proof (induction rule: free_claims.induct)
  case (claim s tokens s1 new token queue_group r s2)
  have le: "reg_step s1 \<le> reg_step s2" using reserve_steps [OF claim.hyps(2)] .
  then have old: "\<forall>t \<in> set tokens. \<exists>k body. k < reg_step s2 \<and> answered_at dc ''update_two_bits'' t (Some (False, True)) k body"
    using claim.IH by (meson less_le_trans)
  show ?case
  proof (cases "\<exists>i. r = Inr (ReservedAs i)")
    case True
    with claim.hyps(2) assms(2) have "ios_marked dc token (reg_step s1) (reg_step s2)" by (auto dest: reserve_marks)
    then obtain k k' body body' where k: "reg_step s1 \<le> k" "k < k'" "k' < reg_step s2"
      "answered_at dc ''query_two_bits'' token None k body" "dc_bits_json dc body \<noteq> Some (False, True)"
      "answered_at dc ''update_two_bits'' token (Some (False, True)) k' body'"
      unfolding ios_marked_def by blast
    have "device_of token \<noteq> device_of t" if t: "t \<in> set tokens" for t
    proof
      assume same: "device_of token = device_of t"
      from claim.IH t obtain m b where m: "m < reg_step s1" "answered_at dc ''update_two_bits'' t (Some (False, True)) m b" by blast
      with k(1) have "m < k" by simp
      from assms(3) [unfolded apple_remembers_def, rule_format, OF same [symmetric] this m(2) k(4)] k(5) show False by simp
    qed
    then have "device_of token \<notin> device_of ` set tokens" by (metis image_iff)
    with True k old claim.IH show ?thesis by (auto simp: rev_image_eqI)
  next
    case False
    with old claim.IH show ?thesis by (auto split: sum.splits reserve_outcome.splits)
  qed
next
  case (other s tokens s1 s2)
  then show ?case by (meson less_le_trans)
qed simp

text \<open>C25: An iOS device gets at most one free registration. Take any history of free iOS claims, by any number of replicas, as
  the advisory lock serialises them, interleaved with anything else, under every behaviour of the database and of the
  network; if Apple keeps the mark it accepted for a device, no two stored claims belong to the same device, even when the
  device presents a new token each time.\<close>

theorem free_ios_once:
  assumes "free_claims rd s tokens s'" "rg_device_check rd = Some dc" "apple_remembers dc device_of"
  shows "distinct (map device_of tokens)"
  using free_claims_marked [OF assms] by blast

section \<open>An accepted claim\<close>

definition has_payload :: "new_reservation \<Rightarrow> tables \<Rightarrow> bool" where
  "has_payload new t = list_ex (\<lambda>r. r_new r = new) (username_reservations t)"

lemma insert_reservation_with:
  obtains st q where "insert_reservation new g = insert_with new st q"
  by (cases g) (auto simp: insert_reservation_def insert_queued_def insert_reserved_def)

lemma insert_reservation_keeps_payload: "has_payload new t \<Longrightarrow> has_payload new (snd (insert_reservation new' g now t))"
  by (rule insert_reservation_with [of new' g]) (auto simp: insert_with_def Let_def has_payload_def)

lemma insert_reservation_payload: "insert_reservation new g now t = (Inr i, t') \<Longrightarrow> has_payload new t'"
  by (auto simp: insert_reservation_def insert_queued_def insert_reserved_def insert_with_def Let_def has_payload_def
      split: option.splits if_splits)

lemma has_payload_cong: "username_reservations t' = username_reservations t \<Longrightarrow> has_payload new t' = has_payload new t"
  by (simp add: has_payload_def)

lemma insert_pending_payload: "insert_pending d i now t = (r, t') \<Longrightarrow> has_payload new t' = has_payload new t"
  by (rule has_payload_cong) (auto simp: insert_pending_def split: if_splits)

lemma auth_frame:
  "username_reservations (snd (challenge_consume ch now t)) = username_reservations t"
  "next_reservation_id (snd (challenge_consume ch now t)) = next_reservation_id t"
  "widevine_devices (snd (challenge_consume ch now t)) = widevine_devices t"
  "username_reservations (snd (burn_voucher h now t)) = username_reservations t"
  "next_reservation_id (snd (burn_voucher h now t)) = next_reservation_id t"
  "widevine_devices (snd (burn_voucher h now t)) = widevine_devices t"
  by (simp_all add: challenge_consume_def burn_voucher_def)

lemma stored_payload: "stored rd new g device w i t' \<Longrightarrow> has_payload new t'"
  by (cases device) (auto simp: stored_def dest: insert_reservation_payload insert_pending_payload)

lemma payload_invariant:
  assumes "stable (rg_env rd) (has_payload new)"
  shows "handler_invariant rd (on_db (has_payload new))"
  using assms
  by unfold_locales (simp_all add: stable_def insert_reservation_keeps_payload auth_frame
      has_payload_cong [OF device_ops_frame(1)] has_payload_cong [OF auth_frame(1)] has_payload_cong [OF auth_frame(4)])

lemma integrity_invariant:
  assumes "stable (rg_env rd) integrity"
  shows "handler_invariant rd (on_db integrity)"
proof unfold_locales
  fix w :: "tables world" and new g now
  assume ok: "integrity (w_db w)"
  obtain st q where ins: "insert_reservation new g = insert_with new st q" by (rule insert_reservation_with)
  have "find_row i (w_db w) \<noteq> None \<Longrightarrow> find_row i (snd (insert_with new st q now (w_db w))) \<noteq> None" for i
    by (auto simp: find_row_None insert_with_def Let_def)
  then have "devices_ok (snd (insert_with new st q now (w_db w)))" using ok
    by (auto simp: integrity_def devices_ok_def device_ok_def list_all_iff split: option.splits)
  with ok insert_with_ok show "integrity (w_db (w\<lparr>w_db := snd (insert_reservation new g now (w_db w))\<rparr>))"
    by (simp add: ins integrity_def)
next
  fix w :: "tables world" and d i now
  assume "integrity (w_db w)"
  then show "integrity (w_db (w\<lparr>w_db := snd (insert_pending d i now (w_db w))\<rparr>))"
    by (simp add: integrity_def insert_pending_ok reservations_ok_def)
qed (use assms in \<open>simp_all add: stable_def integrity_cong [OF auth_frame(1,3,2)] integrity_cong [OF auth_frame(4,6,5)]\<close>)


section \<open>What an accepted claim has gone through\<close>

lemma validate_Inr:
  assumes "validate vrfy cd cfg form now q = Inr p"
  shows "\<exists>c. request_parses cd cfg now q c p \<and> claim_signature_ok vrfy V1 c (pr_candidate_signature p) (pr_ring_vrf_key p) form"
proof -
  have "format_faults cfg cd now q = []" using validate_faulty [of cfg cd now q] assms by fastforce
  then obtain c p0 where p0: "request_parses cd cfg now q c p0" using format_faults_none by blast
  with validate_parsed [OF p0, of vrfy form] assms show ?thesis by (auto split: if_splits)
qed

lemma select_digit_range:
  assumes "select_digit rnd tk preferred base = Inr d" "\<And>n. preferred = Some n \<Longrightarrow> 1 \<le> n \<and> n \<le> 99"
  shows "1 \<le> d \<and> d \<le> 99 \<and> d \<notin> tk"
proof (cases preferred)
  case None
  with assms(1) have "d \<in> set (available_digits tk)"
    by (auto simp: select_digit_def Let_def split: if_splits intro!: nth_mem mod_less_divisor)
  then show ?thesis by (auto simp: available_digits_def)
qed (use assms in \<open>auto simp: select_digit_def split: if_splits\<close>)

definition claim_valid :: "reg_deps \<Rightarrow> auth_subject \<Rightarrow> bytes \<Rightarrow> json \<Rightarrow> parsed_register \<Rightarrow> string \<Rightarrow> new_reservation \<Rightarrow> bool" where
  "claim_valid rd auth body v p digits new \<longleftrightarrow>
     (\<exists>q candidate now form d. rg_json rd body = Some v \<and> rg_decode rd v = Inr q \<and>
        request_parses (rg_codecs rd) (rg_config rd) now q candidate p \<and>
        claim_signature_ok (ax_sr25519 (rg_auth rd)) V1 candidate (pr_candidate_signature p) (pr_ring_vrf_key p) form \<and>
        1 \<le> d \<and> d \<le> 99 \<and> digits = two_digits d \<and>
        new = build_reservation auth p digits (rr_username q @ ''.'' @ digits))"

lemma prepare_claim_valid:
  assumes "prepare_claim rd auth hs body s = (Inr (v, p, digits, new), s')"
  shows "claim_valid rd auth body v p digits new"
proof -
  from assms obtain form now rnd tk d where v: "rg_json rd body = Some v"
    and val: "validate_register (rg_decode rd) (ax_sr25519 (rg_auth rd)) (rg_codecs rd) (rg_config rd) form now v = Inr p"
    and d: "select_digit rnd tk (pr_preferred_digits p) (pr_username p) = Inr d" and dg: "digits = two_digits d"
    and new: "new = build_reservation auth p digits (pr_username p @ ''.'' @ digits)"
    unfolding prepare_claim_def Let_def parse_json_body_def by (auto simp: inr_iffs)
  from val obtain q where q: "rg_decode rd v = Inr q"
    and "validate (ax_sr25519 (rg_auth rd)) (rg_codecs rd) (rg_config rd) form now q = Inr p"
    by (auto simp: validate_register_def split: sum.splits)
  from validate_Inr [OF this(2)] obtain c where c: "request_parses (rg_codecs rd) (rg_config rd) now q c p"
    "claim_signature_ok (ax_sr25519 (rg_auth rd)) V1 c (pr_candidate_signature p) (pr_ring_vrf_key p) form" by blast
  then have "pr_username p = rr_username q" "\<And>n. pr_preferred_digits p = Some n \<Longrightarrow> 1 \<le> n \<and> n \<le> 99"
    by (simp_all add: request_parses_def)
  with select_digit_range [OF d] v q c dg new show ?thesis unfolding claim_valid_def by metis
qed

lemma redeem_payload:
  assumes "redeem_and_reserve E sha key new w = (Inr i, w')"
  shows "has_payload new (w_db w')"
proof -
  from assms obtain w1 where "transaction E RedeemDb (\<lambda>tx_now.
       bindE (map_err RedeemDb (tx_sql E tx_now (burn_voucher (key_hash sha key)))) (\<lambda>burned.
       if \<not> burned then ret (Rollback None) else
       bindE (map_err RedeemDb (tx_sql E tx_now (insert_reserved new))) (\<lambda>r.
       case r of
         Inr i \<Rightarrow> ret (Commit (Some i))
       | Inl Conflict \<Rightarrow> throw RedeemConflict
       | Inl (InsertDb e) \<Rightarrow> throw (RedeemDb e)))) w = (Inr (Some i), w')"
    unfolding redeem_and_reserve_def by (auto simp: inr_iffs case_run_iffs)
  then show ?thesis
    by (cases rule: transaction_cases)
       (auto simp: inr_iffs case_run_iffs case_insert_error_run_iff tx_sql_Inr_iff split: if_splits
         dest: insert_reservation_payload [of new None, unfolded insert_reservation_def, simplified])
qed

lemma reserve_payload: "reserve rd new token g device s = (Inr (ReservedAs i), s') \<Longrightarrow> has_payload new (reg_db s')"
  using reserve_ends [where rd = rd and new = new and mark_token = token and queue_group = g and device = device and s = s] by (auto dest: stored_payload)

lemma case_outcome_run_iff:
  "(case out of ReservedAs i \<Rightarrow> f i | DeviceAlreadyClaimed \<Rightarrow> g) s = (Inr b, s') \<longleftrightarrow>
     (\<exists>i. out = ReservedAs i \<and> f i s = (Inr b, s')) \<or> (out = DeviceAlreadyClaimed \<and> g s = (Inr b, s'))"
  by (cases out) auto

lemma case_gate_run_iff:
  "(case gate of GateProceed d \<Rightarrow> f d | GateIneligible \<Rightarrow> g) s = (Inr b, s') \<longleftrightarrow>
     (\<exists>d. gate = GateProceed d \<and> f d s = (Inr b, s')) \<or> (gate = GateIneligible \<and> g s = (Inr b, s'))"
  by (cases gate) auto

lemma case_lane_run_iff:
  "(case lane of Instant \<Rightarrow> f | Standard \<Rightarrow> g) s = (Inr b, s') \<longleftrightarrow>
     (lane = Instant \<and> f s = (Inr b, s')) \<or> (lane = Standard \<and> g s = (Inr b, s'))"
  by (cases lane) auto

lemma at_world_Inr_iff:
  "at_world m s = (Inr a, s') \<longleftrightarrow> (\<exists>w'. m (reg_world s) = (Inr a, w') \<and> s' = ((w', snd (fst s)), snd s))"
  by (cases s) (auto simp: at_world_def on_first_def split: prod.splits)

lemma queue_standing_keeps:
  assumes "stable (rg_env rd) P"
  shows "keeps (\<lambda>s. P (reg_db s)) (queue_standing rd g i)"
proof -
  have "keeps (on_db P) (sql (rg_env rd) queued_snapshot)"
    by (rule keeps_sql [OF assms]) (simp add: queued_snapshot_def)
  then have "keeps (\<lambda>s. P (reg_db s)) (rdb rd queued_snapshot)"
    unfolding rdb_def at_world_def by (intro keeps_on_first [where I = "\<lambda>s. P (w_db (fst s))"] keeps_on_first)
  then show ?thesis unfolding queue_standing_def by (intro prog_intro | simp)+
qed

lemma finish_claim_stored:
  assumes "stable (rg_env rd) (has_payload new)"
    and "finish_claim rd auth digits new device token available s = (Inr (Accepted resp), s')"
  shows "has_payload new (reg_db s') \<and> rp_username resp = n_full_username new \<and> rp_digits resp = digits"
proof -
  from assms(2) obtain g i standing s1 s2 where
    "reserve rd new token g device s1 = (Inr (ReservedAs i), s2)" and q: "queue_standing rd g i s2 = (Inr standing, s')"
    and resp: "rp_username resp = n_full_username new" "rp_digits resp = digits"
    unfolding finish_claim_def by (auto simp: inr_iffs case_outcome_run_iff)
  then have "has_payload new (reg_db s2)" by (intro reserve_payload)
  then have "has_payload new (reg_db s')" using keepsD [OF queue_standing_keeps [OF assms(1)], of s2 g i] q by simp
  with resp show ?thesis by simp
qed

lemma claim_accepted:
  assumes "register_claim rd auth hs body s = (Inr (Accepted resp), s')"
    and "\<And>new. stable (rg_env rd) (has_payload new)"
  shows "\<exists>v p digits new. claim_valid rd auth body v p digits new \<and> rp_username resp = n_full_username new \<and>
    rp_digits resp = digits \<and> has_payload new (reg_db s')"
proof -
  from assms(1) obtain v p digits new s1 where prep: "prepare_claim rd auth hs body s = (Inr (v, p, digits, new), s1)"
    and rest: "(case pr_voucher p of
       Some key \<Rightarrow> rejecting (claim_with_voucher rd key digits new)
     | None \<Rightarrow> claim_standard rd auth hs v digits new) s1 = (Inr (Accepted resp), s')"
    unfolding register_claim_def by (auto simp: inr_iffs)
  have "has_payload new (reg_db s') \<and> rp_username resp = n_full_username new \<and> rp_digits resp = digits"
  proof (cases "pr_voucher p")
    case None
    with rest obtain device token available s2 where
      "finish_claim rd auth digits new device token available s2 = (Inr (Accepted resp), s')"
      unfolding claim_standard_def by (auto simp: inr_iffs case_run_iffs case_gate_run_iff split: prod.splits)
    from finish_claim_stored [OF assms(2) this] show ?thesis .
  next
    case (Some key)
    with rest show ?thesis unfolding claim_with_voucher_def Let_def
      by (auto simp: inr_iffs case_run_iffs case_lane_run_iff at_world_Inr_iff dest!: redeem_payload)
  qed
  with prepare_claim_valid [OF prep] show ?thesis by blast
qed

text \<open>C26: A claim that is accepted (202) is a valid one and is stored. The body decoded to a request whose every field is well
  formed and whose candidate signed it; the name is the requested base with a discriminator between 01 and 99; and when
  the handler answers, the outbox holds a row whose payload is exactly the decoded request under the authenticated
  account and the answered name. This is so on the voucher, the queued and the direct lane, with and without device
  gates, under every interleaving, as long as no other process deletes a row or changes a payload.\<close>

theorem accepted_claim_stored:
  assumes "register rd auth hs body (s, credits) = (Inr (Accepted resp), (s', credits'))"
    and "\<And>new. stable (rg_env rd) (has_payload new)"
  shows "\<exists>v p digits new. claim_valid rd auth body v p digits new \<and> rp_username resp = n_full_username new \<and>
    rp_digits resp = digits \<and> has_payload new (reg_db s')"
proof -
  from assms(1) obtain s1 where "register_claim rd auth hs body s1 = (Inr (Accepted resp), s')"
    unfolding register_def by (auto simp: inr_iffs on_first_Inr_iff)
  from claim_accepted [OF this assms(2)] show ?thesis .
qed

section \<open>No panic\<close>

lemma rejecting_calm: "map_err Rejected m s \<noteq> (Inl (Panicked e), s')"
  by (auto simp: map_err_run split: sum.splits)

lemmas calm_simps = bindE_Inl_iff rejecting_calm attempt_calm

lemma enqueue_groups_ok: "list_all (\<lambda>e. 1 \<le> q_group e \<and> q_group e \<le> 4) es \<Longrightarrow> enqueue_groups es k b \<noteq> Inl p"
  by (induction es arbitrary: k b) auto

lemma snapshot_no_panic: "drain_estimate (fst (queued_snapshot now t)) i \<noteq> Inl p"
proof -
  have "list_all (\<lambda>e. 1 \<le> q_group e \<and> q_group e \<le> 4) (map to_entry (fifo t))"
    by (auto simp: list_all_iff to_entry_def)
  then show ?thesis using enqueue_groups_ok by (auto simp: drain_estimate_def queued_snapshot_def split: sum.splits)
qed

lemma rdb_snapshot: "rdb rd queued_snapshot s = (Inr snapshot, s') \<Longrightarrow> \<exists>now t. snapshot = fst (queued_snapshot now t)"
  by (auto simp: rdb_def at_world_Inr_iff sql_Inr_iff) (metis fst_conv)

lemma queue_standing_calm: "queue_standing rd g i s \<noteq> (Inl (Panicked e), s')"
proof (cases g)
  case (Some grp)
  obtain r s1 where r: "rdb rd queued_snapshot s = (r, s1)" by (metis surj_pair)
  show ?thesis
  proof (cases r)
    case (Inr snapshot)
    with r rdb_snapshot snapshot_no_panic obtain est where "drain_estimate snapshot i = Inr est" by (metis sum.exhaust)
    with Some r Inr show ?thesis by (simp add: queue_standing_def bindE_def attempt_def ret_def)
  qed (use Some r in \<open>simp add: queue_standing_def bindE_def attempt_def ret_def\<close>)
qed (simp add: queue_standing_def ret_def)

lemma device_check_gate_Inr:
  "device_check_gate rd auth hs s = (Inr (Inr (Some token, available)), s') \<Longrightarrow>
     rg_device_check rd \<noteq> None \<and> device_token_bytes (rg_codecs rd) hs = Some token"
  by (auto simp: device_check_gate_def Let_def inr_iffs throw_def ret_def split: option.splits if_splits decision.splits)

lemma evaluate_total: "\<exists>v s'. on_first (evaluate E dc token) s = (Inr v, s') \<and> (token = None \<longrightarrow> v = Inactive)"
  by (cases s; cases token) (auto simp: evaluate_def on_first_def bindE_def attempt_def ret_def split: prod.splits)

lemma device_check_gate_calm: "device_check_gate rd auth hs s \<noteq> (Inl (Panicked e), s')"
proof (cases "if as_platform auth = Some ''ios'' then rg_device_check rd else None")
  case (Some dc)
  obtain v s1 where v: "on_first (evaluate (rg_env rd) dc (device_token_bytes (rg_codecs rd) hs)) s = ((Inr v :: handler_stop + _), s1)"
    "device_token_bytes (rg_codecs rd) hs = None \<longrightarrow> v = Inactive" using evaluate_total by metis
  then have "decide_gate v b = Register \<Longrightarrow> device_token_bytes (rg_codecs rd) hs \<noteq> None" for b by (cases b) auto
  with Some v(1) show ?thesis
    by (auto simp: device_check_gate_def Let_def bindE_def ret_def throw_def split: decision.splits option.splits)
qed (simp add: device_check_gate_def ret_def)

lemma reserve_calm:
  assumes "token \<noteq> None \<longrightarrow> rg_device_check rd \<noteq> None"
  shows "reserve rd new token g device s \<noteq> (Inl (Panicked e), s')"
  using assms by (auto simp: reserve_def rejecting_calm split: option.splits)

lemma intake_lane_calm: "intake_lane rd subject s \<noteq> (Inl e, s')"
  by (auto simp: intake_lane_def read_intake_group_def Let_def calm_simps at_world_def on_first_def remote_def ret_def
      split: option.splits prod.splits)

lemma finish_claim_calm:
  assumes "token \<noteq> None \<longrightarrow> rg_device_check rd \<noteq> None"
  shows "finish_claim rd auth digits new device token available s \<noteq> (Inl (Panicked e), s')"
  using reserve_calm [OF assms]
  by (auto simp: finish_claim_def bindE_Inl_iff intake_lane_calm queue_standing_calm ret_def
      split: if_splits reserve_outcome.splits)

lemma claim_standard_calm: "claim_standard rd auth hs v digits new s \<noteq> (Inl (Panicked e), s')"
proof
  assume run: "claim_standard rd auth hs v digits new s = (Inl (Panicked e), s')"
  then obtain gate s1 where "(case gate of
       GateIneligible \<Rightarrow> ret (Answered device_ineligible)
     | GateProceed device \<Rightarrow> bindE (device_check_gate rd auth hs) (\<lambda>dc. case dc of
         Inl answer \<Rightarrow> ret (Answered answer)
       | Inr (token, available) \<Rightarrow> finish_claim rd auth digits new device token available)) s1 = (Inl (Panicked e), s')"
    unfolding claim_standard_def by (auto simp: bindE_Inl_iff [of "rejecting _"] rejecting_calm)
  then obtain device where "bindE (device_check_gate rd auth hs) (\<lambda>dc. case dc of
      Inl answer \<Rightarrow> ret (Answered answer)
    | Inr (token, available) \<Rightarrow> finish_claim rd auth digits new device token available) s1 = (Inl (Panicked e), s')"
    by (cases gate) (auto simp: ret_def)
  then obtain dc s2 where dc: "device_check_gate rd auth hs s1 = (Inr dc, s2)" "(case dc of
      Inl answer \<Rightarrow> ret (Answered answer)
    | Inr (token, available) \<Rightarrow> finish_claim rd auth digits new device token available) s2 = (Inl (Panicked e), s')"
    by (auto simp: bindE_Inl_iff device_check_gate_calm)
  then obtain token available where "device_check_gate rd auth hs s1 = (Inr (Inr (token, available)), s2)"
    "finish_claim rd auth digits new device token available s2 = (Inl (Panicked e), s')"
    by (cases dc) (auto simp: ret_def)
  with device_check_gate_Inr finish_claim_calm show False by (metis option.exhaust)
qed

text \<open>C29: The registration handler never panics. Its three \<open>expect\<close>s and index operations (a mark token without a DeviceCheck
  client, an available verdict without a token, a queued row outside the four groups) are unreachable, for every request,
  configuration, database content, environment and behaviour of the services it calls.\<close>

theorem register_never_panics:
  "fst (register rd auth hs body s) \<noteq> Inl (Panicked e)"
proof
  assume "fst (register rd auth hs body s) = Inl (Panicked e)"
  then obtain s' where "register rd auth hs body s = (Inl (Panicked e), s')" by (metis prod.collapse)
  then obtain s1 s2 where "register_claim rd auth hs body s1 = (Inl (Panicked e), s2)"
    by (auto simp: register_def bindE_Inl_iff rejecting_calm on_first_Inl_iff)
  then show False
    by (auto simp: register_claim_def bindE_Inl_iff rejecting_calm claim_standard_calm split: option.splits)
qed

section \<open>A free iOS claim spends its slot\<close>

lemma ios_marked_mono: "ios_marked dc token m n \<Longrightarrow> m' \<le> m \<Longrightarrow> n \<le> n' \<Longrightarrow> ios_marked dc token m' n'"
  unfolding ios_marked_def by (meson le_trans less_le_trans)

lemma finish_claim_marks:
  assumes "finish_claim rd auth digits new None (Some token) available s = (Inr (Accepted resp), s')"
    and "rg_device_check rd = Some dc"
  shows "ios_marked dc token (reg_step s) (reg_step s')"
proof -
  from assms(1) obtain g i standing s1 s2 where g: "intake_lane rd (as_subject auth) s = ((Inr g :: handler_stop + _), s1)"
    and r: "reserve rd new (Some token) g None s1 = (Inr (ReservedAs i), s2)" and q: "queue_standing rd g i s2 = (Inr standing, s')"
    unfolding finish_claim_def by (auto simp: inr_iffs case_outcome_run_iff)
  have "keeps (\<lambda>s1. reg_step s \<le> reg_step s1) (intake_lane rd (as_subject auth) :: (reg_state, handler_stop, _) prog)"
    by (rule clock.k_queue(1))
  from keepsD [OF this, of s] g have "reg_step s \<le> reg_step s1" by simp
  moreover have "reg_step s2 \<le> reg_step s'"
    using keepsD [OF clock.k_queue(2) [of "reg_step s2" rd g i], of s2] q by simp
  ultimately show ?thesis using ios_marked_mono [OF reserve_marks [OF r assms(2)]] by simp
qed

text \<open>Evidence of an Android device in the body, under an enforced Widevine gate.\<close>

definition has_widevine_evidence :: "reg_deps \<Rightarrow> bytes \<Rightarrow> bool" where
  "has_widevine_evidence rd body \<longleftrightarrow> (\<exists>wv v raw. widevine (rg_config rd) = Some wv \<and> wv_enforce wv \<and>
     rg_json rd body = Some v \<and> extract_evidence (rg_codecs rd) v = Inr (Some raw))"

lemma gate_device_evidence:
  assumes "run_widevine_gate rd auth v s = (Inr (GateProceed (Some h)), s')" "rg_json rd body = Some v"
  shows "has_widevine_evidence rd body"
proof -
  from assms(1) obtain wv raw where wv: "widevine (rg_config rd) = Some wv" "extract_evidence (rg_codecs rd) v = Inr (Some raw)"
    "gate_evidence rd wv auth raw s = (Inr (GateProceed (Some h)), s')"
    unfolding run_widevine_gate_def gate_reject_def by (auto simp: ret_def throw_def split: option.splits sum.splits if_splits)
  have "wv_enforce wv"
  proof (rule ccontr)
    assume "\<not> wv_enforce wv"
    with wv(3) show False unfolding gate_evidence_def gate_dedup_def gate_reject_def
      by (auto simp: inr_iffs case_run_iffs split: bool.splits)
  qed
  with wv assms(2) show ?thesis unfolding has_widevine_evidence_def by blast
qed

lemma device_check_gate_marks:
  assumes "device_check_gate rd auth hs s = (Inr (Inr (token, available)), s')"
    and "enforce_auth (rg_config rd)" "as_platform auth = Some ''ios''" "rg_device_check rd = Some dc"
  shows "token = device_token_bytes (rg_codecs rd) hs \<and> token \<noteq> None"
proof -
  from assms obtain v s1 where "(case decide_gate v True of
            Blocked \<Rightarrow> ret (Inl device_ineligible)
          | TokenRequired \<Rightarrow> throw (Rejected DeviceTokenRequired)
          | Unavailable cause \<Rightarrow> throw (Rejected DeviceCheckUnavailable)
          | Register \<Rightarrow>
              (case device_token_bytes (rg_codecs rd) hs of
                 None \<Rightarrow> throw (Panicked ''Available verdict implies a device token'')
               | Some tok \<Rightarrow> ret (Inr (Some tok, Some True)))
          | Proceed available \<Rightarrow> ret (Inr (None, available))) s1 = (Inr (Inr (token, available)), s')"
    unfolding device_check_gate_def Let_def by (auto simp: inr_iffs)
  then show ?thesis by (cases v; cases "device_token_bytes (rg_codecs rd) hs") (auto simp: ret_def throw_def dest: sym)
qed

text \<open>Under hard enforcement, every accepted iOS claim that no voucher paid for spends the device's free slot: the request
  carried a device token and, during the handling, Apple answered for this very token that the slot is unused and then
  accepted the mark. The one exception is a request whose body also carries Android evidence under an enforced Widevine
  gate: the gate does not look at the platform then, and the claim is stored against the Android device instead.\<close>

theorem ios_claim_marked:
  assumes "register_claim rd auth hs body s = (Inr (Accepted resp), s')"
    and "enforce_auth (rg_config rd)" "as_platform auth = Some ''ios''" "rg_device_check rd = Some dc"
    and "rp_registration_outcome resp \<noteq> Some ''INSTANT''" "\<not> has_widevine_evidence rd body"
  shows "\<exists>token. device_token_bytes (rg_codecs rd) hs = Some token \<and> ios_marked dc token (reg_step s) (reg_step s')"
proof -
  from assms(1) obtain v p digits new s1 where prep: "prepare_claim rd auth hs body s = (Inr (v, p, digits, new), s1)"
    and rest: "(case pr_voucher p of
       Some key \<Rightarrow> rejecting (claim_with_voucher rd key digits new)
     | None \<Rightarrow> claim_standard rd auth hs v digits new) s1 = (Inr (Accepted resp), s')"
    unfolding register_claim_def by (auto simp: inr_iffs)
  have "rejecting (claim_with_voucher rd key digits new) s1 \<noteq> (Inr (Accepted resp), s')" for key
    using assms(5) by (auto simp: claim_with_voucher_def Let_def inr_iffs case_run_iffs case_lane_run_iff)
  with rest have "claim_standard rd auth hs v digits new s1 = (Inr (Accepted resp), s')" by (auto split: option.splits)
  then obtain device token available s2 s3 where gate: "run_widevine_gate rd auth v s1 = (Inr (GateProceed device), s2)"
    and dc: "device_check_gate rd auth hs s2 = (Inr (Inr (token, available)), s3)"
    and fin: "finish_claim rd auth digits new device token available s3 = (Inr (Accepted resp), s')"
    unfolding claim_standard_def by (auto simp: inr_iffs case_run_iffs case_gate_run_iff split: prod.splits)
  have "rg_json rd body = Some v" using prepare_claim_valid [OF prep] by (auto simp: claim_valid_def)
  with gate gate_device_evidence assms(6) have "device = None" by (cases device) blast+
  moreover obtain tok where tok: "token = Some tok" "device_token_bytes (rg_codecs rd) hs = Some tok"
    using device_check_gate_marks [OF dc assms(2-4)] by auto
  ultimately have marked: "ios_marked dc tok (reg_step s3) (reg_step s')" using finish_claim_marks fin assms(4) by blast
  have "reg_step s \<le> reg_step s1" using keepsD [OF clock.k_prepare [of "reg_step s" rd auth hs body], of s] prep by simp
  moreover have "reg_step s1 \<le> reg_step s2" using keepsD [OF clock.k_gate [of "reg_step s1" rd auth v], of s1] gate by simp
  moreover have "reg_step s2 \<le> reg_step s3" using keepsD [OF clock.k_device_gate [of "reg_step s2" rd auth hs], of s2] dc by simp
  ultimately show ?thesis using tok(2) ios_marked_mono [OF marked] by auto
qed

section \<open>Availability agrees with registration\<close>

text \<open>C30: What the availability endpoint promises is what the registration handler does with the same state of a base name.
  A base is reported available exactly when its full name can be reserved and some discriminator can be drawn; a
  preferred discriminator between 01 and 99 is accepted exactly when it is in the reported list; and without a
  preference the drawn one is always in the list, whatever the random source returns.\<close>

theorem availability_matches_selection:
  "(na_status (availability_of b) = ''AVAILABLE'' \<longleftrightarrow>
      \<not> rejects (reservation_of b) \<and> (\<forall>rnd. \<exists>d. select_digit rnd (taken b) None base = Inr d)) \<and>
   (case na_digits (availability_of b) of
      None \<Rightarrow> na_status (availability_of b) = ''EXHAUSTED''
    | Some ds \<Rightarrow>
        list_all (\<lambda>d. d \<in> set ds \<longleftrightarrow> (\<exists>x. select_digit rnd (taken b) (Some d) base = Inr x)) [1..<100] \<and>
        (\<exists>d. d \<in> set ds \<and> select_digit rnd (taken b) None base = Inr d))"
proof -
  have "set (available_digits (taken b)) = {d. 1 \<le> d \<and> d \<le> 99 \<and> d \<notin> taken b}" by (auto simp: available_digits_def)
  moreover have "available_digits (taken b) \<noteq> [] \<Longrightarrow>
      available_digits (taken b) ! (rnd mod length (available_digits (taken b))) \<in> set (available_digits (taken b))"
    by (intro nth_mem mod_less_divisor) simp
  ultimately show ?thesis
    by (auto simp: availability_of_def select_digit_def rejects_reservations_def Let_def list_all_iff simp del: upt_Suc)
qed

section \<open>A concrete claim\<close>

text \<open>An iOS claim in hard mode, with an Apple that keeps the mark it accepts at step 20.\<close>

definition apple_post :: "nat \<Rightarrow> string \<Rightarrow> string \<Rightarrow> dc_payload \<Rightarrow> string + nat \<times> (string + bytes)" where
  "apple_post n url jwt payload =
     (if url = ''u/query_two_bits'' then Inr (200, Inr (if n < 20 then [0] else [1]))
      else Inr (if n < 20 then 500 else 200, Inr []))"

definition demo_apple :: dc_client where
  "demo_apple = demo_dc\<lparr>dc_post := apple_post, dc_bits_json := \<lambda>b. Some (False, b = [1])\<rparr>"

definition demo_reg :: reg_deps where
  "demo_reg = \<lparr>rg_auth = demo_ax\<lparr>ax_codecs := demo_codecs\<lparr>cd_hex := \<lambda>s. Inr (replicate (length s div 2) 0),
       cd_ss58 := \<lambda>_. Inr [3], cd_b64 := \<lambda>_. Inr [7]\<rparr>\<rparr>,
     rg_people = demo_people, rg_device_check = Some demo_apple, rg_hmac = \<lambda>_ _. [], rg_json = \<lambda>_. Some JNull,
     rg_decode = \<lambda>_. Inr \<lparr>rr_candidate_account_id = ''c'', rr_username = ''abcdef'', rr_preferred_digits = Some (two_digits 7),
       rr_candidate_signature = ''0x'' @ replicate 128 (CHR ''0''), rr_ring_vrf_key = ''00'',
       rr_proof_of_ownership = ''0x'' @ replicate 128 (CHR ''0''), rr_consumer_registration_signature = ''0x'' @ replicate 128 (CHR ''0''),
       rr_identifier_key = ''0x'' @ replicate 130 (CHR ''0''), rr_payload_version = 1, rr_lifetime_poud_voucher = None,
       rr_dotns = None\<rparr>,
     rg_quota = \<lambda>_ _. Inr (), rg_random = \<lambda>_. 0, rg_timeout = \<lambda>_. False, rg_outbox_first = \<lambda>_. False\<rparr>"

definition demo_parsed :: parsed_register where
  "demo_parsed = \<lparr>pr_candidate_account_id = ''c'', pr_username = ''abcdef'', pr_preferred_digits = Some 7,
     pr_candidate_signature = replicate 64 0, pr_ring_vrf_key = [0], pr_proof_of_ownership = replicate 64 0,
     pr_consumer_registration_signature = replicate 64 0, pr_identifier_key = replicate 65 0, pr_payload_version = V1,
     pr_voucher = None, pr_dotns = None\<rparr>"

definition demo_ios :: auth_subject where
  "demo_ios = \<lparr>as_subject = ''s'', as_platform = Some ''ios'', as_app_from_official_store = None\<rparr>"

definition demo_ios_headers :: headers where
  "demo_ios_headers = [DEVICE_TOKEN_HEADER \<mapsto> demo_header ''abcd'']"

abbreviation demo_at :: "nat \<Rightarrow> reg_state" where
  "demo_at n \<equiv> ((\<lparr>w_db = empty_tables, w_step = n\<rparr>, None), None)"

lemmas demo_reg_defs = demo_reg_def demo_ax_def demo_config_def demo_apple_def demo_dc_def demo_ios_def

lemma demo_validated:
  "validate_register (rg_decode demo_reg) (ax_sr25519 (rg_auth demo_reg)) (rg_codecs demo_reg) (rg_config demo_reg) form now JNull
    = Inr demo_parsed"
proof -
  have "request_parses (rg_codecs demo_reg) (rg_config demo_reg) now (projr (rg_decode demo_reg JNull)) [3] demo_parsed"
    by (simp add: demo_reg_def demo_ax_def demo_config_def demo_parsed_def request_parses_def hex_ok_def ring_ok_def base_ok_def
        MAX_BASE_LEN_def is_ascii_lowercase_def is_ascii_hexdigit_def strip_0x_def strip_prefix_def)
  from validate_parsed [OF this, of "ax_sr25519 (rg_auth demo_reg)" form] show ?thesis
    by (simp add: validate_register_def demo_reg_def demo_ax_def claim_signature_ok_def verify_account_signature_def
        demo_parsed_def try_array_def)
qed

abbreviation demo_jwt :: "cached_jwt option" where
  "demo_jwt \<equiv> Some \<lparr>cj_token = ''j'', cj_expires_at = 600\<rparr>"

lemmas dc_run_defs = dc_call_def dc_jwt_def dc_mint_def dc_attempts.simps try_call_run dc_try_answer_def bindE_def on_first_def
  now_utc_def remote_def gets_def modify_def ret_def lift_result_def map_error_def attempt_def Let_def unix_timestamp_def

lemma demo_query:
  assumes "c = None \<or> c = demo_jwt" "n < 17"
  shows "already_used (quiet 0) demo_apple tok (\<lparr>w_db = t, w_step = n\<rparr>, c) = (Inr False, (\<lparr>w_db = t, w_step = n + 4\<rparr>, demo_jwt))"
  using assms by (auto simp: already_used_def query_bits_def dc_run_defs classify_query_response_def is_registered_def
      demo_apple_def demo_dc_def apple_post_def)

lemma demo_mark:
  "17 \<le> n \<Longrightarrow> register_device (quiet 0) demo_apple tok (\<lparr>w_db = t, w_step = n\<rparr>, demo_jwt) =
     (Inr (), (\<lparr>w_db = t, w_step = n + 4\<rparr>, demo_jwt))"
  by (auto simp: register_device_def dc_run_defs demo_apple_def demo_dc_def apple_post_def)

abbreviation demo_row :: new_reservation where
  "demo_row \<equiv> build_reservation demo_ios demo_parsed (two_digits 7) (''abcdef'' @ ''.'' @ two_digits 7)"

lemma demo_insert:
  "\<exists>t. insert_reservation demo_row None 0 empty_tables = (Inr 1, t)"
  by (simp add: insert_reservation_def insert_reserved_def insert_with_def Let_def empty_tables_def build_reservation_def
      demo_parsed_def)

lemma demo_reserve:
  assumes "c = None \<or> c = demo_jwt" "10 \<le> n" "n < 15"
  shows "\<exists>t. reserve demo_reg demo_row (Some tok) None None ((\<lparr>w_db = empty_tables, w_step = n\<rparr>, c), d) =
    (Inr (ReservedAs 1), ((\<lparr>w_db = t, w_step = n + 12\<rparr>, demo_jwt), d))"
proof -
  obtain t where t: "insert_reservation demo_row None 0 empty_tables = (Inr 1, t)" using demo_insert by blast
  have E: "rg_env demo_reg = quiet 0" "rg_device_check demo_reg = Some demo_apple" by (simp_all add: demo_reg_def demo_ax_def)
  have "reserve_free_ios demo_reg demo_apple demo_row None tok (\<lparr>w_db = empty_tables, w_step = n\<rparr>, c) =
      (Inr (ReservedAs 1), (\<lparr>w_db = t, w_step = n + 12\<rparr>, demo_jwt))"
    using demo_query [OF assms(1), of "Suc (Suc n)" tok empty_tables] demo_mark [of "7 + n" tok t] t assms(2,3)
    by (simp add: reserve_free_ios_def transaction_on_def E Let_def bindE_def map_err_def on_first_def tx_sql_def advisory_lock_def ret_def)
  then show ?thesis by (auto simp: reserve_def E map_err_def on_first_def)
qed

lemma demo_remembers: "apple_remembers demo_apple (\<lambda>_. ())"
  by (auto simp: apple_remembers_def answered_at_def demo_apple_def demo_dc_def apple_post_def split: if_splits)

theorem free_ios_once_witness:
  "\<exists>s s'. free_claims demo_reg s [[7]] s' \<and> distinct (map (\<lambda>_. ()) [[7 :: u8]])"
proof -
  let ?s = "demo_at 10"
  obtain t where "reserve demo_reg demo_row (Some [7]) None None ?s =
      (Inr (ReservedAs 1), ((\<lparr>w_db = t, w_step = 22\<rparr>, demo_jwt), None))" using demo_reserve [of None 10] by auto
  from free_claims.claim [OF free_claims.start this]
  have run: "free_claims demo_reg ?s [[7]] ((\<lparr>w_db = t, w_step = 22\<rparr>, demo_jwt), None)" by simp
  have "rg_device_check demo_reg = Some demo_apple" by (simp add: demo_reg_def)
  from free_ios_once [OF run this demo_remembers] run show ?thesis by blast
qed

lemma demo_prepared:
  "prepare_claim demo_reg demo_ios demo_ios_headers [] (demo_at n) =
     (Inr (JNull, demo_parsed, two_digits 7, demo_row), demo_at (n + 6))"
proof -
  have hdr: "validate_device_token_header demo_ios_headers = Inr ()"
    by (simp add: validate_device_token_header_def demo_ios_headers_def demo_header_def is_base64_def is_base64_char_def
        trim_end_matches_def Let_def)
  have form: "rg_people demo_reg = demo_people" "rg_env demo_reg = quiet 0" "rg_json demo_reg = (\<lambda>_. Some JNull)"
    "rg_random demo_reg = (\<lambda>_. 0)" "rg_outbox_first demo_reg = (\<lambda>_. False)" "pc_block demo_people = (\<lambda>_. Inr [1])"
    by (simp_all add: demo_reg_def demo_ax_def demo_people_def)
  have p: "pr_username demo_parsed = ''abcdef''" "pr_preferred_digits demo_parsed = Some 7" "pr_dotns demo_parsed = None"
    by (simp_all add: demo_parsed_def)
  show ?thesis
    by (simp add: prepare_claim_def hdr form demo_validated demo_base_state p parse_json_body_def ok_or_def
        at_current_block_def at_world_def on_first_def remote_def bindE_def map_err_def lift_result_def ret_def unix_now_def now_utc_def
        merged_base_state_def pending_digits_def rdb_def sql_def allocated_discriminators_def empty_tables_def map_error_def
        full_name_check_def reserved_name_def select_digit_def Let_def)
qed

lemma demo_claimed:
  assumes "n < 5"
  shows "\<exists>resp t. register_claim demo_reg demo_ios demo_ios_headers [] (demo_at n) =
     (Inr (Accepted resp), ((\<lparr>w_db = t, w_step = n + 22\<rparr>, demo_jwt), None)) \<and>
     rp_username resp = ''abcdef.'' @ two_digits 7 \<and> rp_registration_outcome resp = None"
proof -
  have tok: "device_token_bytes (rg_codecs demo_reg) demo_ios_headers = Some [7]"
    by (simp add: device_token_bytes_def header_text_def demo_ios_headers_def demo_header_def demo_reg_def demo_ax_def)
  have E: "rg_env demo_reg = quiet 0" "rg_device_check demo_reg = Some demo_apple" "widevine (rg_config demo_reg) = None"
    "enforce_auth (rg_config demo_reg)" "\<not> queue_enabled (rg_config demo_reg)" "as_platform demo_ios = Some ''ios''"
    by (simp_all add: demo_reg_def demo_ax_def demo_config_def demo_ios_def)
  have gate: "device_check_gate demo_reg demo_ios demo_ios_headers (demo_at (n + 6)) =
      (Inr (Inr (Some [7], Some True)), ((\<lparr>w_db = empty_tables, w_step = n + 10\<rparr>, demo_jwt), None))"
    using demo_query [of None "n + 6" "[7]" empty_tables] assms
    by (simp add: device_check_gate_def evaluate_def E tok Let_def bindE_def on_first_def attempt_def ret_def)
  obtain t where "reserve demo_reg demo_row (Some [7]) None None ((\<lparr>w_db = empty_tables, w_step = n + 10\<rparr>, demo_jwt), None) =
      (Inr (ReservedAs 1), ((\<lparr>w_db = t, w_step = n + 22\<rparr>, demo_jwt), None))"
    using demo_reserve [of demo_jwt "n + 10" "[7]" None] assms by auto
  moreover have "pr_voucher demo_parsed = None" "pr_username demo_parsed = ''abcdef''" by (simp_all add: demo_parsed_def)
  ultimately show ?thesis
    by (simp add: register_claim_def demo_prepared claim_standard_def run_widevine_gate_def E gate finish_claim_def intake_lane_def
        queue_standing_def bindE_def map_err_def ret_def build_reservation_def)
qed

lemma demo_registered:
  "\<exists>resp t. register demo_reg demo_ios demo_ios_headers [] (demo_at 0, Map.empty) =
     (Inr (Accepted resp), (((\<lparr>w_db = t, w_step = 23\<rparr>, demo_jwt), None), Map.empty)) \<and>
     rp_username resp = ''abcdef.'' @ two_digits 7"
proof -
  have "check_rate_limit demo_reg subject (demo_at 0, Map.empty) = (Inr (), (demo_at 1, Map.empty))" for subject
    by (simp add: check_rate_limit_def Let_def bindE_def on_first_def at_world_def remote_def allow_def spend_credit_def demo_reg_def)
  with demo_claimed [of 1] show ?thesis by (auto simp: register_def bindE_def map_err_def on_first_def)
qed

theorem accepted_claim_stored_witness:
  "\<exists>resp s' new. register demo_reg demo_ios demo_ios_headers [] (demo_at 0, Map.empty) = (Inr (Accepted resp), (s', Map.empty)) \<and>
     rp_username resp = ''abcdef.'' @ two_digits 7 \<and> has_payload new (reg_db s') \<and> n_full_username new = rp_username resp"
proof -
  obtain resp t where run: "register demo_reg demo_ios demo_ios_headers [] (demo_at 0, Map.empty) =
      (Inr (Accepted resp), (((\<lparr>w_db = t, w_step = 23\<rparr>, demo_jwt), None), Map.empty))"
    "rp_username resp = ''abcdef.'' @ two_digits 7" using demo_registered by blast
  have "stable (rg_env demo_reg) (has_payload new)" for new by (simp add: demo_reg_def demo_ax_def)
  from accepted_claim_stored [OF run(1) this] run show ?thesis by metis
qed


theorem ios_claim_marked_witness:
  "\<exists>token. device_token_bytes (rg_codecs demo_reg) demo_ios_headers = Some token \<and> ios_marked demo_apple token 0 22"
proof -
  obtain resp t where run: "register_claim demo_reg demo_ios demo_ios_headers [] (demo_at 0) =
      (Inr (Accepted resp), ((\<lparr>w_db = t, w_step = 22\<rparr>, demo_jwt), None))" "rp_registration_outcome resp = None"
    using demo_claimed [of 0] by auto
  have "enforce_auth (rg_config demo_reg)" "as_platform demo_ios = Some ''ios''" "rg_device_check demo_reg = Some demo_apple"
    "\<not> has_widevine_evidence demo_reg []"
    by (simp_all add: demo_reg_def demo_ax_def demo_config_def demo_ios_def has_widevine_evidence_def)
  from ios_claim_marked [OF run(1) this(1-3) _ this(4)] run(2) show ?thesis by simp
qed

end
