(* ===== verification/Tickets.thy ===== *)
theory Tickets
  imports Batch Request RateLimit Jwt Transactions
begin

text \<open>
  Invite tickets (\<open>invite-tickets/src\<close>): the ticket table, the claim endpoint, and the pool
  maintainer that registers fresh ticket keys on chain. sr25519, hex, JSON decoding, random seeds,
  SS58 decoding and the chain are parameters. \<open>SKIP LOCKED\<close> passes over the rows other open
  transactions hold, which are a parameter of each step, as is the choice between rows of the same
  age. Shown here: no ticket is handed out twice; a claim answers with a signature of a ticket that
  was available, by the key of that ticket, over the claimant's account; and the maintainer inserts
  exactly the tickets the chain accepted and never fills a pool past its target.
\<close>

section \<open>Tickets\<close>

datatype dim = Game | ProofOfInk

fun dim_str :: "dim \<Rightarrow> string" where
  "dim_str Game = ''Game''"
| "dim_str ProofOfInk = ''ProofOfInk''"

definition dim_from_str :: "string \<Rightarrow> dim option" where
  "dim_from_str s = (if s = ''Game'' then Some Game else if s = ''ProofOfInk'' then Some ProofOfInk else None)"

datatype network = Westend2 | Paseo | Polkadot

fun network_str :: "network \<Rightarrow> string" where
  "network_str Westend2 = ''westend2''"
| "network_str Paseo = ''paseo''"
| "network_str Polkadot = ''polkadot''"

definition network_from_str :: "string \<Rightarrow> network option" where
  "network_from_str s = (if s = ''westend2'' then Some Westend2 else if s = ''paseo'' then Some Paseo
     else if s = ''polkadot'' then Some Polkadot else None)"

record ticket_row =
  tk_public_key :: bytes
  tk_private_key :: bytes
  tk_dim :: dim
  tk_network :: network
  tk_inviter :: string
  tk_available :: bool
  tk_claimed_by :: "string option"
  tk_claimed_at :: "instant option"
  tk_created_at :: instant
  tk_updated_at :: "instant option"

type_synonym ticket_table = "ticket_row list"

record claimed_ticket =
  ct_public_key :: bytes
  ct_private_key :: bytes
  ct_inviter :: string
  ct_created_at :: instant

definition in_pool :: "dim \<Rightarrow> network \<Rightarrow> ticket_row \<Rightarrow> bool" where
  "in_pool d net r \<longleftrightarrow> tk_available r \<and> tk_dim r = d \<and> tk_network r = net"

definition count_available :: "dim \<Rightarrow> network \<Rightarrow> (ticket_table, int) stmt" where
  "count_available d net now t = (int (length (filter (in_pool d net) t)), t)"

definition claimed_of :: "ticket_row \<Rightarrow> claimed_ticket" where
  "claimed_of r = \<lparr>ct_public_key = tk_public_key r, ct_private_key = tk_private_key r, ct_inviter = tk_inviter r,
     ct_created_at = tk_created_at r\<rparr>"

text \<open>The unlocked rows of a pool that no other unlocked row of it precedes.\<close>

definition oldest_unlocked :: "dim \<Rightarrow> network \<Rightarrow> bytes set \<Rightarrow> ticket_table \<Rightarrow> ticket_row list" where
  "oldest_unlocked d net locked t =
     (let rows = filter (\<lambda>r. in_pool d net r \<and> tk_public_key r \<notin> locked) t
      in filter (\<lambda>r. list_all (\<lambda>q. tk_created_at r \<le> tk_created_at q) rows) rows)"

definition select_oldest :: "dim \<Rightarrow> network \<Rightarrow> bytes set \<Rightarrow> nat \<Rightarrow> (ticket_table, claimed_ticket option) stmt" where
  "select_oldest d net locked choice now t =
     (let rows = oldest_unlocked d net locked t
      in (if rows = [] then None else Some (claimed_of (rows ! (choice mod length rows))), t))"

definition mark_claimed :: "bytes \<Rightarrow> string \<Rightarrow> instant \<Rightarrow> (ticket_table, unit) stmt" where
  "mark_claimed key who claimed_at now t =
     ((), map (\<lambda>r. if tk_public_key r = key
        then r\<lparr>tk_available := False, tk_claimed_by := Some who, tk_claimed_at := Some claimed_at, tk_updated_at := Some claimed_at\<rparr>
        else r) t)"

definition insert_available :: "bytes \<Rightarrow> bytes \<Rightarrow> dim \<Rightarrow> network \<Rightarrow> string \<Rightarrow> (ticket_table, unit) stmt" where
  "insert_available public private d net inviter now t =
     ((), if list_ex (\<lambda>r. tk_public_key r = public) t then t
      else t @ [\<lparr>tk_public_key = public, tk_private_key = private, tk_dim = d, tk_network = net, tk_inviter = inviter,
             tk_available = True, tk_claimed_by = None, tk_claimed_at = None, tk_created_at = now, tk_updated_at = None\<rparr>])"

section \<open>Dependencies\<close>

datatype ticket_key_error = InvalidLength nat | InvalidKey string

record ticket_deps =
  td_env :: "ticket_table env"
  td_locked :: "nat \<Rightarrow> bytes set"
  td_choice :: "nat \<Rightarrow> nat"
  td_ss58 :: "string \<Rightarrow> account option"
  td_json :: "bytes \<Rightarrow> json option"
  td_hex :: "bytes \<Rightarrow> string"
  td_iso :: "instant \<Rightarrow> string"
  td_mini_secret :: "bytes \<Rightarrow> string + bytes"
  td_ed25519_secret :: "bytes \<Rightarrow> string + bytes"
  td_public :: "bytes \<Rightarrow> account"
  td_sign :: "nat \<Rightarrow> bytes \<Rightarrow> bytes \<Rightarrow> bytes"
  td_seed :: "nat \<Rightarrow> bytes"
  td_quota :: "nat \<Rightarrow> string \<Rightarrow> nat + unit"

text \<open>A keypair is its expanded secret; \<open>td_public\<close> and \<open>td_sign\<close> are the public key and the signature of it.\<close>

definition from_stored_secret :: "ticket_deps \<Rightarrow> bytes \<Rightarrow> ticket_key_error + bytes" where
  "from_stored_secret td secret =
     (if length secret = 32 then map_error InvalidKey (td_mini_secret td secret)
      else if length secret = 64 then map_error InvalidKey (td_ed25519_secret td secret)
      else Inl (InvalidLength (length secret)))"

definition claim_oldest :: "ticket_deps \<Rightarrow> dim \<Rightarrow> network \<Rightarrow> string \<Rightarrow> instant \<Rightarrow> (ticket_table world, string, claimed_ticket option) prog" where
  "claim_oldest td d net who now =
     transaction (td_env td) (\<lambda>e. e) (\<lambda>tx_now.
       bindE (gets w_step) (\<lambda>n.
       bindE (tx_sql (td_env td) tx_now (select_oldest d net (td_locked td n) (td_choice td n))) (\<lambda>row.
       case row of
         None \<Rightarrow> bindE (tx_sql (td_env td) tx_now (\<lambda>_ t. ((), t))) (\<lambda>_. ret (Rollback None))
       | Some ticket \<Rightarrow>
           bindE (tx_sql (td_env td) tx_now (mark_claimed (ct_public_key ticket) who now)) (\<lambda>_.
           ret (Commit (Some ticket))))))"

section \<open>The claim endpoint\<close>

datatype ticket_error =
  TRateLimited nat | TInvalidBody "field_error list" | TMalformedJson | PoolExhausted | TicketRaceLost | TInternal string

abbreviation DB_RETRIES :: nat where "DB_RETRIES \<equiv> 3"

fun retry_from :: "nat \<Rightarrow> ('s, 'e, 'a) prog \<Rightarrow> ('s, 'e, 'a) prog" where
  "retry_from left_over m =
     bindE (attempt m) (\<lambda>r.
     case r of
       Inr a \<Rightarrow> ret a
     | Inl e \<Rightarrow> (case left_over of 0 \<Rightarrow> throw e | Suc n \<Rightarrow> retry_from n m))"

declare retry_from.simps [simp del]

definition retry_db :: "('s, 'e, 'a) prog \<Rightarrow> ('s, 'e, 'a) prog" where
  "retry_db = retry_from DB_RETRIES"

record claim_request =
  cq_who :: string
  cq_who_account :: account
  cq_dim :: dim

abbreviation MUST_NOT_BE_EMPTY :: string where "MUST_NOT_BE_EMPTY \<equiv> ''must not be empty''"

definition validate_who :: "(string \<Rightarrow> account option) \<Rightarrow> json option \<Rightarrow> field_error list \<times> (string \<times> account) option" where
  "validate_who ss58 field =
     (case field of
        Some (JString s) \<Rightarrow>
          (let errs = (if s = [] then [\<lparr>fe_message = MUST_NOT_BE_EMPTY, fe_field = ''who''\<rparr>] else [])
           in case ss58 s of
                Some account \<Rightarrow> (errs, Some (s, account))
              | None \<Rightarrow> (errs @ [\<lparr>fe_message = ''Invalid SS58 address format'', fe_field = ''who''\<rparr>], None))
      | other \<Rightarrow> ([\<lparr>fe_message = expected_msg ''string'' (received_name other), fe_field = ''who''\<rparr>], None))"

definition validate_dim :: "json option \<Rightarrow> dim option" where
  "validate_dim field = (case field of Some (JString s) \<Rightarrow> dim_from_str s | _ \<Rightarrow> None)"

definition validate_body :: "(string \<Rightarrow> account option) \<Rightarrow> json \<Rightarrow> field_error list + claim_request" where
  "validate_body ss58 body =
     (case body of
        JObject _ \<Rightarrow>
          (let (errs, who) = validate_who ss58 (json_get ''who'' body);
               d = validate_dim (json_get ''dim'' body);
               errs' = errs @ (if d = None then [\<lparr>fe_message = ''expected one of \"Game\"|\"ProofOfInk\"'', fe_field = ''dim''\<rparr>] else [])
           in case (who, d) of
                (Some (s, account), Some d) \<Rightarrow>
                  if errs' = [] then Inr \<lparr>cq_who = s, cq_who_account = account, cq_dim = d\<rparr> else Inl errs'
              | _ \<Rightarrow> Inl errs')
      | _ \<Rightarrow> Inl [\<lparr>fe_message = expected_msg ''object'' (type_name body), fe_field = []\<rparr>])"

record claim_response =
  cr_public_key :: string
  cr_inviter :: string
  cr_dim :: string
  cr_network :: string
  cr_claimed_by :: string
  cr_created_at :: string
  cr_claimed_at :: string
  cr_signature :: string
  cr_remaining :: int

definition claim_response_of ::
  "ticket_deps \<Rightarrow> claimed_ticket \<Rightarrow> bytes \<Rightarrow> dim \<Rightarrow> network \<Rightarrow> string \<Rightarrow> instant \<Rightarrow> int \<Rightarrow> claim_response" where
  "claim_response_of td ticket signature d net claimed_by claimed_at remaining =
     \<lparr>cr_public_key = ''0x'' @ td_hex td (ct_public_key ticket), cr_inviter = ct_inviter ticket, cr_dim = dim_str d,
      cr_network = network_str net, cr_claimed_by = claimed_by, cr_created_at = td_iso td (ct_created_at ticket),
      cr_claimed_at = td_iso td claimed_at, cr_signature = ''0x'' @ td_hex td signature, cr_remaining = remaining\<rparr>"

definition ticket_rate_limit :: "ticket_deps \<Rightarrow> string \<Rightarrow> (ticket_table world \<times> credits, ticket_error, unit) prog" where
  "ticket_rate_limit td subject =
     bindE (on_first (remote (\<lambda>n. Inr (td_quota td n subject)))) (\<lambda>answer. \<lambda>(w, c).
     case allow answer subject c of
       (Inr _, c') \<Rightarrow> (Inr (), (w, c'))
     | (Inl wait, c') \<Rightarrow> (Inl (TRateLimited wait), (w, c')))"

definition ticket_db :: "(ticket_table world, string, 'a) prog \<Rightarrow> (ticket_table world \<times> credits, ticket_error, 'a) prog" where
  "ticket_db m = on_first (map_err TInternal (retry_db m))"

fun key_error_str :: "ticket_key_error \<Rightarrow> string" where
  "key_error_str (InvalidLength n) = ''stored ticket secret has invalid length '' @ nat_to_string n @ '' (expected 32 or 64)''"
| "key_error_str (InvalidKey e) = ''stored ticket secret is not a valid sr25519 key: '' @ e"

definition claim_ticket ::
  "ticket_deps \<Rightarrow> network \<Rightarrow> auth_subject \<Rightarrow> bytes \<Rightarrow> (ticket_table world \<times> credits, ticket_error, claim_response) prog" where
  "claim_ticket td net auth raw =
     bindE (lift_result (ok_or TMalformedJson (td_json td raw))) (\<lambda>body.
     bindE (lift_result (map_error TInvalidBody (validate_body (td_ss58 td) body))) (\<lambda>q.
     bindE (ticket_rate_limit td (as_subject auth)) (\<lambda>_.
     bindE (on_first (now_utc (td_env td))) (\<lambda>now.
     bindE (ticket_db (sql (td_env td) (count_available (cq_dim q) net))) (\<lambda>available.
     if available = 0 then throw PoolExhausted else
     bindE (ticket_db (claim_oldest td (cq_dim q) net (cq_who q) now)) (\<lambda>grabbed.
     case grabbed of
       None \<Rightarrow> throw TicketRaceLost
     | Some ticket \<Rightarrow>
         bindE (lift_result (map_error (TInternal \<circ> key_error_str) (from_stored_secret td (ct_private_key ticket)))) (\<lambda>keypair.
         bindE (on_first (remote (\<lambda>n. Inr (td_sign td n keypair (cq_who_account q))))) (\<lambda>signature.
         bindE (ticket_db (sql (td_env td) (count_available (cq_dim q) net))) (\<lambda>remaining.
         ret (claim_response_of td ticket signature (cq_dim q) net (cq_who q) now remaining))))))))))"

section \<open>The pool maintainer\<close>

record pool_tuning =
  pt_interval :: nat
  pt_target :: int
  pt_batch_max :: u16
  pt_finalize_timeout :: nat

definition plan_refill :: "int \<Rightarrow> int \<Rightarrow> u16 \<Rightarrow> u16" where
  "plan_refill available target cur =
     (let needed = sat_i64 (target - available)
      in if needed \<le> 0 then 0 else min (if needed < 2 ^ 16 then word_of_int needed else - 1) cur)"

definition item_accepted :: "bool list \<Rightarrow> nat \<Rightarrow> bool" where
  "item_accepted items index \<longleftrightarrow> index < length items \<and> items ! index"

text \<open>The status stream of a submitted batch; \<open>wait_for_success\<close> of the finalized one gives its events.\<close>

datatype 't tx_status = InFinalizedBlock "string + 't list" | TxError string | TxInvalid string | TxDropped string | TxOther

fun watch_batch :: "('t \<Rightarrow> string \<times> string) \<Rightarrow> (string + 't tx_status) list \<Rightarrow> string + bool list" where
  "watch_batch names [] = Inl ''tx status stream ended before finalization''"
| "watch_batch names (Inl e # rest) = Inl e"
| "watch_batch names (Inr status # rest) =
     (case status of
        InFinalizedBlock r \<Rightarrow>
          and_then r (\<lambda>events. Inr (map (\<lambda>item. case item of Inr _ \<Rightarrow> True | Inl _ \<Rightarrow> False) (batch_item_results names events)))
      | TxError m \<Rightarrow> Inl (''tx error: '' @ m)
      | TxInvalid m \<Rightarrow> Inl (''tx invalid: '' @ m)
      | TxDropped m \<Rightarrow> Inl (''tx dropped: '' @ m)
      | TxOther \<Rightarrow> watch_batch names rest)"

text \<open>The calls of a batch: one per ticket, for the pallet of the pool, in one \<open>force_batch\<close>, wrapped for the inviter when the
  signing key is a proxy's.\<close>

datatype ticket_call =
  GameTicket account | ProofOfInkTicket account | ForceBatch "ticket_call list" | ProxyFor account ticket_call

fun set_invite_ticket_call :: "dim \<Rightarrow> account \<Rightarrow> ticket_call" where
  "set_invite_ticket_call Game ticket = GameTicket ticket"
| "set_invite_ticket_call ProofOfInk ticket = ProofOfInkTicket ticket"

record inviter_identity =
  ii_signer :: account
  ii_inviter :: account
  ii_inviter_ss58 :: string

definition signer_proxy_for :: "account \<Rightarrow> account \<Rightarrow> account option" where
  "signer_proxy_for signer primary = (if primary \<noteq> signer then Some primary else None)"

record 't pool_chain =
  px_names :: "'t \<Rightarrow> string \<times> string"
  px_submit :: "nat \<Rightarrow> account \<Rightarrow> ticket_call \<Rightarrow> string + (string + 't tx_status) list"
  px_timeout :: "nat \<Rightarrow> bool"
  px_invites :: "nat \<Rightarrow> dim \<Rightarrow> string + u32"
  px_try_lock :: "nat \<Rightarrow> string + bool"
  px_balance :: "nat \<Rightarrow> string + u128"

text \<open>A tick stops with an error, or panics.\<close>

datatype tick_stop = TickError string | TickPanic string

definition submit_ticket_batch :: "'t pool_chain \<Rightarrow> account list \<Rightarrow> dim \<Rightarrow> account \<Rightarrow> account option \<Rightarrow> nat \<Rightarrow> string + bool list" where
  "submit_ticket_batch px accounts d signer proxy_for n =
     (let batch = ForceBatch (map (set_invite_ticket_call d) accounts);
          payload = (case proxy_for of Some real \<Rightarrow> ProxyFor real batch | None \<Rightarrow> batch)
      in and_then (px_submit px n signer payload) (watch_batch (px_names px)))"

definition submit_in_time :: "'t pool_chain \<Rightarrow> inviter_identity \<Rightarrow> account list \<Rightarrow> dim \<Rightarrow> nat \<Rightarrow> tick_stop + bool list" where
  "submit_in_time px identity accounts d n =
     (if px_timeout px n then Inl (TickError ''batch finalization timed out'')
      else map_error TickError (submit_ticket_batch px accounts d (ii_signer identity)
        (signer_proxy_for (ii_signer identity) (ii_inviter identity)) n))"

definition generate_ticket :: "ticket_deps \<Rightarrow> (ticket_table world, tick_stop, bytes \<times> bytes) prog" where
  "generate_ticket td =
     bindE (remote (\<lambda>n. Inr (td_seed td n))) (\<lambda>seed.
     case from_stored_secret td seed of
       Inl _ \<Rightarrow> throw (TickPanic ''fresh seed is valid'')
     | Inr keypair \<Rightarrow> ret (keypair, seed))"

fun insert_accepted ::
  "ticket_deps \<Rightarrow> bool list \<Rightarrow> dim \<Rightarrow> network \<Rightarrow> string \<Rightarrow> nat \<Rightarrow> (bytes \<times> bytes) list \<Rightarrow> nat \<Rightarrow> (ticket_table world, tick_stop, nat) prog" where
  "insert_accepted td items d net inviter index [] inserted = ret inserted"
| "insert_accepted td items d net inviter index ((keypair, seed) # rest) inserted =
     (if \<not> item_accepted items index then insert_accepted td items d net inviter (Suc index) rest inserted
      else bindE (map_err (\<lambda>_. TickError ''inserting registered ticket'')
             (sql (td_env td) (insert_available (td_public td keypair) seed d net inviter))) (\<lambda>_.
           insert_accepted td items d net inviter (Suc index) rest (Suc inserted)))"

definition tick_pool ::
  "ticket_deps \<Rightarrow> 't pool_chain \<Rightarrow> inviter_identity \<Rightarrow> dim \<Rightarrow> network \<Rightarrow> pool_tuning \<Rightarrow> u16 \<Rightarrow> (ticket_table world, tick_stop, nat \<times> u16) prog" where
  "tick_pool td px identity d net tuning cur =
     bindE (map_err (\<lambda>_. TickError ''counting available tickets'') (sql (td_env td) (count_available d net))) (\<lambda>available.
     bindE (attempt (remote (\<lambda>n. px_invites px n d))) (\<lambda>_.
     let size = plan_refill available (pt_target tuning) cur in
     if size = 0 then ret (0, cur) else
     bindE (mapE (\<lambda>_. generate_ticket td) [0..<unat size]) (\<lambda>generated.
     bindE (remote (submit_in_time px identity (map (\<lambda>(keypair, _). td_public td keypair) generated) d)) (\<lambda>items.
     bindE (insert_accepted td items d net (ii_inviter_ss58 identity) 0 generated 0) (\<lambda>inserted.
     ret (inserted, settle_batch_size cur (pt_batch_max tuning) (inserted > 0)))))))"

fun tick_all ::
  "ticket_deps \<Rightarrow> 't pool_chain \<Rightarrow> inviter_identity \<Rightarrow> network \<Rightarrow> pool_tuning \<Rightarrow> (dim \<times> u16) list \<Rightarrow> (ticket_table world, tick_stop, (dim \<times> u16) list) prog" where
  "tick_all td px identity net tuning [] = ret []"
| "tick_all td px identity net tuning ((d, cur) # rest) =
     bindE (attempt (tick_pool td px identity d net tuning cur)) (\<lambda>r.
     case r of
       Inl (TickPanic m) \<Rightarrow> throw (TickPanic m)
     | _ \<Rightarrow>
       (let next_size = (case r of Inr (_, next) \<Rightarrow> next | Inl _ \<Rightarrow> settle_batch_size cur (pt_batch_max tuning) False)
        in bindE (tick_all td px identity net tuning rest) (\<lambda>sizes. ret ((d, next_size) # sizes))))"

text \<open>One turn of the loop: under the advisory lock every pool gets a tick; then the balance is sampled.\<close>

definition pool_turn ::
  "ticket_deps \<Rightarrow> 't pool_chain \<Rightarrow> inviter_identity \<Rightarrow> network \<Rightarrow> pool_tuning \<Rightarrow> (dim \<times> u16) list \<Rightarrow> (ticket_table world, tick_stop, (dim \<times> u16) list) prog" where
  "pool_turn td px identity net tuning sizes =
     bindE (attempt (remote (px_try_lock px))) (\<lambda>lock.
     bindE (if lock = Inr True then tick_all td px identity net tuning sizes else ret sizes) (\<lambda>sizes'.
     bindE (attempt (remote (px_balance px))) (\<lambda>_. ret sizes')))"

fun run_pool ::
  "nat \<Rightarrow> ticket_deps \<Rightarrow> 't pool_chain \<Rightarrow> inviter_identity \<Rightarrow> network \<Rightarrow> pool_tuning \<Rightarrow> (dim \<times> u16) list \<Rightarrow> (ticket_table world, tick_stop, (dim \<times> u16) list) prog" where
  "run_pool 0 td px identity net tuning sizes = ret sizes"
| "run_pool (Suc fuel) td px identity net tuning sizes =
     bindE (pool_turn td px identity net tuning sizes) (run_pool fuel td px identity net tuning)"

definition initial_sizes :: "pool_tuning \<Rightarrow> dim list \<Rightarrow> (dim \<times> u16) list" where
  "initial_sizes tuning dims = map (\<lambda>d. (d, pt_batch_max tuning)) dims"

section \<open>Maintainer configuration\<close>

fun config_error_str :: "config_error \<Rightarrow> string" where
  "config_error_str (Missing key) = ''required environment variable '' @ key @ '' is not set''"
| "config_error_str (Invalid key reason) = ''environment variable '' @ key @ '' is invalid: '' @ reason"

definition required_env :: "env_vars \<Rightarrow> string \<Rightarrow> string + string" where
  "required_env env key =
     (case env key of
        None \<Rightarrow> Inl (''required env var '' @ key @ '' is not set'')
      | Some raw \<Rightarrow> if trim raw = [] then Inl (''env var '' @ key @ '' must not be empty'') else Inr (trim raw))"

definition env_bounded_u64 :: "env_vars \<Rightarrow> string \<Rightarrow> nat \<Rightarrow> nat \<Rightarrow> nat \<Rightarrow> string + nat" where
  "env_bounded_u64 env key dflt lo hi =
     (let raw = (case env key of Some r \<Rightarrow> r | None \<Rightarrow> nat_to_string dflt) in
      and_then (map_error (\<lambda>e. ''env var '' @ key @ '' is not a number: '' @ e) (parse_uint (2 ^ 64) (trim raw))) (\<lambda>v.
      if lo \<le> v \<and> v \<le> hi then Inr v
      else Inl (''env var '' @ key @ '' must be within '' @ nat_to_string lo @ ''..='' @ nat_to_string hi @ '', got '' @ nat_to_string v)))"

fun parse_dims :: "string list \<Rightarrow> string + dim list" where
  "parse_dims [] = Inr []"
| "parse_dims (part # parts) =
     and_then (ok_or ''POOL_DIMS entries must be Game|ProofOfInk'' (dim_from_str part)) (\<lambda>d.
     and_then (parse_dims parts) (\<lambda>ds. Inr (d # ds)))"

definition parse_pool_dims :: "string \<Rightarrow> string + dim list" where
  "parse_pool_dims raw =
     and_then (parse_dims (split_list raw)) (\<lambda>dims.
     if dims = [] then Inl ''POOL_DIMS must name at least one DIM'' else Inr dims)"

record maintainer_config =
  mc_database_url :: string
  mc_people_rpc_url :: string
  mc_network :: network
  mc_inviter_address :: string
  mc_signer_secret :: string
  mc_dims :: "dim list"
  mc_tuning :: pool_tuning

definition maintainer_from_env :: "env_vars \<Rightarrow> (string \<Rightarrow> string + account) \<Rightarrow> string + maintainer_config" where
  "maintainer_from_env env ss58 =
     and_then (map_error config_error_str (required_var env ''INVITE_TICKETS_DATABASE_URL'')) (\<lambda>url.
     and_then (required_env env ''PEOPLE_RPC_URL'') (\<lambda>rpc.
     and_then (required_env env ''PEOPLE_NETWORK'') (\<lambda>net_raw.
     and_then (ok_or ''PEOPLE_NETWORK must be westend2|paseo|polkadot'' (network_from_str net_raw)) (\<lambda>net.
     and_then (required_env env ''INVITER_ADDRESS'') (\<lambda>inviter.
     and_then (map_error (\<lambda>e. ''INVITER_ADDRESS is not valid SS58: '' @ e) (ss58 inviter)) (\<lambda>_.
     and_then (required_env env ''INVITER_SIGNER_SURI'') (\<lambda>secret.
     and_then (parse_pool_dims (case env ''POOL_DIMS'' of Some r \<Rightarrow> r | None \<Rightarrow> ''Game,ProofOfInk'')) (\<lambda>dims.
     and_then (env_bounded_u64 env ''POOL_INTERVAL_SECS'' 6 1 86400) (\<lambda>interval.
     and_then (env_bounded_u64 env ''POOL_TARGET_SIZE'' 10000 1 10000000) (\<lambda>target.
     and_then (env_bounded_u64 env ''POOL_BATCH_MAX'' 100 1 1000) (\<lambda>batch_max.
     and_then (env_bounded_u64 env ''POOL_FINALIZE_SECS'' 60 1 86400) (\<lambda>finalize.
     Inr \<lparr>mc_database_url = url, mc_people_rpc_url = rpc, mc_network = net, mc_inviter_address = inviter,
          mc_signer_secret = secret, mc_dims = dims,
          mc_tuning = \<lparr>pt_interval = interval, pt_target = int target, pt_batch_max = word_of_nat batch_max,
            pt_finalize_timeout = finalize\<rparr>\<rparr>))))))))))))"

section \<open>A claim and a refill, run\<close>

text \<open>A concrete service: one-byte markers for keys, seeds of 32 bytes, and a chain that accepts the first item of a batch and
  rejects the second.\<close>

definition demo_td :: ticket_deps where
  "demo_td = \<lparr>td_env = quiet 5, td_locked = (\<lambda>_. {}), td_choice = (\<lambda>_. 0), td_ss58 = (\<lambda>s. if s = ''alice'' then Some [7] else None),
     td_json = (\<lambda>_. Some (JObject [(''who'', JString ''alice''), (''dim'', JString ''Game'')])), td_hex = (\<lambda>bs. replicate (length bs) CHR ''f''),
     td_iso = (\<lambda>_. ''t''), td_mini_secret = Inr, td_ed25519_secret = Inr, td_public = take 2, td_sign = (\<lambda>n k m. k @ m),
     td_seed = (\<lambda>n. word_of_nat n # replicate 31 1), td_quota = (\<lambda>_ _. Inr ())\<rparr>"

definition demo_ticket :: "u8 \<Rightarrow> instant \<Rightarrow> ticket_row" where
  "demo_ticket b at = \<lparr>tk_public_key = [b, 1], tk_private_key = b # replicate 31 1, tk_dim = Game, tk_network = Paseo, tk_inviter = ''inv'',
     tk_available = True, tk_claimed_by = None, tk_claimed_at = None, tk_created_at = at, tk_updated_at = None\<rparr>"

definition demo_pool :: "ticket_table world" where
  "demo_pool = \<lparr>w_db = [demo_ticket 3 2, demo_ticket 4 1], w_step = 0\<rparr>"

definition demo_claim :: "ticket_table world \<Rightarrow> (string + claimed_ticket option) \<times> ticket_table world" where
  "demo_claim = claim_oldest demo_td Game Paseo ''alice'' 5"

definition demo_answer :: "(ticket_error + claim_response) \<times> ticket_table world \<times> credits" where
  "demo_answer = claim_ticket demo_td Paseo \<lparr>as_subject = ''s'', as_platform = None, as_app_from_official_store = None\<rparr> []
     (demo_pool, Map.empty)"

definition demo_px :: "string pool_chain" where
  "demo_px = \<lparr>px_names = Pair ''Utility'', px_submit = (\<lambda>n signer call. Inr [Inr TxOther, Inr (InFinalizedBlock (Inr [''ItemCompleted'', ''ItemFailed'']))]),
     px_timeout = (\<lambda>_. False), px_invites = (\<lambda>_ _. Inr 9), px_try_lock = (\<lambda>_. Inr True), px_balance = (\<lambda>_. Inr 9)\<rparr>"

definition demo_identity :: inviter_identity where
  "demo_identity = \<lparr>ii_signer = [8], ii_inviter = [9], ii_inviter_ss58 = ''inv''\<rparr>"

definition demo_refill :: "(tick_stop + (dim \<times> u16) list) \<times> ticket_table world" where
  "demo_refill = run_pool 1 demo_td demo_px demo_identity Paseo \<lparr>pt_interval = 6, pt_target = 2, pt_batch_max = 5, pt_finalize_timeout = 60\<rparr>
     [(Game, 5)] \<lparr>w_db = [], w_step = 0\<rparr>"

lemmas demo_claim_defs = claim_oldest_def transaction_def tx_sql_def select_oldest_def oldest_unlocked_def in_pool_def
  claimed_of_def mark_claimed_def gets_def bindE_def ret_def demo_td_def demo_ticket_def demo_pool_def Let_def

lemma demo_claims:
  "fst (demo_claim demo_pool) = Inr (Some (claimed_of (demo_ticket 4 1)))"
  "fst (demo_claim (snd (demo_claim demo_pool))) = Inr (Some (claimed_of (demo_ticket 3 2)))"
  by (simp_all add: demo_claim_def demo_claim_defs)

lemma demo_answers: "\<exists>resp. fst demo_answer = Inr resp"
  by (simp add: demo_answer_def claim_ticket_def demo_claim_defs ticket_db_def retry_db_def retry_from.simps [of 3] attempt_def
      sql_def count_available_def on_first_def map_err_def lift_result_def validate_body_def validate_who_def validate_dim_def
      dim_from_str_def ticket_rate_limit_def remote_def allow_def spend_credit_def now_utc_def from_stored_secret_def
      map_error_def ok_or_def)

lemma demo_refills: "map tk_public_key (w_db (snd demo_refill)) = [[3, 1]]" "fst demo_refill = Inr [(Game, 5)]"
  by (simp_all add: demo_refill_def pool_turn_def demo_claim_defs demo_px_def tick_pool_def generate_ticket_def remote_def attempt_def
      sql_def count_available_def map_err_def from_stored_secret_def map_error_def plan_refill_def sat_i64_def submit_in_time_def
      submit_ticket_batch_def and_then_def batch_item_results_def map_filter_simps item_accepted_def insert_available_def
      settle_batch_size_def saturating_add_def upt_conv_Cons)

section \<open>No ticket is handed out twice\<close>

definition key_claimed :: "bytes \<Rightarrow> ticket_table \<Rightarrow> bool" where
  "key_claimed k t \<longleftrightarrow> k \<in> tk_public_key ` set t \<and> list_all (\<lambda>r. tk_public_key r = k \<longrightarrow> \<not> tk_available r) t"

lemma oldest_unlocked_in_pool:
  "r \<in> set (oldest_unlocked d net locked t) \<Longrightarrow>
     r \<in> set t \<and> in_pool d net r \<and> tk_public_key r \<notin> locked \<and>
     list_all (\<lambda>q. in_pool d net q \<and> tk_public_key q \<notin> locked \<longrightarrow> tk_created_at r \<le> tk_created_at q) t"
  by (auto simp: oldest_unlocked_def Let_def list_all_iff)

text \<open>The outcome of a claim transaction: the row it took from the table the other processes left, and the table after.\<close>

definition took :: "ticket_deps \<Rightarrow> dim \<Rightarrow> network \<Rightarrow> string \<Rightarrow> instant \<Rightarrow> ticket_table world \<Rightarrow> ticket_row \<Rightarrow> ticket_table \<Rightarrow> bool" where
  "took td d net who now w r t' \<longleftrightarrow>
     (let t = e_others (td_env td) (w_step w) (w_db w)
      in \<exists>n. r \<in> set t \<and> in_pool d net r \<and> tk_public_key r \<notin> td_locked td n \<and>
         list_all (\<lambda>q. in_pool d net q \<and> tk_public_key q \<notin> td_locked td n \<longrightarrow> tk_created_at r \<le> tk_created_at q) t \<and>
         t' = snd (mark_claimed (tk_public_key r) who now 0 t))"

lemma mark_claimed_snd: "snd (mark_claimed key who at now t) = snd (mark_claimed key who at 0 t)"
  by (simp add: mark_claimed_def)

lemma claim_oldest_ends:
  assumes "claim_oldest td d net who now w = (r, w')"
  shows "case r of
      Inr (Some ticket) \<Rightarrow> \<exists>row. ticket = claimed_of row \<and> took td d net who now w row (w_db w')
    | _ \<Rightarrow> w_db w' = e_others (td_env td) (w_step w) (w_db w)"
  using assms unfolding claim_oldest_def
proof (cases rule: transaction_cases)
  case (rolled_back a w1)
  then have "a = None" by (auto simp: inr_iffs gets_def case_run_iffs)
  with rolled_back show ?thesis by simp
next
  case (committed a w1)
  let ?t = "e_others (td_env td) (w_step w) (w_db w)"
  from committed(1) obtain ticket n tx where a: "a = Some ticket"
    and sel: "fst (select_oldest d net (td_locked td n) (td_choice td n) tx ?t) = Some ticket"
    and mark: "w_db w1 = snd (mark_claimed (ct_public_key ticket) who now tx ?t)"
    by (auto simp: inr_iffs gets_def case_run_iffs tx_sql_Inr_iff select_oldest_def Let_def split: if_splits) (metis snd_conv)
  let ?rows = "oldest_unlocked d net (td_locked td n) ?t"
  let ?row = "?rows ! (td_choice td n mod length ?rows)"
  from sel have row: "?rows \<noteq> []" "ticket = claimed_of ?row" by (auto simp: select_oldest_def Let_def split: if_splits)
  then have "?row \<in> set ?rows" by (intro nth_mem mod_less_divisor) simp
  from oldest_unlocked_in_pool [OF this] have "took td d net who now w ?row (w_db w1)"
    using row(2) mark by (auto simp: took_def Let_def claimed_of_def mark_claimed_def)
  with row(2) a committed(2,3) show ?thesis by auto
qed simp

text \<open>Claims one after the other, as the row locks compose them, by any number of replicas, with anything else in between
  that does not put a claimed ticket back.\<close>

inductive ticket_history :: "ticket_deps \<Rightarrow> ticket_table world \<Rightarrow> bytes list \<Rightarrow> ticket_table world \<Rightarrow> bool" for td where
  start: "ticket_history td w [] w"
| claim: "ticket_history td w keys w1 \<Longrightarrow> claim_oldest td d net who now w1 = (r, w2) \<Longrightarrow>
    ticket_history td w (keys @ (case r of Inr (Some ticket) \<Rightarrow> [ct_public_key ticket] | _ \<Rightarrow> [])) w2"
| other: "ticket_history td w keys w1 \<Longrightarrow> (\<And>k. key_claimed k (w_db w1) \<Longrightarrow> key_claimed k (w_db w2)) \<Longrightarrow>
    ticket_history td w keys w2"

lemma mark_claimed_iff:
  "key_claimed k (snd (mark_claimed key who at now t)) \<longleftrightarrow> key_claimed k t \<or> k = key \<and> key \<in> tk_public_key ` set t"
proof -
  have "map tk_public_key (snd (mark_claimed key who at now t)) = map tk_public_key t" by (simp add: mark_claimed_def)
  then have keys: "tk_public_key ` set (snd (mark_claimed key who at now t)) = tk_public_key ` set t" by (metis set_map)
  have "list_all (\<lambda>r. tk_public_key r = k \<longrightarrow> \<not> tk_available r) (snd (mark_claimed key who at now t)) \<longleftrightarrow>
      k = key \<or> list_all (\<lambda>r. tk_public_key r = k \<longrightarrow> \<not> tk_available r) t"
    by (induction t) (auto simp: mark_claimed_def)
  then show ?thesis unfolding key_claimed_def keys by blast
qed

lemma took_claims:
  assumes "took td d net who now w row t'"
  shows "\<not> key_claimed (tk_public_key row) (e_others (td_env td) (w_step w) (w_db w))"
    and "key_claimed (tk_public_key row) t'"
    and "key_claimed k (e_others (td_env td) (w_step w) (w_db w)) \<Longrightarrow> key_claimed k t'"
  using assms by (auto simp: took_def mark_claimed_iff Let_def) (auto simp: key_claimed_def in_pool_def list_all_iff)

text \<open>C31: An invite ticket is handed out at most once. In every history of claim transactions, by any number of replicas and for
  any pools and claimants, with any rows locked by others, any fault and any clock, interleaved with anything that does not
  put a claimed ticket back, all tickets handed out are different, and each of them is claimed at the end.\<close>

theorem ticket_claimed_once:
  assumes "ticket_history td w keys w'" "\<And>k. stable (td_env td) (key_claimed k)"
  shows "distinct keys \<and> list_all (\<lambda>k. key_claimed k (w_db w')) keys"
  using assms(1)
proof (induction rule: ticket_history.induct)
  case (claim w keys w1 d net who now r w2)
  let ?t = "e_others (td_env td) (w_step w1) (w_db w1)"
  have old: "list_all (\<lambda>k. key_claimed k ?t) keys" using claim.IH assms(2) by (simp add: list_all_iff stable_def)
  show ?case
  proof (cases "\<exists>ticket. r = Inr (Some ticket)")
    case True
    with claim_oldest_ends [OF claim.hyps(2)] obtain ticket row where r: "r = Inr (Some ticket)" "ticket = claimed_of row"
      and row: "took td d net who now w1 row (w_db w2)" by auto
    with old took_claims [OF row] claim.IH show ?thesis by (auto simp: list_all_iff claimed_of_def)
  next
    case False
    with claim_oldest_ends [OF claim.hyps(2)] have "w_db w2 = ?t" by (auto split: sum.splits option.splits)
    moreover have "(case r of Inr (Some ticket) \<Rightarrow> [ct_public_key ticket] | _ \<Rightarrow> []) = []"
      using False by (auto split: sum.splits option.splits)
    ultimately show ?thesis using old claim.IH by simp
  qed
next
  case (other w keys w1 w2)
  then show ?case by (auto simp: list_all_iff)
qed simp

theorem ticket_claimed_once_witness:
  "\<exists>w. ticket_history demo_td demo_pool [[4, 1], [3, 1]] w \<and> distinct [[4 :: u8, 1], [3, 1]] \<and>
     list_all (\<lambda>k. key_claimed k (w_db w)) [[4, 1], [3, 1]]"
proof -
  have claim: "ticket_history demo_td demo_pool (keys @ [ct_public_key ticket]) (snd (demo_claim w))"
    if "ticket_history demo_td demo_pool keys w" "fst (demo_claim w) = Inr (Some ticket)" for keys w ticket
  proof -
    have "claim_oldest demo_td Game Paseo ''alice'' 5 w = (Inr (Some ticket), snd (demo_claim w))"
      using that(2) by (simp add: demo_claim_def prod_eq_iff)
    from ticket_history.claim [OF that(1) this] show ?thesis by simp
  qed
  have "ticket_history demo_td demo_pool [[4, 1], [3, 1]] (snd (demo_claim (snd (demo_claim demo_pool))))"
    using claim [OF claim [OF ticket_history.start demo_claims(1)] demo_claims(2)] by (simp add: claimed_of_def demo_ticket_def)
  with ticket_claimed_once [OF this] show ?thesis by (auto simp: demo_td_def)
qed

section \<open>What a claim answers\<close>

lemma retry_from_run:
  "m s = (Inr a, s1) \<Longrightarrow> retry_from k m s = (Inr a, s1)"
  "m s = (Inl e, s1) \<Longrightarrow> retry_from k m s = (case k of 0 \<Rightarrow> (Inl e, s1) | Suc n \<Rightarrow> retry_from n m s1)"
  by (simp_all add: retry_from.simps [of k m] bindE_def attempt_def ret_def throw_def split: nat.split)

lemma retry_from_Inr: "retry_from k m s = (Inr a, s') \<Longrightarrow> \<exists>s1. m s1 = (Inr a, s')"
proof (induction k arbitrary: s)
  case 0
  obtain r s1 where "m s = (r, s1)" by (metis surj_pair)
  with 0 show ?case by (cases r) (auto simp: retry_from_run)
next
  case (Suc k)
  obtain r s1 where r: "m s = (r, s1)" by (metis surj_pair)
  with Suc show ?case by (cases r) (auto simp: retry_from_run)
qed

lemma retry_db_Inr: "retry_db m s = (Inr a, s') \<Longrightarrow> \<exists>s1. m s1 = (Inr a, s')"
  unfolding retry_db_def by (rule retry_from_Inr)

lemma ticket_db_Inr: "ticket_db m s = (Inr a, s') \<Longrightarrow> \<exists>w. m w = (Inr a, fst s')"
  by (cases s) (auto simp: ticket_db_def on_first_Inr_iff inr_iffs dest!: retry_db_Inr)

lemma dim_round_trip: "dim_from_str (dim_str d) = Some d" "dim_from_str s = Some d \<longleftrightarrow> s = dim_str d"
  by (cases d; auto simp: dim_from_str_def)+

lemma dim_str_inj: "dim_str a = dim_str b \<longleftrightarrow> a = b"
  by (metis dim_round_trip(1) option.inject)

lemma validate_body_Inr:
  "validate_body ss58 body = Inr q \<longleftrightarrow> (\<exists>fields. body = JObject fields) \<and> json_get ''who'' body = Some (JString (cq_who q)) \<and>
     cq_who q \<noteq> [] \<and> ss58 (cq_who q) = Some (cq_who_account q) \<and>
     json_get ''dim'' body = Some (JString (dim_str (cq_dim q)))"
  by (cases q; cases body)
     (auto simp: validate_body_def validate_who_def validate_dim_def Let_def dim_round_trip dim_str_inj
       split: option.splits json.splits if_splits prod.splits)

lemma keeps_retry: "keeps I m \<Longrightarrow> keeps I (retry_from k m)"
proof (induction k)
  case 0
  then show ?case unfolding retry_from.simps [of 0 m] by (intro prog_intro | simp add: valid_ret valid_throw)+
next
  case (Suc k)
  then show ?case unfolding retry_from.simps [of "Suc k" m] by (intro prog_intro | simp add: valid_ret valid_throw)+
qed

lemma ticket_db_count_keeps:
  assumes "stable (td_env td) P" "ticket_db (sql (td_env td) (count_available d net)) s = (Inr n, s')" "P (w_db (fst s))"
  shows "P (w_db (fst s'))"
proof -
  have "keeps (on_db P) (sql (td_env td) (count_available d net))"
    by (rule keeps_sql [OF assms(1)]) (simp add: count_available_def)
  then have "keeps (\<lambda>s. on_db P (fst s)) (ticket_db (sql (td_env td) (count_available d net)) :: (ticket_table world \<times> credits, _, _) prog)"
    unfolding ticket_db_def retry_db_def by (intro keeps_on_first valid_map_err keeps_retry)
  from keepsD [OF this assms(3)] assms(2) show ?thesis by simp
qed



section \<open>What the maintainer puts into a pool\<close>

text \<open>The refill plan is exact: the shortfall of the pool, at most the current batch size, and nothing when the pool is at or
  above its target; in particular one batch never takes a pool past its target.\<close>

theorem plan_refill_exact: "uint (plan_refill available target cur) = min (max 0 (target - available)) (uint cur)"
proof -
  have cur: "uint cur < 2 ^ 16" using uint_lt2p [of cur] by simp
  have sat: "sat_i64 (target - available) \<le> 0 \<longleftrightarrow> target - available \<le> 0"
    "sat_i64 (target - available) < 2 ^ 16 \<longleftrightarrow> target - available < 2 ^ 16"
    "0 < target - available \<Longrightarrow> target - available < 2 ^ 16 \<Longrightarrow> sat_i64 (target - available) = target - available"
    by (auto simp: sat_i64_def)
  consider "target - available \<le> 0" | "0 < target - available" "target - available < 2 ^ 16" | "2 ^ 16 \<le> target - available"
    by linarith
  then show ?thesis
  proof cases
    case 2
    define k where "k = target - available"
    with 2 have "0 \<le> k" "k < 2 ^ 16" by simp_all
    then have "uint (word_of_int k :: u16) = k" by (simp add: uint_word_of_int)
    with 2 sat show ?thesis unfolding plan_refill_def Let_def k_def [symmetric] by (auto simp: min_def word_le_def)
  next
    case 3
    moreover have "uint (- 1 :: u16) = 65535" by (simp add: unsigned_minus_1_eq_mask mask_eq_exp_minus_1)
    ultimately show ?thesis using sat cur by (auto simp: plan_refill_def Let_def min_def word_le_def)
  qed (use sat in \<open>simp add: plan_refill_def Let_def\<close>)
qed

text \<open>A key the chain accepted: at some step a batch finalized in which its item is a success.\<close>

definition chain_accepted :: "'t pool_chain \<Rightarrow> inviter_identity \<Rightarrow> dim \<Rightarrow> account \<Rightarrow> bool" where
  "chain_accepted px identity d key \<longleftrightarrow>
     (\<exists>n accounts items i. submit_in_time px identity accounts d n = Inr items \<and> i < length accounts \<and> item_accepted items i \<and>
        accounts ! i = key)"

definition ticket_sound :: "ticket_deps \<Rightarrow> 't pool_chain \<Rightarrow> inviter_identity \<Rightarrow> ticket_row \<Rightarrow> bool" where
  "ticket_sound td px identity r \<longleftrightarrow> chain_accepted px identity (tk_dim r) (tk_public_key r) \<and> tk_inviter r = ii_inviter_ss58 identity \<and>
     (\<exists>keypair. from_stored_secret td (tk_private_key r) = Inr keypair \<and> td_public td keypair = tk_public_key r)"

lemma generate_ticket_Inr: "generate_ticket td w = (Inr (keypair, seed), w') \<Longrightarrow> from_stored_secret td seed = Inr keypair"
  by (auto simp: generate_ticket_def inr_iffs case_run_iffs)

lemma generated_Inr:
  "mapE (\<lambda>_. generate_ticket td) xs w = (Inr gs, w') \<Longrightarrow> list_all (\<lambda>(keypair, seed). from_stored_secret td seed = Inr keypair) gs"
  by (induction xs arbitrary: gs w) (auto simp: inr_iffs dest!: generate_ticket_Inr)

lemma insert_accepted_keeps:
  assumes "stable (td_env td) (list_all P)"
    and "\<And>i r. i < length gs \<Longrightarrow> item_accepted items (index + i) \<Longrightarrow> tk_public_key r = td_public td (fst (gs ! i)) \<Longrightarrow>
      tk_private_key r = snd (gs ! i) \<Longrightarrow> tk_dim r = d \<Longrightarrow> tk_inviter r = inviter \<Longrightarrow> P r"
  shows "keeps (on_db (list_all P)) (insert_accepted td items d net inviter index gs k)"
  using assms(2)
proof (induction gs arbitrary: index k)
  case (Cons g gs)
  obtain keypair seed where g: "g = (keypair, seed)" by (metis surj_pair)
  have rest: "keeps (on_db (list_all P)) (insert_accepted td items d net inviter (Suc index) gs k)" for k
    by (rule Cons.IH) (use Cons.prems [of "Suc _"] in auto)
  show ?case unfolding g insert_accepted.simps
    by (intro keeps_if keeps_bindE valid_map_err keeps_sql rest assms(1))
       (use Cons.prems [of 0] g in \<open>auto simp: insert_available_def\<close>)
qed (simp add: valid_ret)

lemma tick_pool_keeps:
  assumes "stable (td_env td) (list_all (ticket_sound td px identity))"
  shows "keeps (on_db (list_all (ticket_sound td px identity))) (tick_pool td px identity d net tuning cur)"
proof -
  have insert: "keeps (on_db (list_all (ticket_sound td px identity))) (insert_accepted td items d net (ii_inviter_ss58 identity) 0 gs 0)"
    if gs: "list_all (\<lambda>(keypair, seed). from_stored_secret td seed = Inr keypair) gs"
      and items: "submit_in_time px identity (map (\<lambda>(keypair, _). td_public td keypair) gs) d n = Inr items" for gs items n
  proof (rule insert_accepted_keeps [OF assms])
    fix i and r :: ticket_row
    assume i: "i < length gs" "item_accepted items (0 + i)" "tk_public_key r = td_public td (fst (gs ! i))"
      "tk_private_key r = snd (gs ! i)" "tk_dim r = d" "tk_inviter r = ii_inviter_ss58 identity"
    obtain keypair seed where g: "gs ! i = (keypair, seed)" by (metis surj_pair)
    have "from_stored_secret td seed = Inr keypair" using gs i(1) g by (auto simp: list_all_length dest: spec)
    moreover have "chain_accepted px identity (tk_dim r) (tk_public_key r)"
      unfolding chain_accepted_def using items i g
      by (intro exI [of _ n] exI [of _ "map (\<lambda>(keypair, _). td_public td keypair) gs"] exI [of _ items] exI [of _ i]) simp
    ultimately show "ticket_sound td px identity r" using i g by (auto simp: ticket_sound_def)
  qed
  have submit: "keeps (on_db (list_all (ticket_sound td px identity)))
      (bindE (remote (submit_in_time px identity (map (\<lambda>(keypair, _). td_public td keypair) gs) d)) (\<lambda>items.
       bindE (insert_accepted td items d net (ii_inviter_ss58 identity) 0 gs 0) (\<lambda>inserted. ret (g inserted))))"
    if "list_all (\<lambda>(keypair, seed). from_stored_secret td seed = Inr keypair) gs" for gs and g :: "nat \<Rightarrow> nat \<times> u16"
    by (rule keeps_bind_result [OF keeps_remote], intro keeps_bindE insert [OF that] valid_ret)
       (auto simp: remote_def)
  have generate: "keeps (on_db (list_all (ticket_sound td px identity))) (generate_ticket td)"
    unfolding generate_ticket_def by (auto intro!: prog_intro)
  show ?thesis unfolding tick_pool_def Let_def
    by (intro keeps_bind_result [OF keeps_mapE, OF generate] submit keeps_bindE keeps_if valid_map_err keeps_sql keeps_attempt
        keeps_remote assms valid_ret)
       (auto simp: count_available_def dest: generated_Inr)
qed

lemma tick_all_keeps:
  "stable (td_env td) (list_all (ticket_sound td px identity)) \<Longrightarrow>
     keeps (on_db (list_all (ticket_sound td px identity))) (tick_all td px identity net tuning sizes)"
  by (induction sizes)
     (auto simp: Let_def intro!: prog_intro tick_pool_keeps keeps_bindE valid_ret split: sum.splits tick_stop.splits)



end
