(* ===== verification/Turn.thy ===== *)
theory Turn
  imports Request RateLimit Jwt Env Transactions
begin

text \<open>
  TURN credentials (\<open>turn/src\<close>): the coturn issuer, the Cloudflare client with its cache and breaker,
  the credential source and the authenticated \<open>/issue\<close> route, with their configuration. HMAC, base64,
  hex, the HTTP transport and random bytes are parameters. The client's locks are taken one
  at a time; between two critical sections other requests may do anything to the shared state,
  which the environment's \<open>e_others\<close> stands for. No critical section panics, so no lock is poisoned.
  Additions wrap, as they do in a release build. Shown here: a cached credential is handed out
  only while it is useful; the breaker opens at the third failure in a row and a success closes it;
  the proof credential's keyed input is unambiguous; a request the provider could not serve is not
  charged.
\<close>

section \<open>The coturn issuer\<close>

datatype algorithm = Sha1 | Sha256 | Sha384 | Sha512

fun algorithm_str :: "algorithm \<Rightarrow> string" where
  "algorithm_str Sha1 = ''SHA1''"
| "algorithm_str Sha256 = ''SHA256''"
| "algorithm_str Sha384 = ''SHA384''"
| "algorithm_str Sha512 = ''SHA512''"

definition algorithm_from_str :: "string \<Rightarrow> algorithm option" where
  "algorithm_from_str s = (if s = ''SHA1'' then Some Sha1 else if s = ''SHA256'' then Some Sha256
     else if s = ''SHA384'' then Some Sha384 else if s = ''SHA512'' then Some Sha512 else None)"

record credentials =
  cr_username :: string
  cr_password :: string

record turn_issuer =
  is_secret :: bytes
  is_algorithm :: algorithm
  is_ttl_secs :: u64

record turn_crypto =
  tc_hmac :: "algorithm \<Rightarrow> bytes \<Rightarrow> bytes \<Rightarrow> bytes"
  tc_base64 :: "bytes \<Rightarrow> string"
  tc_hex :: "bytes \<Rightarrow> string"

fun be_bytes_of :: "nat \<Rightarrow> nat \<Rightarrow> bytes" where
  "be_bytes_of 0 n = []"
| "be_bytes_of (Suc k) n = be_bytes_of k (n div 256) @ [word_of_nat n]"

definition u64_be :: "u64 \<Rightarrow> bytes" where
  "u64_be w = be_bytes_of 8 (unat w)"

definition password_for :: "turn_crypto \<Rightarrow> turn_issuer \<Rightarrow> string \<Rightarrow> string" where
  "password_for tc iss username = tc_base64 tc (tc_hmac tc (is_algorithm iss) (is_secret iss) (as_bytes username))"

definition issue_until :: "turn_crypto \<Rightarrow> turn_issuer \<Rightarrow> u64 \<Rightarrow> bytes \<Rightarrow> credentials" where
  "issue_until tc iss expiry rid =
     (let username = nat_to_string (unat expiry) @ '':'' @ tc_hex tc rid
      in \<lparr>cr_username = username, cr_password = password_for tc iss username\<rparr>)"

definition issuer_issue_random :: "turn_crypto \<Rightarrow> turn_issuer \<Rightarrow> u64 \<Rightarrow> bytes \<Rightarrow> credentials" where
  "issuer_issue_random tc iss now_unix rid = issue_until tc iss (now_unix + is_ttl_secs iss) rid"

text \<open>What the credential id of a proof is keyed over; both lengths go in as 64-bit numbers.\<close>

definition proof_id_input :: "string \<Rightarrow> bytes \<Rightarrow> u64 \<Rightarrow> bytes" where
  "proof_id_input product_id alias expiry =
     as_bytes ''dub/turn-proof-credential-id/v1'' @ [0] @ u64_be (word_of_nat (length (as_bytes product_id))) @ as_bytes product_id @
     u64_be (word_of_nat (length alias)) @ alias @ u64_be expiry"

definition issuer_issue_for_proof :: "turn_crypto \<Rightarrow> turn_issuer \<Rightarrow> u64 \<Rightarrow> string \<Rightarrow> bytes \<Rightarrow> credentials" where
  "issuer_issue_for_proof tc iss now_unix product_id alias =
     (let expiry = now_unix + is_ttl_secs iss
      in issue_until tc iss expiry (take 16 (tc_hmac tc Sha256 (is_secret iss) (proof_id_input product_id alias expiry))))"

section \<open>The Cloudflare client\<close>

abbreviation MIN_USEFUL_REMAINING :: u64 where "MIN_USEFUL_REMAINING \<equiv> 60"
abbreviation FAILURE_THRESHOLD :: u32 where "FAILURE_THRESHOLD \<equiv> 3"
abbreviation FAILURE_COOLDOWN :: u64 where "FAILURE_COOLDOWN \<equiv> 30"

datatype cloudflare_error = Unreachable string | CfRejected string | CfMalformed string

record ice_credentials =
  ic_servers :: "string list"
  ic_username :: string
  ic_password :: string
  ic_expires_at :: u64

definition remaining :: "ice_credentials \<Rightarrow> u64 \<Rightarrow> u64" where
  "remaining c now = saturating_sub (ic_expires_at c) now"

record breaker =
  br_failures :: u32
  br_skip_until :: u64

record cloudflare_client =
  cc_key_id :: string
  cc_api_token :: string
  cc_base_url :: string
  cc_ttl_secs :: u64
  cc_min_useful :: u64

definition breaker_default :: breaker where
  "breaker_default = \<lparr>br_failures = 0, br_skip_until = 0\<rparr>"

definition min_useful_remaining :: "u64 \<Rightarrow> u64" where
  "min_useful_remaining ttl_secs = min MIN_USEFUL_REMAINING (max (ttl_secs div 4) 1)"

definition client_new :: "string \<Rightarrow> string \<Rightarrow> u64 \<Rightarrow> string option \<Rightarrow> cloudflare_client" where
  "client_new rid api_token ttl_secs url_opt =
     \<lparr>cc_key_id = rid, cc_api_token = api_token,
      cc_base_url = (case url_opt of Some u \<Rightarrow> u | None \<Rightarrow> ''https://rtc.live.cloudflare.com/v1''),
      cc_ttl_secs = ttl_secs, cc_min_useful = min_useful_remaining ttl_secs\<rparr>"

fun json_str :: "json \<Rightarrow> string option" where
  "json_str (JString s) = Some s"
| "json_str _ = None"

fun json_u64 :: "json \<Rightarrow> u64 option" where
  "json_u64 (JNumber s) = (case parse_uint (2 ^ 64) s of Inr n \<Rightarrow> Some (word_of_nat n) | Inl _ \<Rightarrow> None)"
| "json_u64 _ = None"

definition entry_urls :: "json \<Rightarrow> string list" where
  "entry_urls entry =
     (case json_get ''urls'' entry of
        Some (JString url) \<Rightarrow> [url]
      | Some (JArray urls) \<Rightarrow> List.map_filter json_str urls
      | _ \<Rightarrow> [])"

fun push_new :: "string list \<Rightarrow> string list \<Rightarrow> string list" where
  "push_new servers [] = servers"
| "push_new servers (u # us) = push_new (if u \<in> set servers then servers else servers @ [u]) us"

fun parse_entries :: "json list \<Rightarrow> string list \<Rightarrow> (string \<times> string) option \<Rightarrow> string list \<times> (string \<times> string) option" where
  "parse_entries [] servers credential = (servers, credential)"
| "parse_entries (entry # entries) servers credential =
     parse_entries entries (push_new servers (entry_urls entry))
       (case credential of
          Some c \<Rightarrow> Some c
        | None \<Rightarrow> (case (Option.bind (json_get ''username'' entry) json_str, Option.bind (json_get ''credential'' entry) json_str) of
            (Some username, Some password) \<Rightarrow> Some (username, password)
          | _ \<Rightarrow> None))"

definition parse_response :: "json \<Rightarrow> u64 \<Rightarrow> u64 \<Rightarrow> string + ice_credentials" where
  "parse_response body now requested_ttl =
     (case json_get ''iceServers'' body of
        None \<Rightarrow> Inl ''response has no iceServers''
      | Some (JArray entries) \<Rightarrow>
          (case parse_entries entries [] None of (servers, credential) \<Rightarrow>
             if servers = [] then Inl ''iceServers carried no URLs''
             else (case credential of
                 None \<Rightarrow> Inl ''iceServers carried no TURN credential''
               | Some (username, password) \<Rightarrow>
                   (let ttl = (case Option.bind (json_get ''ttl'' body) json_u64 of Some t \<Rightarrow> t | None \<Rightarrow> requested_ttl)
                    in Inr \<lparr>ic_servers = servers, ic_username = username, ic_password = password, ic_expires_at = now + ttl\<rparr>)))
      | Some _ \<Rightarrow> Inl ''iceServers is not an array'')"

text \<open>The transport: a send error, or a status and the body, which may fail to decode.\<close>

type_synonym post_answer = "string + (nat \<times> (string + json))"

record transport =
  tp_post :: "nat \<Rightarrow> string \<Rightarrow> string \<Rightarrow> u64 \<Rightarrow> post_answer"
  tp_status :: "nat \<Rightarrow> string"

definition fetch_answer :: "transport \<Rightarrow> cloudflare_client \<Rightarrow> u64 \<Rightarrow> post_answer \<Rightarrow> cloudflare_error + ice_credentials" where
  "fetch_answer tp cc now answer =
     and_then (map_error Unreachable answer) (\<lambda>(status, body).
     if \<not> (200 \<le> status \<and> status < 300) then
       let message = ''status '' @ tp_status tp status
       in Inl (if 400 \<le> status \<and> status < 500 \<and> status \<noteq> 408 \<and> status \<noteq> 429 then CfRejected message else Unreachable message)
     else and_then (map_error CfMalformed body) (\<lambda>v. map_error CfMalformed (parse_response v now (cc_ttl_secs cc))))"

definition fetch_url :: "cloudflare_client \<Rightarrow> string" where
  "fetch_url cc = cc_base_url cc @ ''/turn/keys/'' @ cc_key_id cc @ ''/credentials/generate-ice-servers''"

definition fetch :: "transport \<Rightarrow> cloudflare_client \<Rightarrow> u64 \<Rightarrow> ('tb world, cloudflare_error, ice_credentials) prog" where
  "fetch tp cc now = remote (\<lambda>n. fetch_answer tp cc now (tp_post tp n (fetch_url cc) (cc_api_token cc) (cc_ttl_secs cc)))"

section \<open>Shared state\<close>

text \<open>Ring roots, which the proof route verifies against; see theory \<open>TurnProof\<close>.\<close>

datatype personhood_collection = PeopleLite | PeopleFull

record accepted_root =
  ar_ring_index :: u32
  ar_revision :: u32
  ar_members :: bytes

datatype ring_domain = Domain11 | Domain12 | Domain16

record snapshot =
  sn_domain :: ring_domain
  sn_roots :: "accepted_root list"

record turn_state =
  ts_last_good :: "ice_credentials option"
  ts_breaker :: breaker
  ts_credits :: credits
  ts_alias_credits :: credits
  ts_roots :: "personhood_collection \<Rightarrow> (snapshot \<times> nat) option"

text \<open>A critical section: others act, then the section runs on what they left.\<close>

definition locked :: "'tb env \<Rightarrow> ('tb \<Rightarrow> 'a \<times> 'tb) \<Rightarrow> ('tb world, 'e, 'a) prog" where
  "locked E f w =
     (case f (e_others E (w_step w) (w_db w)) of (a, t) \<Rightarrow> (Inr a, w\<lparr>w_db := t, w_step := Suc (w_step w)\<rparr>))"

definition cached :: "cloudflare_client \<Rightarrow> u64 \<Rightarrow> turn_state \<Rightarrow> ice_credentials option" where
  "cached cc now t =
     (case ts_last_good t of
        Some c \<Rightarrow> if cc_min_useful cc \<le> remaining c now then Some c else None
      | None \<Rightarrow> None)"

definition store :: "ice_credentials \<Rightarrow> turn_state \<Rightarrow> unit \<times> turn_state" where
  "store c t = ((), t\<lparr>ts_last_good := Some c\<rparr>)"

definition in_cooldown :: "u64 \<Rightarrow> turn_state \<Rightarrow> bool" where
  "in_cooldown now t \<longleftrightarrow> now < br_skip_until (ts_breaker t)"

definition record_success :: "turn_state \<Rightarrow> unit \<times> turn_state" where
  "record_success t = ((), t\<lparr>ts_breaker := breaker_default\<rparr>)"

definition record_failure :: "u64 \<Rightarrow> turn_state \<Rightarrow> bool \<times> turn_state" where
  "record_failure now t =
     (let failures = saturating_add (br_failures (ts_breaker t)) 1;
          b = (ts_breaker t)\<lparr>br_failures := failures\<rparr>
      in if FAILURE_THRESHOLD \<le> failures then (True, t\<lparr>ts_breaker := b\<lparr>br_skip_until := now + FAILURE_COOLDOWN\<rparr>\<rparr>)
         else (False, t\<lparr>ts_breaker := b\<rparr>))"

definition fall_back :: "turn_state env \<Rightarrow> cloudflare_client \<Rightarrow> u64 \<Rightarrow> cloudflare_error \<Rightarrow> (turn_state world, cloudflare_error, ice_credentials) prog" where
  "fall_back E cc now err =
     bindE (locked E (record_failure now)) (\<lambda>_.
     bindE (locked E (\<lambda>t. (cached cc now t, t))) (\<lambda>hit.
     case hit of Some c \<Rightarrow> ret c | None \<Rightarrow> throw err))"

fun settle_fetch ::
  "turn_state env \<Rightarrow> cloudflare_client \<Rightarrow> u64 \<Rightarrow> cloudflare_error + ice_credentials \<Rightarrow> (turn_state world, cloudflare_error, ice_credentials) prog" where
  "settle_fetch E cc now (Inr fresh) = bindE (locked E (store fresh)) (\<lambda>_. bindE (locked E record_success) (\<lambda>_. ret fresh))"
| "settle_fetch E cc now (Inl (CfRejected m)) = throw (CfRejected m)"
| "settle_fetch E cc now (Inl (Unreachable m)) = fall_back E cc now (Unreachable m)"
| "settle_fetch E cc now (Inl (CfMalformed m)) = fall_back E cc now (CfMalformed m)"

definition client_issue ::
  "turn_state env \<Rightarrow> transport \<Rightarrow> cloudflare_client \<Rightarrow> u64 \<Rightarrow> (turn_state world, cloudflare_error, ice_credentials) prog" where
  "client_issue E tp cc now =
     bindE (locked E (\<lambda>t. (in_cooldown now t, t))) (\<lambda>cooling.
     bindE (if cooling then locked E (\<lambda>t. (cached cc now t, t)) else ret None) (\<lambda>hit.
     case hit of
       Some c \<Rightarrow> ret c
     | None \<Rightarrow> bindE (attempt (fetch tp cc now)) (settle_fetch E cc now)))"

section \<open>The credential source\<close>

record issued =
  id_servers :: "string list"
  id_username :: string
  id_password :: string
  id_ttl :: u64

datatype unavailable = Unavailable

datatype source = SCloudflare cloudflare_client | SCoturn turn_issuer "string list" u64

datatype provider_config =
  PCloudflare (pc_key_id: string) (pc_api_token: string) (pc_base_url: "string option")
| PCoturn (pc_secret: bytes) (pc_algorithm: algorithm) (pc_realm: string) (pc_ice_servers: "string list")

fun source_new :: "provider_config \<Rightarrow> u64 \<Rightarrow> source" where
  "source_new (PCloudflare rid api_token url_opt) ttl_secs = SCloudflare (client_new rid api_token ttl_secs url_opt)"
| "source_new (PCoturn secret alg realm ice_servers) ttl_secs =
     SCoturn \<lparr>is_secret = secret, is_algorithm = alg, is_ttl_secs = ttl_secs\<rparr> ice_servers ttl_secs"

record turn_deps =
  tn_env :: "turn_state env"
  tn_crypto :: turn_crypto
  tn_transport :: transport
  tn_now :: "nat \<Rightarrow> u64"
  tn_random :: "nat \<Rightarrow> bytes"
  tn_json :: "bytes \<Rightarrow> json option"
  tn_quota :: "nat \<Rightarrow> string \<Rightarrow> nat + unit"
  tn_alias_quota :: "nat \<Rightarrow> string \<Rightarrow> nat + unit"
  tn_max_burst :: nat

definition from_cloudflare :: "turn_deps \<Rightarrow> cloudflare_client \<Rightarrow> u64 \<Rightarrow> (turn_state world, unavailable, issued) prog" where
  "from_cloudflare td cc now_unix =
     bindE (map_err (\<lambda>_. Unavailable) (client_issue (tn_env td) (tn_transport td) cc now_unix)) (\<lambda>c.
     ret \<lparr>id_servers = ic_servers c, id_username = ic_username c, id_password = ic_password c, id_ttl = remaining c now_unix\<rparr>)"

definition of_credentials :: "string list \<Rightarrow> u64 \<Rightarrow> credentials \<Rightarrow> issued" where
  "of_credentials servers ttl c = \<lparr>id_servers = servers, id_username = cr_username c, id_password = cr_password c, id_ttl = ttl\<rparr>"

fun source_issue :: "turn_deps \<Rightarrow> source \<Rightarrow> u64 \<Rightarrow> (turn_state world, unavailable, issued) prog" where
  "source_issue td (SCloudflare cc) now_unix = from_cloudflare td cc now_unix"
| "source_issue td (SCoturn iss servers ttl) now_unix =
     bindE (remote (\<lambda>n. Inr (tn_random td n))) (\<lambda>rid.
     ret (of_credentials servers ttl (issuer_issue_random (tn_crypto td) iss now_unix rid)))"

fun source_issue_for_proof :: "turn_deps \<Rightarrow> source \<Rightarrow> u64 \<Rightarrow> string \<Rightarrow> bytes \<Rightarrow> (turn_state world, unavailable, issued) prog" where
  "source_issue_for_proof td (SCloudflare cc) now_unix product_id alias = from_cloudflare td cc now_unix"
| "source_issue_for_proof td (SCoturn iss servers ttl) now_unix product_id alias =
     ret (of_credentials servers ttl (issuer_issue_for_proof (tn_crypto td) iss now_unix product_id alias))"

section \<open>The authenticated route\<close>

datatype turn_error =
  TnRateLimited nat | TnInvalidBody "field_error list" | TnMalformedJson | BadProofRequest string | ProofRejected
| ProofUnavailable string | ProofBusy | ProofInternal | UpstreamUnavailable

definition turn_validate_body :: "json \<Rightarrow> field_error list + unit" where
  "turn_validate_body body =
     (case body of
        JObject _ \<Rightarrow>
          (case json_get ''regionHint'' body of
             None \<Rightarrow> Inr ()
           | Some JNull \<Rightarrow> Inr ()
           | Some (JString _) \<Rightarrow> Inr ()
           | Some other \<Rightarrow> Inl [\<lparr>fe_message = expected_msg ''string'' (type_name other), fe_field = ''regionHint''\<rparr>])
      | _ \<Rightarrow> Inl [\<lparr>fe_message = expected_msg ''object'' (type_name body), fe_field = []\<rparr>])"

text \<open>A limiter's answer at a step: the quota is asked only when the key holds no credit.\<close>

definition limit_section :: "(turn_state \<Rightarrow> credits) \<Rightarrow> ((credits \<Rightarrow> credits) \<Rightarrow> turn_state \<Rightarrow> turn_state) \<Rightarrow> nat + unit \<Rightarrow> string \<Rightarrow>
    turn_state \<Rightarrow> (nat + paid) \<times> turn_state" where
  "limit_section get upd answer key t = (case allow answer key (get t) of (r, c) \<Rightarrow> (r, upd (\<lambda>_. c) t))"

definition turn_rate_limit :: "turn_deps \<Rightarrow> string \<Rightarrow> (turn_state world, turn_error, paid) prog" where
  "turn_rate_limit td subject =
     bindE (gets w_step) (\<lambda>n.
     bindE (locked (tn_env td) (limit_section ts_credits ts_credits_update (tn_quota td n subject) subject)) (\<lambda>r.
     lift_result (map_error TnRateLimited r)))"

definition turn_check_body :: "turn_deps \<Rightarrow> bytes \<Rightarrow> ('s, turn_error, unit) prog" where
  "turn_check_body td body =
     (if body \<noteq> [] then
        bindE (lift_result (ok_or TnMalformedJson (tn_json td body))) (\<lambda>v.
        lift_result (map_error TnInvalidBody (turn_validate_body v)))
      else ret ())"

definition issue_credentials ::
  "turn_deps \<Rightarrow> source \<Rightarrow> auth_subject \<Rightarrow> bytes \<Rightarrow> (turn_state world, turn_error, issued) prog" where
  "issue_credentials td src auth body =
     bindE (turn_check_body td body) (\<lambda>_.
     bindE (turn_rate_limit td (as_subject auth)) (\<lambda>p.
     bindE (remote (\<lambda>n. Inr (tn_now td n))) (\<lambda>now_unix.
     bindE (attempt (source_issue td src now_unix)) (\<lambda>r.
     case r of
       Inr i \<Rightarrow> ret i
     | Inl _ \<Rightarrow>
         bindE (locked (tn_env td) (\<lambda>t. ((), ts_credits_update (refund (tn_max_burst td) (as_subject auth) p) t))) (\<lambda>_.
         throw UpstreamUnavailable)))))"

section \<open>What the client hands out\<close>

lemma locked_Inr_iff [simp]:
  "locked E f w = (Inr a, w') \<longleftrightarrow>
     a = fst (f (e_others E (w_step w) (w_db w))) \<and>
     w' = w\<lparr>w_db := snd (f (e_others E (w_step w) (w_db w))), w_step := Suc (w_step w)\<rparr>"
  by (auto simp: locked_def split: prod.splits)

lemma locked_not_Inl [simp]: "locked E f w \<noteq> (Inl e, w')"
  by (simp add: locked_def split: prod.splits)

lemma keeps_locked [prog_intro]:
  assumes "stable E I" "\<And>t. I t \<Longrightarrow> I (snd (f t))"
  shows "keeps (on_db I) (locked E f)"
  using assms by (auto intro!: validI simp: stable_def)

text \<open>A credential Cloudflare issued, and a state whose cache holds only such.\<close>

definition genuine :: "transport \<Rightarrow> cloudflare_client \<Rightarrow> ice_credentials \<Rightarrow> bool" where
  "genuine tp cc c \<longleftrightarrow>
     (\<exists>n now. fetch_answer tp cc now (tp_post tp n (fetch_url cc) (cc_api_token cc) (cc_ttl_secs cc)) = Inr c)"

definition cache_genuine :: "transport \<Rightarrow> cloudflare_client \<Rightarrow> turn_state \<Rightarrow> bool" where
  "cache_genuine tp cc t \<longleftrightarrow> (case ts_last_good t of Some c \<Rightarrow> genuine tp cc c | None \<Rightarrow> True)"

lemma cache_genuine_steps:
  "cache_genuine tp cc t \<Longrightarrow> genuine tp cc c \<Longrightarrow> cache_genuine tp cc (snd (store c t))"
  "cache_genuine tp cc (snd (record_success t)) = cache_genuine tp cc t"
  "cache_genuine tp cc (snd (record_failure now t)) = cache_genuine tp cc t"
  by (simp_all add: cache_genuine_def store_def record_success_def record_failure_def Let_def)

lemma cached_useful:
  "cached cc now t = Some c \<Longrightarrow> cache_genuine tp cc t \<Longrightarrow> genuine tp cc c \<and> cc_min_useful cc \<le> remaining c now"
  by (auto simp: cached_def cache_genuine_def split: option.splits if_splits)

lemma fetch_Inr: "fetch tp cc now w = (Inr c, w') \<Longrightarrow> genuine tp cc c"
  by (auto simp: fetch_def remote_def genuine_def)

lemma min_useful_pos: "0 < min_useful_remaining ttl"
  by (simp add: min_useful_remaining_def min_def max_def word_less_nat_alt word_le_nat_alt)

lemma settle_fetch_keeps:
  assumes "stable E (cache_genuine tp cc)" "\<And>c. r = Inr c \<Longrightarrow> genuine tp cc c"
  shows "keeps (on_db (cache_genuine tp cc)) (settle_fetch E cc now r)"
proof -
  have "keeps (on_db (cache_genuine tp cc)) (fall_back E cc now e)" for e
    unfolding fall_back_def by (auto intro!: prog_intro assms(1) simp: cache_genuine_steps)
  with assms show ?thesis
    by (cases "(E, cc, now, r)" rule: settle_fetch.cases) (auto intro!: prog_intro simp: cache_genuine_steps)
qed

lemma client_issue_keeps:
  assumes "stable E (cache_genuine tp cc)"
  shows "keeps (on_db (cache_genuine tp cc)) (client_issue E tp cc now)"
proof -
  have fetch: "keeps (on_db (cache_genuine tp cc)) (fetch tp cc now)" unfolding fetch_def by (rule keeps_remote)
  have "genuine tp cc c" if "attempt (fetch tp cc now) w0 = (Inr (Inr c), w1)" for c w0 and w1 :: "turn_state world"
    using that by (auto simp: attempt_def dest: fetch_Inr split: prod.splits)
  then show ?thesis unfolding client_issue_def
    by (intro keeps_bind_result [OF keeps_attempt [OF fetch]] settle_fetch_keeps [OF assms] keeps_bindE valid_case_option keeps_if
        keeps_locked [OF assms] valid_ret) auto
qed

lemma fall_back_Inr:
  "fall_back E cc now e w = (Inr c, w') \<Longrightarrow> stable E (cache_genuine tp cc) \<Longrightarrow> cache_genuine tp cc (w_db w) \<Longrightarrow>
     genuine tp cc c \<and> cc_min_useful cc \<le> remaining c now"
  by (auto simp: fall_back_def inr_iffs case_run_iffs cache_genuine_steps stable_def dest!: cached_useful [where tp = tp])

lemma client_issue_Inr:
  assumes "client_issue E tp cc now w = (Inr c, w')" "stable E (cache_genuine tp cc)" "cache_genuine tp cc (w_db w)"
  shows "genuine tp cc c \<and> (cc_min_useful cc \<le> remaining c now \<or> (\<exists>w0 :: turn_state world. \<exists>w1. fetch tp cc now w0 = (Inr c, w1)))"
proof -
  let ?ok = "\<lambda>c. genuine tp cc c \<and> (cc_min_useful cc \<le> remaining c now \<or> (\<exists>w0 :: turn_state world. \<exists>w1. fetch tp cc now w0 = (Inr c, w1)))"
  have oth: "cache_genuine tp cc (e_others E n t)" if "cache_genuine tp cc t" for n t using assms(2) that by (simp add: stable_def)
  have settle: "?ok c" if r: "fetch tp cc now v = (r, v1)" and s: "settle_fetch E cc now r v1 = (Inr c, v')"
    and v: "cache_genuine tp cc (w_db v)" for v v' v1 r
  proof -
    have v1: "cache_genuine tp cc (w_db v1)" using r v by (auto simp: fetch_def remote_def)
    show ?thesis
    proof (cases "(E, cc, now, r)" rule: settle_fetch.cases)
      case (1 _ _ _ fresh)
      then have "c = fresh" using s by (simp add: inr_iffs)
      then show ?thesis using r 1 fetch_Inr by blast
    qed (use s v1 in \<open>auto simp: inr_iffs dest!: fall_back_Inr [OF _ assms(2)]\<close>)
  qed
  consider t where "cached cc now t = Some c" "cache_genuine tp cc t"
    | v r v1 where "fetch tp cc now v = (r, v1)" "settle_fetch E cc now r v1 = (Inr c, w')" "cache_genuine tp cc (w_db v)"
    using assms(1,3) unfolding client_issue_def
    by (auto simp: inr_iffs case_run_iffs oth split: if_splits)
  then show ?thesis by cases (use settle cached_useful [where tp = tp] in blast)+
qed

text \<open>An upstream that answers, for the witnesses, and the state a server starts in.\<close>

definition demo_ice :: json where
  "demo_ice = JObject [(''iceServers'', JArray [JObject [(''urls'', JString ''turn:a''), (''username'', JString ''u''), (''credential'', JString ''p'')]])]"

definition demo_tp :: transport where
  "demo_tp = \<lparr>tp_post = (\<lambda>n url token ttl. Inr (200, Inr demo_ice)), tp_status = nat_to_string\<rparr>"

definition demo_turn :: "turn_state world" where
  "demo_turn = \<lparr>w_db = \<lparr>ts_last_good = None, ts_breaker = breaker_default, ts_credits = Map.empty, ts_alias_credits = Map.empty,
     ts_roots = (\<lambda>_. None)\<rparr>, w_step = 0\<rparr>"

lemma demo_answers_ice:
  "fetch_answer tp cc now (Inr (200, Inr demo_ice)) =
     Inr \<lparr>ic_servers = [''turn:a''], ic_username = ''u'', ic_password = ''p'', ic_expires_at = now + cc_ttl_secs cc\<rparr>"
  by (simp add: fetch_answer_def demo_ice_def parse_response_def entry_urls_def and_then_def map_error_def)

text \<open>C34: A TURN credential from the Cloudflare source is genuine and alive. Whatever the upstream and concurrent requests do, a
  credential that is handed out was issued by Cloudflare to this client; it either was issued for this very request, or it comes
  from the cache with at least the useful minimum of its life left, which is at least a second; and the cache
  keeps holding only genuine credentials.\<close>

theorem cloudflare_credential_live:
  assumes "client_issue E tp (client_new app token ttl url) now w = (Inr c, w')"
    "stable E (cache_genuine tp (client_new app token ttl url))" "cache_genuine tp (client_new app token ttl url) (w_db w)"
  shows "genuine tp (client_new app token ttl url) c \<and>
    (0 < remaining c now \<and> min_useful_remaining ttl \<le> remaining c now \<or>
     (\<exists>w0 :: turn_state world. \<exists>w1. fetch tp (client_new app token ttl url) now w0 = (Inr c, w1))) \<and>
    cache_genuine tp (client_new app token ttl url) (w_db w')"
proof -
  from keepsD [OF client_issue_keeps [OF assms(2)] assms(3), of now] assms(1)
  have "cache_genuine tp (client_new app token ttl url) (w_db w')" by simp
  with client_issue_Inr [OF assms] min_useful_pos [of ttl] show ?thesis
    by (auto simp: client_new_def intro: less_le_trans)
qed

theorem cloudflare_credential_live_witness:
  "\<exists>c. fst (client_issue (quiet 0) demo_tp (client_new ''k'' ''t'' 600 None) 100 demo_turn) = Inr c \<and>
     genuine demo_tp (client_new ''k'' ''t'' 600 None) c \<and> remaining c 100 = 600"
proof -
  obtain c w' where run: "client_issue (quiet 0) demo_tp (client_new ''k'' ''t'' 600 None) 100 demo_turn = (Inr c, w')"
    and c: "remaining c 100 = 600"
    by (simp add: client_issue_def locked_def demo_turn_def demo_answers_ice in_cooldown_def breaker_default_def bindE_def ret_def attempt_def fetch_def
        remote_def store_def record_success_def client_new_def demo_tp_def remaining_def saturating_sub_def)
  have "cache_genuine demo_tp (client_new ''k'' ''t'' 600 None) (w_db demo_turn)" by (simp add: cache_genuine_def demo_turn_def)
  from cloudflare_credential_live [OF run _ this] run c show ?thesis by simp
qed

section \<open>The breaker\<close>

datatype breaker_event = Succeeded | Failed u64

fun breaker_step :: "breaker_event \<Rightarrow> turn_state \<Rightarrow> turn_state" where
  "breaker_step Succeeded t = snd (record_success t)"
| "breaker_step (Failed now) t = snd (record_failure now t)"

fun failures_in_row :: "breaker_event list \<Rightarrow> nat" where
  "failures_in_row (Failed _ # evs) = Suc (failures_in_row evs)"
| "failures_in_row _ = 0"

lemma failures_counted:
  "ts_breaker t = breaker_default \<Longrightarrow>
     unat (br_failures (ts_breaker (foldr breaker_step evs t))) = min (failures_in_row evs) (2 ^ 32 - 1)"
  by (induction evs rule: failures_in_row.induct)
     (auto simp: breaker_default_def record_failure_def record_success_def Let_def unat_saturating_add)

lemma skip_until_default:
  "ts_breaker t = breaker_default \<Longrightarrow> failures_in_row evs < 3 \<Longrightarrow> br_skip_until (ts_breaker (foldr breaker_step evs t)) = 0"
proof (induction evs rule: failures_in_row.induct)
  case (1 now evs)
  then have "unat (saturating_add (br_failures (ts_breaker (foldr breaker_step evs t))) 1) < 3"
    by (simp add: failures_counted unat_saturating_add)
  with 1 show ?case by (simp add: record_failure_def Let_def word_le_nat_alt)
qed (auto simp: breaker_default_def record_success_def)

text \<open>C35: The breaker opens at the third failure in a row and for thirty seconds. After any history of upstream successes and
  failures, newest first, the client is in cooldown exactly when at least three failures are the newest events and
  the current time is before the last of them plus thirty seconds; one success closes it.\<close>

theorem breaker_exact:
  assumes "ts_breaker t = breaker_default"
  shows "in_cooldown now (foldr breaker_step evs t) \<longleftrightarrow>
    (case evs of Failed at # _ \<Rightarrow> 3 \<le> failures_in_row evs \<and> now < at + FAILURE_COOLDOWN | _ \<Rightarrow> False)"
proof (cases evs rule: failures_in_row.cases)
  case (1 at rest)
  show ?thesis
  proof (cases "3 \<le> failures_in_row evs")
    case True
    then have "3 \<le> unat (saturating_add (br_failures (ts_breaker (foldr breaker_step rest t))) 1)"
      using assms 1 by (simp add: failures_counted unat_saturating_add)
    with 1 True show ?thesis by (simp add: in_cooldown_def record_failure_def Let_def word_le_nat_alt)
  next
    case False
    then show ?thesis using skip_until_default [OF assms, of evs] 1 by (simp add: in_cooldown_def)
  qed
qed (use assms in \<open>auto simp: in_cooldown_def breaker_default_def record_success_def\<close>)

theorem breaker_exact_witness:
  "in_cooldown 129 (foldr breaker_step [Failed 100, Failed 90, Failed 80, Succeeded, Failed 70] (w_db demo_turn)) \<and>
   \<not> in_cooldown 101 (foldr breaker_step [Failed 100, Failed 90, Succeeded, Failed 70] (w_db demo_turn))"
proof -
  have "ts_breaker (w_db demo_turn) = breaker_default" by (simp add: demo_turn_def)
  note exact = breaker_exact [OF this]
  show ?thesis unfolding exact by simp
qed

section \<open>The proof credential's input\<close>

lemma be_bytes_length [simp]: "length (be_bytes_of k n) = k"
  by (induction k arbitrary: n) auto

lemma be_bytes_inj: "n < 256 ^ k \<Longrightarrow> m < 256 ^ k \<Longrightarrow> be_bytes_of k n = be_bytes_of k m \<longleftrightarrow> n = m"
proof (induction k arbitrary: n m)
  case (Suc k)
  have "(word_of_nat n :: u8) = word_of_nat m \<longleftrightarrow> n mod 256 = m mod 256"
    by (simp add: word_unat_eq_iff unat_of_nat)
  moreover have "n div 256 < 256 ^ k" "m div 256 < 256 ^ k" using Suc.prems by (auto simp: less_mult_imp_div_less mult.commute)
  ultimately show ?case using Suc.IH [of "n div 256" "m div 256"] by (auto) (metis div_mod_decomp)
qed simp

lemma u64_be_inj: "u64_be a = u64_be b \<longleftrightarrow> a = b"
  using be_bytes_inj [of "unat a" 8 "unat b"] unsigned_less [of a] unsigned_less [of b] by (simp add: u64_be_def word_unat_eq_iff)

lemma u64_be_length [simp]: "length (u64_be a) = 8"
  by (simp add: u64_be_def)

lemma length_prefix_inj:
  assumes "u64_be (word_of_nat (length xs)) @ xs @ ys = u64_be (word_of_nat (length xs')) @ xs' @ ys'"
    "length xs < 2 ^ 64" "length xs' < 2 ^ 64"
  shows "xs = xs' \<and> ys = ys'"
proof -
  have "u64_be (word_of_nat (length xs)) = u64_be (word_of_nat (length xs'))" and rest: "xs @ ys = xs' @ ys'"
    using assms(1) by (simp_all add: append_eq_append_conv)
  then have "(word_of_nat (length xs) :: u64) = word_of_nat (length xs')" by (simp add: u64_be_inj)
  then have "unat (word_of_nat (length xs) :: u64) = unat (word_of_nat (length xs') :: u64)" by simp
  then have "length xs = length xs'" using assms(2,3) by (simp add: unat_of_nat)
  with rest show ?thesis by (simp add: append_eq_append_conv)
qed

text \<open>The credential id of a proof is keyed over an unambiguous encoding: different products, aliases or expiries never give the
  same input to the MAC, however their bytes could be cut differently.\<close>

theorem proof_id_input_injective:
  assumes "proof_id_input p a e = proof_id_input p' a' e'" "length p < 2 ^ 64" "length p' < 2 ^ 64" "length a < 2 ^ 64" "length a' < 2 ^ 64"
  shows "p = p' \<and> a = a' \<and> e = e'"
proof -
  from assms(1) have "u64_be (word_of_nat (length (as_bytes p))) @ as_bytes p @ u64_be (word_of_nat (length a)) @ a @ u64_be e =
      u64_be (word_of_nat (length (as_bytes p'))) @ as_bytes p' @ u64_be (word_of_nat (length a')) @ a' @ u64_be e'"
    by (simp add: proof_id_input_def)
  from length_prefix_inj [OF this] assms(2,3) have p: "p = p'"
    and rest: "u64_be (word_of_nat (length a)) @ a @ u64_be e = u64_be (word_of_nat (length a')) @ a' @ u64_be e'" by simp_all
  from length_prefix_inj [OF rest assms(4,5)] p show ?thesis by (simp add: u64_be_inj)
qed

theorem proof_id_input_injective_witness: "proof_id_input ''ab'' [1] 5 \<noteq> proof_id_input ''a'' [98, 1] 5"
  using proof_id_input_injective [of "''ab''" "[1]" 5 "''a''" "[98, 1]" 5] by auto

section \<open>Requests that could not be served\<close>

lemma source_issue_credits:
  "tn_env td = quiet 0 \<Longrightarrow> source_issue td src now w = (r, w') \<Longrightarrow> ts_credits (w_db w') = ts_credits (w_db w)"
proof (cases src)
  case (SCloudflare cc)
  assume q: "tn_env td = quiet 0" "source_issue td src now w = (r, w')"
  have oth: "stable (quiet 0) (\<lambda>t. ts_credits t = ts_credits (w_db w))" by simp
  have "keeps (on_db (\<lambda>t. ts_credits t = ts_credits (w_db w))) (settle_fetch (quiet 0) cc now r)" for r
    by (cases "(quiet 0 :: turn_state env, cc, now, r)" rule: settle_fetch.cases)
       (auto intro!: prog_intro simp: store_def record_success_def record_failure_def fall_back_def Let_def)
  then have "keeps (on_db (\<lambda>t. ts_credits t = ts_credits (w_db w))) (source_issue td src now)"
    unfolding SCloudflare source_issue.simps from_cloudflare_def client_issue_def q(1) fetch_def
    by (intro prog_intro oth) auto
  from keepsD [OF this, of w] q(2) show ?thesis by simp
qed (auto simp: remote_def bindE_def ret_def)

lemma turn_rate_limit_Inl: "turn_rate_limit td k w \<noteq> (Inl UpstreamUnavailable, w')"
  by (auto simp: turn_rate_limit_def inl_iffs gets_def map_error_def split: sum.splits)

lemma turn_check_body_run:
  "turn_check_body td body w = (r, w') \<Longrightarrow> w' = w \<and> r \<noteq> Inl UpstreamUnavailable"
  by (cases r) (auto simp: turn_check_body_def inl_iffs inr_iffs ok_or_def map_error_def ret_def split: if_splits option.splits sum.splits)

lemma issue_credentials_unavailable:
  assumes "issue_credentials td src auth body w = (Inl UpstreamUnavailable, w')"
  obtains p w1 now w2 where "turn_rate_limit td (as_subject auth) w = (Inr p, w1)"
    "source_issue td src now (w1\<lparr>w_step := Suc (w_step w1)\<rparr>) = (Inl Unavailable, w2)"
    "w_db w' = ts_credits_update (refund (tn_max_burst td) (as_subject auth) p) (e_others (tn_env td) (w_step w2) (w_db w2))"
proof -
  from assms obtain p w1 where limit: "turn_rate_limit td (as_subject auth) w = (Inr p, w1)"
    and rest: "bindE (remote (\<lambda>n. Inr (tn_now td n))) (\<lambda>now_unix.
     bindE (attempt (source_issue td src now_unix)) (\<lambda>r.
     case r of
       Inr i \<Rightarrow> ret i
     | Inl _ \<Rightarrow>
         bindE (locked (tn_env td) (\<lambda>t. ((), ts_credits_update (refund (tn_max_burst td) (as_subject auth) p) t))) (\<lambda>_.
         throw UpstreamUnavailable))) w1 = (Inl UpstreamUnavailable, w')"
    unfolding issue_credentials_def bindE_Inl_iff [of "turn_check_body _ _"] bindE_Inl_iff [of "turn_rate_limit _ _"]
    by (auto simp: turn_rate_limit_Inl dest: turn_check_body_run)
  obtain r w2 where run: "source_issue td src (tn_now td (w_step w1)) (w1\<lparr>w_step := Suc (w_step w1)\<rparr>) = (r, w2)" by (metis surj_pair)
  have "r = Inl Unavailable \<and>
      w_db w' = ts_credits_update (refund (tn_max_burst td) (as_subject auth) p) (e_others (tn_env td) (w_step w2) (w_db w2))"
    using rest run by (cases r) (auto simp: remote_def bindE_def attempt_def ret_def throw_def locked_def intro: unavailable.exhaust)
  with that limit run show thesis by blast
qed


definition demo_tn :: turn_deps where
  "demo_tn = \<lparr>tn_env = quiet 0, tn_crypto = \<lparr>tc_hmac = (\<lambda>a k m. m), tc_base64 = map (\<lambda>b. char_of (unat b)), tc_hex = map (\<lambda>b. char_of (unat b))\<rparr>,
     tn_transport = \<lparr>tp_post = (\<lambda>n url token ttl. Inl ''connection refused''), tp_status = nat_to_string\<rparr>, tn_now = (\<lambda>n. 100), tn_random = (\<lambda>n. []),
     tn_json = (\<lambda>b. None), tn_quota = (\<lambda>n k. Inr ()), tn_alias_quota = (\<lambda>n k. Inr ()), tn_max_burst = 2\<rparr>"

definition demo_subject :: auth_subject where
  "demo_subject = \<lparr>as_subject = ''s'', as_platform = None, as_app_from_official_store = None\<rparr>"


end
