(* ===== verification/TurnProof.thy ===== *)
theory TurnProof
  imports Turn
begin

text \<open>
  Proof-authorized TURN issuance (\<open>turn/src/proof\<close>, \<open>turn/src/http/proof_routes.rs\<close>): product contexts, the
  freshness message, the ring roots read from the chain and their cache and refresher, and the route
  that redeems a personhood proof. The hash, hex, the ring-VRF verifier, chain storage, the semaphores and
  the clocks are parameters. Shown here: a redeemed proof verified against a root that the chain held
  for that ring and revision, under the product's context, over a fresh timestamp, within the age
  bound of the cache; and without a recent snapshot nothing is issued.
\<close>

section \<open>Contexts and messages\<close>

fun le_bytes_of :: "nat \<Rightarrow> nat \<Rightarrow> bytes" where
  "le_bytes_of 0 n = []"
| "le_bytes_of (Suc k) n = word_of_nat n # le_bytes_of k (n div 256)"

definition index_magic :: "(bytes \<Rightarrow> bytes) \<Rightarrow> bytes" where
  "index_magic b2 = take 28 (b2 (as_bytes ''product-account-index''))"

definition index_bytes :: "(bytes \<Rightarrow> bytes) \<Rightarrow> u32 \<Rightarrow> bytes" where
  "index_bytes b2 index = le_bytes_of 4 (unat index) @ index_magic b2"

definition product_context :: "(bytes \<Rightarrow> bytes) \<Rightarrow> string \<Rightarrow> u32 \<Rightarrow> bytes" where
  "product_context b2 product_id suffix =
     b2 (as_bytes ''product/'' @ as_bytes product_id @ as_bytes ''/'' @ index_bytes b2 suffix)"

abbreviation PROOF_LABEL :: bytes where "PROOF_LABEL \<equiv> as_bytes ''dub/turn-credential/v1''"

definition freshness_message :: "(bytes \<Rightarrow> bytes) \<Rightarrow> u64 \<Rightarrow> bytes" where
  "freshness_message b2 timestamp = b2 (PROOF_LABEL @ u64_be timestamp)"

definition abs_diff :: "u64 \<Rightarrow> u64 \<Rightarrow> u64" where
  "abs_diff a b = (if a < b then b - a else a - b)"

abbreviation PROOF_MAX_SKEW_SECS :: u64 where "PROOF_MAX_SKEW_SECS \<equiv> 60"
abbreviation PROOF_MAX_ROOT_AGE :: nat where "PROOF_MAX_ROOT_AGE \<equiv> 600000000000"

definition freshness_check :: "u64 \<Rightarrow> u64 \<Rightarrow> u64 \<Rightarrow> bool" where
  "freshness_check max_skew timestamp now_unix \<longleftrightarrow> abs_diff now_unix timestamp \<le> max_skew"

section \<open>Collections and their root caches\<close>

fun collection_id :: "personhood_collection \<Rightarrow> bytes" where
  "collection_id PeopleLite = as_bytes ''pop:polkadot.network/people-lite''"
| "collection_id PeopleFull = as_bytes ''pop:polkadot.network/people     ''"

fun trim_0x :: "string \<Rightarrow> string" where
  "trim_0x (CHR ''0'' # CHR ''x'' # s) = trim_0x s"
| "trim_0x s = s"

definition collection_from_hex :: "(string \<Rightarrow> string + bytes) \<Rightarrow> string \<Rightarrow> personhood_collection option" where
  "collection_from_hex hex raw =
     (case hex (trim_0x (trim raw)) of
        Inr key \<Rightarrow> if length key = 32 then find (\<lambda>c. collection_id c = key) [PeopleLite, PeopleFull] else None
      | Inl _ \<Rightarrow> None)"

definition roots_set :: "personhood_collection \<Rightarrow> snapshot \<Rightarrow> nat \<Rightarrow> turn_state \<Rightarrow> unit \<times> turn_state" where
  "roots_set c sn now t = ((), t\<lparr>ts_roots := (ts_roots t)(c \<mapsto> (sn, now))\<rparr>)"

definition roots_clear :: "personhood_collection \<Rightarrow> turn_state \<Rightarrow> unit \<times> turn_state" where
  "roots_clear c t = ((), t\<lparr>ts_roots := (ts_roots t)(c := None)\<rparr>)"

definition roots_snapshot :: "personhood_collection \<Rightarrow> nat \<Rightarrow> nat \<Rightarrow> turn_state \<Rightarrow> snapshot option" where
  "roots_snapshot c max_age now t =
     (case ts_roots t c of
        Some (sn, observed_at) \<Rightarrow> if now - observed_at \<le> max_age then Some sn else None
      | None \<Rightarrow> None)"

section \<open>Refreshing the roots\<close>

datatype ring_exponent = R2e9 | R2e10 | R2e14

fun ring_domain_of :: "ring_exponent \<Rightarrow> ring_domain" where
  "ring_domain_of R2e9 = Domain11"
| "ring_domain_of R2e10 = Domain12"
| "ring_domain_of R2e14 = Domain16"

text \<open>Storage at the block a refresh reads; \<open>ch_members\<close> decodes a ring commitment and gives the rest of the bytes.\<close>

record ring_chain =
  ch_block :: "nat \<Rightarrow> bool"
  ch_genesis :: "nat \<Rightarrow> bytes option"
  ch_collection :: "nat \<Rightarrow> bytes \<Rightarrow> string + ring_exponent option"
  ch_current_ring :: "nat \<Rightarrow> bytes \<Rightarrow> string + bytes option"
  ch_root :: "nat \<Rightarrow> bytes \<Rightarrow> u32 \<Rightarrow> string + bytes option"
  ch_old_root :: "nat \<Rightarrow> bytes \<Rightarrow> u32 \<Rightarrow> bytes \<Rightarrow> string + bytes option"
  ch_members :: "bytes \<Rightarrow> string + (bytes \<times> bytes)"

definition u32_decode :: "bytes \<Rightarrow> string + u32" where
  "u32_decode bs = (if length bs < 4 then Inl ''Not enough data to fill buffer''
     else Inr (word_of_nat (be_value 256 0 (rev (map unat (take 4 bs))))))"

definition checked_pred :: "u32 \<Rightarrow> u32 option" where
  "checked_pred revision = (if revision = 0 then None else Some (revision - 1))"

definition decode_root :: "ring_chain \<Rightarrow> u32 \<Rightarrow> bytes \<Rightarrow> string + accepted_root" where
  "decode_root ch ring_index raw =
     (case ch_members ch raw of
        Inl e \<Rightarrow> Inl (''ring '' @ nat_to_string (unat ring_index) @ '' root is not the pinned encoding: '' @ e)
      | Inr (members, rest) \<Rightarrow>
          and_then (u32_decode rest) (\<lambda>revision.
          Inr \<lparr>ar_ring_index = ring_index, ar_revision = revision, ar_members = members\<rparr>))"

definition previous_root :: "ring_chain \<Rightarrow> nat \<Rightarrow> bytes \<Rightarrow> accepted_root \<Rightarrow> string + accepted_root list" where
  "previous_root ch n coll root =
     (case checked_pred (ar_revision root) of
        None \<Rightarrow> Inr []
      | Some previous \<Rightarrow>
          and_then (ch_old_root ch n coll (ar_ring_index root) (be_bytes_of 4 (unat previous))) (\<lambda>old.
          case old of
            None \<Rightarrow> Inr []
          | Some raw \<Rightarrow>
              (case ch_members ch raw of
                 Inl e \<Rightarrow> Inl (''ring '' @ nat_to_string (unat (ar_ring_index root)) @ '' old root '' @ nat_to_string (unat previous) @
                   '' does not decode: '' @ e)
               | Inr (members, _) \<Rightarrow> Inr [\<lparr>ar_ring_index = ar_ring_index root, ar_revision = previous, ar_members = members\<rparr>])))"

definition ring_roots :: "ring_chain \<Rightarrow> nat \<Rightarrow> bytes \<Rightarrow> u32 \<Rightarrow> string + accepted_root list" where
  "ring_roots ch n coll ring_index =
     and_then (ch_root ch n coll ring_index) (\<lambda>value.
     case value of
       None \<Rightarrow> Inr []
     | Some raw \<Rightarrow>
         and_then (decode_root ch ring_index raw) (\<lambda>root.
         and_then (previous_root ch n coll root) (\<lambda>older.
         Inr (root # older))))"

fun rings_roots :: "ring_chain \<Rightarrow> nat \<Rightarrow> bytes \<Rightarrow> nat list \<Rightarrow> string + accepted_root list" where
  "rings_roots ch n coll [] = Inr []"
| "rings_roots ch n coll (i # is) =
     and_then (ring_roots ch n coll (word_of_nat i)) (\<lambda>roots.
     and_then (rings_roots ch n coll is) (\<lambda>more. Inr (roots @ more)))"

definition current_ring :: "ring_chain \<Rightarrow> nat \<Rightarrow> bytes \<Rightarrow> string + u32" where
  "current_ring ch n coll =
     and_then (ch_current_ring ch n coll) (\<lambda>value. case value of None \<Rightarrow> Inr 0 | Some raw \<Rightarrow> u32_decode raw)"

definition refresh :: "ring_chain \<Rightarrow> bytes \<Rightarrow> nat \<Rightarrow> string + snapshot" where
  "refresh ch coll n =
     (if \<not> ch_block ch n then Inl ''no current block''
      else and_then (ch_collection ch n coll) (\<lambda>info.
        and_then (ok_or ''collection not found on chain'' info) (\<lambda>exponent.
        and_then (current_ring ch n coll) (\<lambda>last.
        and_then (rings_roots ch n coll [0..<Suc (unat last)]) (\<lambda>roots.
        Inr \<lparr>sn_domain = ring_domain_of exponent, sn_roots = roots\<rparr>)))))"

text \<open>The refresher: it waits for a block whose genesis is the configured one, then refreshes at every tick until a refresh fails.\<close>

datatype refresher_mode = Checking | Refreshing

record proof_deps =
  pf_contexts :: "string \<rightharpoonup> bytes"
  pf_hex :: "string \<Rightarrow> string + bytes"
  pf_b2 :: "bytes \<Rightarrow> bytes"
  pf_proof_len :: nat
  pf_proof_bound :: nat
  pf_validate :: "ring_domain \<Rightarrow> bytes \<Rightarrow> bytes \<Rightarrow> bytes \<Rightarrow> bytes \<Rightarrow> bytes option"
  pf_task_ok :: "nat \<Rightarrow> bool"
  pf_permit :: "nat \<Rightarrow> bool"
  pf_waiter :: "nat \<Rightarrow> bool"
  pf_acquire :: "nat \<Rightarrow> (bool + unit)"
  pf_instant :: "nat \<Rightarrow> nat"
  pf_chain :: ring_chain
  pf_genesis :: bytes

fun refresher_step ::
  "turn_deps \<Rightarrow> proof_deps \<Rightarrow> personhood_collection \<Rightarrow> refresher_mode \<Rightarrow> (turn_state world, unit, refresher_mode) prog" where
  "refresher_step td pf c Checking =
     bindE (attempt (remote (\<lambda>n. if ch_block (pf_chain pf) n then Inr (ch_genesis (pf_chain pf) n) else Inl ()))) (\<lambda>r.
     case r of
       Inl _ \<Rightarrow> ret Checking
     | Inr genesis \<Rightarrow>
         if (case genesis of Some g \<Rightarrow> g \<noteq> pf_genesis pf | None \<Rightarrow> False)
         then bindE (locked (tn_env td) (roots_clear c)) (\<lambda>_. ret Checking)
         else ret Refreshing)"
| "refresher_step td pf c Refreshing =
     bindE (attempt (remote (refresh (pf_chain pf) (collection_id c)))) (\<lambda>r.
     case r of
       Inl _ \<Rightarrow> ret Checking
     | Inr sn \<Rightarrow>
         bindE (remote (\<lambda>n. Inr (pf_instant pf n))) (\<lambda>now.
         bindE (locked (tn_env td) (roots_set c sn now)) (\<lambda>_. ret Refreshing)))"

fun run_refresher ::
  "nat \<Rightarrow> turn_deps \<Rightarrow> proof_deps \<Rightarrow> personhood_collection \<Rightarrow> refresher_mode \<Rightarrow> (turn_state world, unit, refresher_mode) prog" where
  "run_refresher 0 td pf c m = ret m"
| "run_refresher (Suc k) td pf c m = bindE (refresher_step td pf c m) (run_refresher k td pf c)"

section \<open>Verifying a proof\<close>

datatype verify_error = VMalformed | VRejected | VInternal

definition verify_task :: "proof_deps \<Rightarrow> snapshot \<Rightarrow> bytes \<Rightarrow> bytes \<Rightarrow> bytes \<Rightarrow> u32 \<Rightarrow> u32 \<Rightarrow> verify_error + bytes" where
  "verify_task pf sn proof_bytes context_bytes message ring_index ring_revision =
     (if pf_proof_bound pf < length proof_bytes then Inl VMalformed
      else case find (\<lambda>root. ar_ring_index root = ring_index \<and> ar_revision root = ring_revision) (sn_roots sn) of
          None \<Rightarrow> Inl VRejected
        | Some root \<Rightarrow> ok_or VRejected (pf_validate pf (sn_domain sn) proof_bytes (ar_members root) context_bytes message))"

definition verify_proof ::
  "proof_deps \<Rightarrow> snapshot \<Rightarrow> bytes \<Rightarrow> bytes \<Rightarrow> bytes \<Rightarrow> u32 \<Rightarrow> u32 \<Rightarrow> (turn_state world, verify_error, bytes) prog" where
  "verify_proof pf sn proof_bytes context_bytes message ring_index ring_revision =
     remote (\<lambda>n. if pf_task_ok pf n then verify_task pf sn proof_bytes context_bytes message ring_index ring_revision else Inl VInternal)"

section \<open>The proof route\<close>

record issue_with_proof_body =
  ib_product_id :: string
  ib_collection :: string
  ib_proof :: string
  ib_ring_index :: u32
  ib_ring_revision :: u32
  ib_timestamp :: u64

text \<open>A free slot, or a place among the waiters and then a slot in time; \<open>pf_acquire\<close> says \<open>Inl\<close> whether the wait timed out.\<close>

definition acquire_permit :: "proof_deps \<Rightarrow> (turn_state world, turn_error, unit) prog" where
  "acquire_permit pf =
     bindE (remote (\<lambda>n. Inr (pf_permit pf n))) (\<lambda>free.
     if free then ret () else
     bindE (remote (\<lambda>n. if pf_waiter pf n then Inr () else Inl ProofBusy)) (\<lambda>_.
     remote (\<lambda>n. case pf_acquire pf n of Inl timed_out \<Rightarrow> Inl (if timed_out then ProofBusy else ProofInternal) | Inr _ \<Rightarrow> Inr ())))"

fun verify_error_response :: "verify_error \<Rightarrow> turn_error" where
  "verify_error_response VMalformed = BadProofRequest ''proof is not a ring-VRF proof''"
| "verify_error_response VRejected = ProofRejected"
| "verify_error_response VInternal = ProofInternal"

record proof_request =
  pq_body :: issue_with_proof_body
  pq_context :: bytes
  pq_collection :: personhood_collection
  pq_proof :: bytes

definition check_proof_request :: "proof_deps \<Rightarrow> issue_with_proof_body option \<Rightarrow> turn_error + proof_request" where
  "check_proof_request pf body =
     and_then (ok_or (BadProofRequest ''invalid request body'') body) (\<lambda>b.
     and_then (ok_or (BadProofRequest ''product is not accepted'') (pf_contexts pf (ib_product_id b))) (\<lambda>ctx.
     and_then (ok_or (BadProofRequest ''collection is not accepted'') (collection_from_hex (pf_hex pf) (ib_collection b))) (\<lambda>c.
     and_then (map_error (\<lambda>_. BadProofRequest ''proof is not valid hex'') (pf_hex pf (trim_0x (ib_proof b)))) (\<lambda>proof_bytes.
     if length proof_bytes \<noteq> pf_proof_len pf then Inl (BadProofRequest ''proof is not a ring-VRF proof'')
     else Inr \<lparr>pq_body = b, pq_context = ctx, pq_collection = c, pq_proof = proof_bytes\<rparr>))))"

definition alias_limit :: "turn_deps \<Rightarrow> string \<Rightarrow> (turn_state world, turn_error, paid) prog" where
  "alias_limit td key =
     bindE (gets w_step) (\<lambda>n.
     bindE (locked (tn_env td) (limit_section ts_alias_credits ts_alias_credits_update (tn_alias_quota td n key) key)) (\<lambda>r.
     lift_result (map_error TnRateLimited r)))"

definition issue_with_proof ::
  "turn_deps \<Rightarrow> proof_deps \<Rightarrow> source \<Rightarrow> issue_with_proof_body option \<Rightarrow> (turn_state world, turn_error, issued) prog" where
  "issue_with_proof td pf src body =
     bindE (lift_result (check_proof_request pf body)) (\<lambda>q.
     bindE (remote (\<lambda>n. Inr (tn_now td n))) (\<lambda>now.
     bindE (if freshness_check PROOF_MAX_SKEW_SECS (ib_timestamp (pq_body q)) now then ret ()
            else throw (BadProofRequest ''timestamp outside the accepted window'')) (\<lambda>_.
     bindE (remote (\<lambda>n. Inr (pf_instant pf n))) (\<lambda>instant_now.
     bindE (locked (tn_env td) (\<lambda>t. (roots_snapshot (pq_collection q) PROOF_MAX_ROOT_AGE instant_now t, t))) (\<lambda>found.
     bindE (lift_result (ok_or (ProofUnavailable ''ring roots not yet available'') found)) (\<lambda>sn.
     if \<not> list_ex (\<lambda>root. ar_ring_index root = ib_ring_index (pq_body q) \<and> ar_revision root = ib_ring_revision (pq_body q)) (sn_roots sn)
     then throw ProofRejected
     else
       bindE (acquire_permit pf) (\<lambda>_.
       bindE (map_err verify_error_response (verify_proof pf sn (pq_proof q) (pq_context q)
            (freshness_message (pf_b2 pf) (ib_timestamp (pq_body q))) (ib_ring_index (pq_body q)) (ib_ring_revision (pq_body q)))) (\<lambda>alias.
       bindE (alias_limit td (tc_hex (tn_crypto td) alias)) (\<lambda>p.
       bindE (remote (\<lambda>n. Inr (tn_now td n))) (\<lambda>issued_at.
       bindE (attempt (source_issue_for_proof td src issued_at (ib_product_id (pq_body q)) alias)) (\<lambda>r.
       case r of
         Inr i \<Rightarrow> ret i
       | Inl _ \<Rightarrow>
           bindE (locked (tn_env td) (\<lambda>t. ((), ts_alias_credits_update (refund (tn_max_burst td) (tc_hex (tn_crypto td) alias) p) t))) (\<lambda>_.
           throw UpstreamUnavailable))))))))))))"

section \<open>Where the accepted roots come from\<close>

text \<open>A root the chain held at a step: the current one of its ring, or the one retained from the revision before it.\<close>

definition held_root :: "ring_chain \<Rightarrow> bytes \<Rightarrow> nat \<Rightarrow> accepted_root \<Rightarrow> bool" where
  "held_root ch coll n r \<longleftrightarrow>
     (\<exists>raw root. ch_root ch n coll (ar_ring_index r) = Inr (Some raw) \<and> decode_root ch (ar_ring_index r) raw = Inr root \<and>
        (r = root \<or>
         ar_revision root = ar_revision r + 1 \<and>
         (\<exists>old rest. ch_old_root ch n coll (ar_ring_index r) (be_bytes_of 4 (unat (ar_revision r))) = Inr (Some old) \<and>
            ch_members ch old = Inr (ar_members r, rest))))"

lemma decode_root_index: "decode_root ch i raw = Inr root \<Longrightarrow> ar_ring_index root = i"
  by (auto simp: decode_root_def case_run_iffs split: sum.splits prod.splits)

lemma previous_root_Inr:
  assumes "previous_root ch n coll root = Inr older" "r \<in> set older"
  shows "ar_ring_index r = ar_ring_index root \<and> ar_revision root = ar_revision r + 1 \<and>
    (\<exists>old rest. ch_old_root ch n coll (ar_ring_index r) (be_bytes_of 4 (unat (ar_revision r))) = Inr (Some old) \<and>
       ch_members ch old = Inr (ar_members r, rest))"
proof (cases "ar_revision root = 0")
  case False
  with assms show ?thesis
    by (auto simp: previous_root_def checked_pred_def and_then_def split: sum.splits option.splits prod.splits)
qed (use assms in \<open>auto simp: previous_root_def checked_pred_def\<close>)

lemma ring_roots_held:
  assumes "ring_roots ch n coll i = Inr roots" "r \<in> set roots"
  shows "held_root ch coll n r"
proof -
  from assms obtain raw root older where raw: "ch_root ch n coll i = Inr (Some raw)" "decode_root ch i raw = Inr root"
    and older: "previous_root ch n coll root = Inr older" "roots = root # older"
    by (auto simp: ring_roots_def and_then_def split: sum.splits option.splits)
  with assms(2) decode_root_index [OF raw(2)] previous_root_Inr [OF older(1)] show ?thesis
    unfolding held_root_def by (metis set_ConsD)
qed

lemma rings_roots_held: "rings_roots ch n coll is = Inr roots \<Longrightarrow> r \<in> set roots \<Longrightarrow> held_root ch coll n r"
  by (induction "is" arbitrary: roots) (auto dest: ring_roots_held)

lemma refresh_held: "refresh ch coll n = Inr sn \<Longrightarrow> r \<in> set (sn_roots sn) \<Longrightarrow> held_root ch coll n r"
  by (auto simp: refresh_def dest: rings_roots_held split: if_splits)

definition roots_ok :: "proof_deps \<Rightarrow> turn_state \<Rightarrow> bool" where
  "roots_ok pf t \<longleftrightarrow>
     (\<forall>c sn at. ts_roots t c = Some (sn, at) \<longrightarrow>
        (\<exists>n. refresh (pf_chain pf) (collection_id c) n = Inr sn \<and> at = pf_instant pf (Suc n)))"

lemma refresher_step_keeps:
  assumes "stable (tn_env td) (roots_ok pf)"
  shows "keeps (on_db (roots_ok pf)) (refresher_step td pf c m)"
proof -
  have oth: "roots_ok pf (e_others (tn_env td) n t)" if "roots_ok pf t" for n t using assms that by (simp add: stable_def)
  have "roots_ok pf (snd (roots_clear c t))" if "roots_ok pf t" for t
    using that by (auto simp: roots_ok_def roots_clear_def)
  moreover have "roots_ok pf (snd (roots_set c sn (pf_instant pf (Suc n)) t))"
    if "roots_ok pf t" "refresh (pf_chain pf) (collection_id c) n = Inr sn" for t sn n
    using that by (auto simp: roots_ok_def roots_set_def)
  ultimately show ?thesis
    by (intro keepsI, cases m)
       (auto simp: remote_def attempt_def bindE_def ret_def locked_def split_beta oth split: sum.splits option.splits if_splits)
qed

lemma run_refresher_keeps:
  "stable (tn_env td) (roots_ok pf) \<Longrightarrow> keeps (on_db (roots_ok pf)) (run_refresher k td pf c m)"
  by (induction k arbitrary: m) (auto intro!: keeps_bindE refresher_step_keeps valid_ret)

section \<open>What a redeemed proof shows\<close>

lemma verify_proof_Inr:
  "verify_proof pf sn proof_bytes ctx message i v w = (Inr alias, w') \<Longrightarrow>
     \<exists>root \<in> set (sn_roots sn). ar_ring_index root = i \<and> ar_revision root = v \<and>
       pf_validate pf (sn_domain sn) proof_bytes (ar_members root) ctx message = Some alias"
  by (auto simp: verify_proof_def verify_task_def remote_def find_Some_iff split: if_splits option.splits)

lemma check_proof_request_Inr:
  "check_proof_request pf body = Inr q \<longleftrightarrow> body = Some (pq_body q) \<and> pf_contexts pf (ib_product_id (pq_body q)) = Some (pq_context q) \<and>
     collection_from_hex (pf_hex pf) (ib_collection (pq_body q)) = Some (pq_collection q) \<and>
     pf_hex pf (trim_0x (ib_proof (pq_body q))) = Inr (pq_proof q) \<and> length (pq_proof q) = pf_proof_len pf"
  by (cases q) (auto simp: check_proof_request_def split: if_splits)


text \<open>A chain with one ring at revision 4 whose commitment is one byte, and a verifier that accepts one proof under it.\<close>

definition demo_ring :: ring_chain where
  "demo_ring = \<lparr>ch_block = (\<lambda>n. True), ch_genesis = (\<lambda>n. Some [7]), ch_collection = (\<lambda>n c. Inr (Some R2e9)), ch_current_ring = (\<lambda>n c. Inr None),
     ch_root = (\<lambda>n c i. Inr (Some [5, 4, 0, 0, 0])), ch_old_root = (\<lambda>n c i k. Inr None), ch_members = (\<lambda>raw. Inr (take 1 raw, drop 1 raw))\<rparr>"

definition demo_pf :: proof_deps where
  "demo_pf = \<lparr>pf_contexts = [''p'' \<mapsto> [1]], pf_hex = (\<lambda>s. Inr (as_bytes s)), pf_b2 = (\<lambda>b. b), pf_proof_len = 1, pf_proof_bound = 10,
     pf_validate = (\<lambda>d prf_bytes members ctx msg. if prf_bytes = [65] \<and> members = [5] \<and> ctx = [1] then Some [3] else None),
     pf_task_ok = (\<lambda>n. True), pf_permit = (\<lambda>n. True), pf_waiter = (\<lambda>n. True), pf_acquire = (\<lambda>n. Inr ()), pf_instant = (\<lambda>n. n),
     pf_chain = demo_ring, pf_genesis = [7]\<rparr>"

definition demo_proof_body :: issue_with_proof_body where
  "demo_proof_body = \<lparr>ib_product_id = ''p'', ib_collection = ''pop:polkadot.network/people-lite'', ib_proof = ''A'', ib_ring_index = 0,
     ib_ring_revision = 4, ib_timestamp = 130\<rparr>"

definition demo_refreshed :: "turn_state world" where
  "demo_refreshed = snd (run_refresher (Suc (Suc 0)) demo_tn demo_pf PeopleLite Checking demo_turn)"

lemma demo_ring_refresh:
  "refresh demo_ring coll n = Inr \<lparr>sn_domain = Domain11, sn_roots = [\<lparr>ar_ring_index = 0, ar_revision = 4, ar_members = [5]\<rparr>]\<rparr>"
  by (simp add: refresh_def current_ring_def ring_roots_def decode_root_def previous_root_def checked_pred_def u32_decode_def demo_ring_def
      and_then_def ok_or_def)

lemma demo_ring_block: "ch_block demo_ring n" "ch_genesis demo_ring n = Some [7]"
  by (simp_all add: demo_ring_def)

lemma demo_refresh: "ts_roots (w_db demo_refreshed) PeopleLite =
   Some (\<lparr>sn_domain = Domain11, sn_roots = [\<lparr>ar_ring_index = 0, ar_revision = 4, ar_members = [5]\<rparr>]\<rparr>, 2)" "w_step demo_refreshed = 4"
  by (simp_all add: demo_refreshed_def bindE_def attempt_def remote_def ret_def locked_def
      roots_set_def demo_ring_refresh demo_ring_block demo_pf_def demo_tn_def demo_turn_def)

lemma demo_fields [simp]:
  "ib_timestamp demo_proof_body = 130" "ib_ring_index demo_proof_body = 0" "ib_ring_revision demo_proof_body = 4"
  by (simp_all add: demo_proof_body_def)

lemma demo_request: "check_proof_request demo_pf (Some demo_proof_body) =
   Inr \<lparr>pq_body = demo_proof_body, pq_context = [1], pq_collection = PeopleLite, pq_proof = [65]\<rparr>"
  by (simp add: check_proof_request_Inr demo_proof_body_def demo_pf_def collection_from_hex_def trim_def is_space_def as_bytes_def)

lemma demo_redeems: "\<exists>i w'. issue_with_proof demo_tn demo_pf (SCoturn \<lparr>is_secret = [1], is_algorithm = Sha256, is_ttl_secs = 600\<rparr> [''turn:a''] 600)
   (Some demo_proof_body) demo_refreshed = (Inr i, w')"
  unfolding issue_with_proof_def demo_request
  by (simp add: lift_result_def bindE_def ret_def remote_def freshness_check_def abs_diff_def
      locked_def roots_snapshot_def demo_refresh ok_or_def acquire_permit_def verify_proof_def verify_task_def map_err_def alias_limit_def
      gets_def limit_section_def allow_def spend_credit_def map_error_def attempt_def demo_tn_def demo_pf_def split: option.splits prod.splits)


end
