(* ===== verification/Services.thy ===== *)
theory Services
  imports Tickets TurnProof
begin

text \<open>
  The key material and the configuration of the sibling services: the JWKS document and the verify-only
  verifiers (\<open>jwt-verify/src\<close>, \<open>http-common/src/config.rs\<close>) and the environment readers of invite tickets, TURN,
  the username indexer and notifications. JSON and key decoding, base64, hex, SS58 and socket addresses are
  parameters. Shown here: a service that loads the issuer's published document authenticates exactly what the issuer
  signs; and no configuration that loads has a gate half on.
\<close>

section \<open>The JWKS document\<close>

record jwk =
  jk_kid :: "string option"
  jk_ed25519 :: "string option"

text \<open>\<open>jk_ed25519\<close> is the \<open>x\<close> of an Ed25519 octet key pair; other key types have none.\<close>

definition jwt_jwks :: "(bytes \<Rightarrow> string) \<Rightarrow> jwt_lib \<Rightarrow> jwt \<Rightarrow> jwk list" where
  "jwt_jwks b64 jl j = [\<lparr>jk_kid = h_kid (is_header (jwt_issuer_part j)),
     jk_ed25519 = Some (b64 (jl_public jl (is_seed (jwt_issuer_part j))))\<rparr>]"

datatype jwks_error = JwksMalformed | NoUsableKey

fun jwks_error_str :: "jwks_error \<Rightarrow> string" where
  "jwks_error_str JwksMalformed = ''malformed JWKS document''"
| "jwks_error_str NoUsableKey = ''no usable Ed25519 key in JWKS document''"

record key_codecs =
  kc_jwks :: "string \<Rightarrow> jwk list option"
  kc_ed_components :: "string \<Rightarrow> bytes option"
  kc_hex :: "string \<Rightarrow> string + bytes"
  kc_ed_key :: "bytes \<Rightarrow> string + bytes"

definition from_jwks :: "key_codecs \<Rightarrow> string \<Rightarrow> jwks_error + verifier" where
  "from_jwks kc doc =
     and_then (ok_or JwksMalformed (kc_jwks kc doc)) (\<lambda>ks.
     let keys = List.map_filter (\<lambda>k. case jk_ed25519 k of
         Some x \<Rightarrow> map_option (\<lambda>key. (jk_kid k, key)) (kc_ed_components kc x)
       | None \<Rightarrow> None) ks
     in if keys = [] then Inl NoUsableKey else Inr keys)"

definition pinned_verifier :: "key_codecs \<Rightarrow> string option \<Rightarrow> config_error + verifier" where
  "pinned_verifier kc public_key =
     and_then (ok_or (Missing ''JWT_JWKS_JSON or JWT_ED25519_PUBLIC_KEY'') public_key) (\<lambda>raw.
     and_then (case kc_hex kc (strip_0x (trim raw)) of
        Inr b \<Rightarrow> if length b = 32 then Inr b else Inl (Invalid ''JWT_ED25519_PUBLIC_KEY'' ''expected 32 bytes of hex'')
      | Inl _ \<Rightarrow> Inl (Invalid ''JWT_ED25519_PUBLIC_KEY'' ''expected 32 bytes of hex'')) (\<lambda>b.
     and_then (map_error (\<lambda>e. Invalid ''JWT_ED25519_PUBLIC_KEY'' (''not a valid Ed25519 public key: '' @ e)) (kc_ed_key kc b)) (\<lambda>key.
     Inr (verifier_from_public_key None key))))"

definition jwt_verifier_from_values :: "key_codecs \<Rightarrow> string option \<Rightarrow> string option \<Rightarrow> config_error + verifier" where
  "jwt_verifier_from_values kc jwks public_key =
     (case jwks of
        Some doc \<Rightarrow> if trim doc \<noteq> [] then map_error (\<lambda>e. Invalid ''JWT_JWKS_JSON'' (jwks_error_str e)) (from_jwks kc doc)
          else pinned_verifier kc public_key
      | None \<Rightarrow> pinned_verifier kc public_key)"

definition jwt_verifier_from_env :: "key_codecs \<Rightarrow> env_vars \<Rightarrow> config_error + verifier" where
  "jwt_verifier_from_env kc env = jwt_verifier_from_values kc (env ''JWT_JWKS_JSON'') (env ''JWT_ED25519_PUBLIC_KEY'')"

section \<open>Invite tickets and notifications\<close>

record tickets_config =
  kt_bind_addr :: string
  kt_database_url :: string
  kt_network :: network
  kt_jwt_verifier :: verifier
  kt_rate_limit :: nat
  kt_rate_window :: nat

definition positive_u32 :: "env_vars \<Rightarrow> string \<Rightarrow> string \<Rightarrow> config_error + nat" where
  "positive_u32 env key dflt = and_then (u32_var env key dflt) (positive key)"

definition positive_u64 :: "env_vars \<Rightarrow> string \<Rightarrow> string \<Rightarrow> config_error + nat" where
  "positive_u64 env key dflt = and_then (secs_var env key dflt) (positive key)"

abbreviation bind_var :: "env_vars \<Rightarrow> (string \<Rightarrow> string + string) \<Rightarrow> config_error + string" where
  "bind_var env sock \<equiv> parse_var env sock ''BIND_ADDR'' ''0.0.0.0:8080''"

definition tickets_from_env :: "key_codecs \<Rightarrow> (string \<Rightarrow> string + string) \<Rightarrow> env_vars \<Rightarrow> config_error + tickets_config" where
  "tickets_from_env kc sock env =
     and_then (required_var env ''INVITE_TICKETS_DATABASE_URL'') (\<lambda>url.
     and_then (required_var env ''PEOPLE_NETWORK'') (\<lambda>raw.
     and_then (ok_or (Invalid ''PEOPLE_NETWORK'' (''expected westend2|paseo|polkadot, got '' @ raw)) (network_from_str raw)) (\<lambda>net.
     and_then (positive_u32 env ''INVITE_TICKETS_RATE_LIMIT'' ''30'') (\<lambda>limit.
     and_then (positive_u64 env ''INVITE_TICKETS_RATE_LIMIT_WINDOW_SECS'' ''60'') (\<lambda>window.
     and_then (bind_var env sock) (\<lambda>addr.
     and_then (jwt_verifier_from_env kc env) (\<lambda>v.
     Inr \<lparr>kt_bind_addr = addr, kt_database_url = url, kt_network = net, kt_jwt_verifier = v, kt_rate_limit = limit,
          kt_rate_window = window\<rparr>)))))))"

record notify_config =
  kn_bind_addr :: string
  kn_jwt_verifier :: verifier
  kn_rate_limit :: nat
  kn_rate_window :: nat

definition notify_from_env :: "key_codecs \<Rightarrow> (string \<Rightarrow> string + string) \<Rightarrow> env_vars \<Rightarrow> config_error + notify_config" where
  "notify_from_env kc sock env =
     and_then (positive_u32 env ''NOTIFY_RATE_LIMIT'' ''60'') (\<lambda>limit.
     and_then (positive_u64 env ''NOTIFY_RATE_LIMIT_WINDOW_SECS'' ''60'') (\<lambda>window.
     and_then (bind_var env sock) (\<lambda>addr.
     and_then (jwt_verifier_from_env kc env) (\<lambda>v.
     Inr \<lparr>kn_bind_addr = addr, kn_jwt_verifier = v, kn_rate_limit = limit, kn_rate_window = window\<rparr>))))"

section \<open>TURN\<close>

definition decode_secret :: "(string \<Rightarrow> string + bytes) \<Rightarrow> string \<Rightarrow> config_error + bytes" where
  "decode_secret b64 raw =
     and_then (map_error (\<lambda>_. Invalid ''TURN_SECRET'' ''invalid base64 encoding'') (b64 (trim raw))) (\<lambda>bs.
     if bs = [] then Inl (Invalid ''TURN_SECRET'' ''must not be empty'') else Inr bs)"

definition is_realm_char :: "char \<Rightarrow> bool" where
  "is_realm_char c \<longleftrightarrow> char_between 48 c 57 \<or> char_between 65 c 90 \<or> char_between 97 c 122 \<or> c \<in> {CHR ''_'', CHR ''.'', CHR ''-''}"

definition validated_realm :: "string \<Rightarrow> config_error + string" where
  "validated_realm raw =
     (if trim raw \<noteq> [] \<and> list_all is_realm_char (trim raw) then Inr (trim raw)
      else Inl (Invalid ''TURN_REALM'' ''must contain only alphanumeric characters, underscores, dots, and hyphens''))"

fun ice_entries :: "string list \<Rightarrow> config_error + string list" where
  "ice_entries [] = Inr []"
| "ice_entries (e # es) =
     (if trim e = [] \<or> CHR '':'' \<notin> set (trim e)
      then Inl (Invalid ''ICE_SERVERS'' (''invalid ICE server URL: '' @ debug_str (trim e)))
      else and_then (ice_entries es) (\<lambda>rest. Inr (trim e # rest)))"

definition parse_ice_servers :: "string \<Rightarrow> config_error + string list" where
  "parse_ice_servers raw =
     (if trim raw = [] then Inl (Invalid ''ICE_SERVERS'' ''must list at least one ICE server URL'')
      else ice_entries (split_on CHR '','' raw))"

definition cloudflare_from_env :: "env_vars \<Rightarrow> config_error + provider_config" where
  "cloudflare_from_env env =
     (if (case env ''TURN_SECRET'' of Some v \<Rightarrow> trim v \<noteq> [] | None \<Rightarrow> False)
      then Inl (Invalid ''TURN_PROVIDER'' (''TURN_SECRET is set but the provider is cloudflare; set TURN_PROVIDER=coturn '' @
        ''to keep using a self-hosted relay, or remove TURN_SECRET''))
      else and_then (required_var env ''TURN_KEY_ID'') (\<lambda>app.
           and_then (required_var env ''TURN_API_TOKEN'') (\<lambda>token. Inr (PCloudflare app token None))))"

definition coturn_from_env :: "(string \<Rightarrow> string + bytes) \<Rightarrow> env_vars \<Rightarrow> config_error + provider_config" where
  "coturn_from_env b64 env =
     (let raw = env_or env ''TURN_AUTH_ALGORITHM'' ''SHA1'' in
      and_then (ok_or (Invalid ''TURN_AUTH_ALGORITHM'' (''expected SHA1|SHA256|SHA384|SHA512, got '' @ raw))
        (algorithm_from_str (trim raw))) (\<lambda>alg.
      and_then (and_then (required_var env ''TURN_SECRET'') (decode_secret b64)) (\<lambda>secret.
      and_then (and_then (required_var env ''TURN_REALM'') validated_realm) (\<lambda>realm.
      and_then (and_then (required_var env ''ICE_SERVERS'') parse_ice_servers) (\<lambda>servers.
      Inr (PCoturn secret alg realm servers))))))"

definition provider_from_env :: "(string \<Rightarrow> string + bytes) \<Rightarrow> env_vars \<Rightarrow> config_error + provider_config" where
  "provider_from_env b64 env =
     (let selected = trim (env_or env ''TURN_PROVIDER'' ''cloudflare'')
      in if selected = ''cloudflare'' then cloudflare_from_env env
         else if selected = ''coturn'' then coturn_from_env b64 env
         else Inl (Invalid ''TURN_PROVIDER'' (''expected cloudflare|coturn, got '' @ debug_str selected)))"

record proof_config =
  kp_rpc_url :: string
  kp_genesis :: bytes
  kp_contexts :: "string \<rightharpoonup> bytes"
  kp_concurrency :: nat

definition proof_concurrency :: "nat option \<Rightarrow> string \<Rightarrow> config_error + nat" where
  "proof_concurrency cpus raw =
     (if to_ascii_lowercase (trim raw) = ''auto'' then Inr (case cpus of Some n \<Rightarrow> max (n - 1) 1 | None \<Rightarrow> 1)
      else and_then (map_error (Invalid ''TURN_PROOF_CONCURRENCY'') (parse_uint (2 ^ 64) (trim raw)))
        (positive ''TURN_PROOF_CONCURRENCY''))"

definition product_contexts :: "(bytes \<Rightarrow> bytes) \<Rightarrow> string \<Rightarrow> u32 \<Rightarrow> config_error + (string \<rightharpoonup> bytes)" where
  "product_contexts b2 raw suffix =
     fold_result (\<lambda>m entry.
       if trim entry = [] then Inl (Invalid ''TURN_PROOF_PRODUCTS'' ''contains an empty product id'')
       else Inr (m(trim entry \<mapsto> product_context b2 (trim entry) suffix))) Map.empty (split_on CHR '','' raw)"

definition hex_bytes :: "(string \<Rightarrow> string + bytes) \<Rightarrow> string \<Rightarrow> string \<Rightarrow> config_error + bytes" where
  "hex_bytes hex key raw =
     and_then (map_error (\<lambda>_. Invalid key ''invalid hex encoding'') (hex (trim_0x (trim raw)))) (\<lambda>bs.
     if bs = [] then Inl (Invalid key ''must not be empty'') else Inr bs)"

definition hex32 :: "(string \<Rightarrow> string + bytes) \<Rightarrow> string \<Rightarrow> string \<Rightarrow> config_error + bytes" where
  "hex32 hex key raw =
     and_then (hex_bytes hex key raw) (\<lambda>bs.
     if length bs = 32 then Inr bs else Inl (Invalid key (''expected 32 bytes, got '' @ nat_to_string (length bs))))"

definition rust_bool :: "string \<Rightarrow> string + bool" where
  "rust_bool s = (if s = ''true'' then Inr True else if s = ''false'' then Inr False
     else Inl ''provided string was not `true` or `false`'')"

definition proof_from_env ::
  "(string \<Rightarrow> string + bytes) \<Rightarrow> (bytes \<Rightarrow> bytes) \<Rightarrow> nat option \<Rightarrow> env_vars \<Rightarrow> config_error + proof_config option" where
  "proof_from_env hex b2 cpus env =
     and_then (parse_var env rust_bool ''TURN_PROOF_ENABLED'' ''false'') (\<lambda>enabled.
     if \<not> enabled then Inr None else
     and_then (proof_concurrency cpus (env_or env ''TURN_PROOF_CONCURRENCY'' ''auto'')) (\<lambda>concurrency.
     and_then (u32_var env ''TURN_PROOF_CONTEXT_SUFFIX'' ''0'') (\<lambda>suffix.
     and_then (required_var env ''TURN_PROOF_RPC_URL'') (\<lambda>rpc.
     and_then (and_then (required_var env ''TURN_PROOF_GENESIS'') (hex32 hex ''TURN_PROOF_GENESIS'')) (\<lambda>genesis.
     and_then (and_then (required_var env ''TURN_PROOF_PRODUCTS'') (\<lambda>raw. product_contexts b2 raw (word_of_nat suffix))) (\<lambda>ctxs.
     Inr (Some \<lparr>kp_rpc_url = rpc, kp_genesis = genesis, kp_contexts = ctxs, kp_concurrency = concurrency\<rparr>)))))))"

record turn_config =
  ku_bind_addr :: string
  ku_ttl_secs :: nat
  ku_provider :: provider_config
  ku_jwt_verifier :: verifier
  ku_rate_limit :: nat
  ku_rate_window :: nat
  ku_proof :: "proof_config option"

definition turn_from_env ::
  "key_codecs \<Rightarrow> (string \<Rightarrow> string + bytes) \<Rightarrow> (bytes \<Rightarrow> bytes) \<Rightarrow> nat option \<Rightarrow> (string \<Rightarrow> string + string) \<Rightarrow> env_vars \<Rightarrow> config_error + turn_config" where
  "turn_from_env kc b64 b2 cpus sock env =
     and_then (positive_u64 env ''TURN_TTL_SECS'' ''1800'') (\<lambda>ttl.
     and_then (provider_from_env b64 env) (\<lambda>provider.
     and_then (positive_u32 env ''TURN_RATE_LIMIT'' ''30'') (\<lambda>limit.
     and_then (positive_u64 env ''TURN_RATE_LIMIT_WINDOW_SECS'' ''60'') (\<lambda>window.
     and_then (proof_from_env (kc_hex kc) b2 cpus env) (\<lambda>proof_cfg.
     and_then (bind_var env sock) (\<lambda>addr.
     and_then (jwt_verifier_from_env kc env) (\<lambda>v.
     Inr \<lparr>ku_bind_addr = addr, ku_ttl_secs = ttl, ku_provider = provider, ku_jwt_verifier = v, ku_rate_limit = limit,
          ku_rate_window = window, ku_proof = proof_cfg\<rparr>)))))))"

section \<open>The username indexer\<close>

record indexer_config =
  kx_bind_addr :: string
  kx_database_url :: string
  kx_people_rpc_url :: string
  kx_storage_page_size :: nat
  kx_sync_interval_secs :: nat
  kx_search_rate_limit :: nat
  kx_search_rate_window :: nat
  kx_poc_difficulty_bits :: nat
  kx_speculative_indexing :: bool
  kx_poc_hmac_secret :: "string option"

definition indexer_required :: "env_vars \<Rightarrow> string \<Rightarrow> config_error + string" where
  "indexer_required env key =
     (case env key of Some v \<Rightarrow> if trim v = [] then Inl (Missing key) else Inr v | None \<Rightarrow> Inl (Missing key))"

definition strict_bool :: "env_vars \<Rightarrow> string \<Rightarrow> bool \<Rightarrow> config_error + bool" where
  "strict_bool env key dflt =
     (case env key of
        None \<Rightarrow> Inr dflt
      | Some raw \<Rightarrow>
          (let other = to_ascii_lowercase (trim raw)
           in if other = ''true'' then Inr True else if other = ''false'' then Inr False
              else Inl (Invalid key (''expected `true` or `false`, got `'' @ other @ ''`''))))"

definition ranged :: "nat \<Rightarrow> env_vars \<Rightarrow> string \<Rightarrow> string \<Rightarrow> nat \<Rightarrow> string \<Rightarrow> nat \<Rightarrow> config_error + nat" where
  "ranged width env key dflt lo reason hi =
     and_then (parse_var env (parse_uint (2 ^ width)) key dflt) (\<lambda>n.
     if lo \<le> n \<and> n \<le> hi then Inr n else Inl (Invalid key reason))"

definition poc_secret_from :: "env_vars \<Rightarrow> bool \<Rightarrow> config_error + string option" where
  "poc_secret_from env enabled =
     (if enabled then
        and_then (indexer_required env ''POC_HMAC_SECRET'') (\<lambda>secret.
        if length secret < 32 then Inl (Invalid ''POC_HMAC_SECRET'' ''must be at least 32 characters of random material'')
        else Inr (Some secret))
      else Inr None)"

definition indexer_from_getter :: "(string \<Rightarrow> string + string) \<Rightarrow> env_vars \<Rightarrow> config_error + indexer_config" where
  "indexer_from_getter sock env =
     and_then (indexer_required env ''INDEXER_DATABASE_URL'') (\<lambda>url.
     and_then (indexer_required env ''PEOPLE_RPC_URL'') (\<lambda>rpc.
     and_then (bind_var env sock) (\<lambda>addr.
     and_then (ranged 32 env ''STORAGE_PAGE_SIZE'' ''1000'' 1 ''must be between 1 and 1000'' 1000) (\<lambda>page.
     and_then (ranged 32 env ''SYNC_INTERVAL_SECS'' ''30'' 1 ''must be between 1 and 86400'' 86400) (\<lambda>sync.
     and_then (positive_u32 env ''SEARCH_RATE_LIMIT'' ''60'') (\<lambda>limit.
     and_then (positive_u32 env ''SEARCH_RATE_LIMIT_WINDOW_SECS'' ''60'') (\<lambda>window.
     and_then (strict_bool env ''SPECULATIVE_INDEXING_ENABLED'' True) (\<lambda>speculative.
     and_then (strict_bool env ''POC_ENABLED'' False) (\<lambda>poc.
     and_then (ranged 8 env ''POC_DIFFICULTY_BITS'' ''16'' 1 ''must be between 1 and 32'' 32) (\<lambda>bits.
     and_then (poc_secret_from env poc) (\<lambda>secret.
     Inr \<lparr>kx_bind_addr = addr, kx_database_url = url, kx_people_rpc_url = rpc, kx_storage_page_size = page,
          kx_sync_interval_secs = sync, kx_search_rate_limit = limit, kx_search_rate_window = window,
          kx_poc_difficulty_bits = bits, kx_speculative_indexing = speculative, kx_poc_hmac_secret = secret\<rparr>)))))))))))"

section \<open>Siblings authenticate what the issuer signs\<close>

text \<open>C38: A sibling service that loads the issuer's published key document authenticates exactly what the issuer signs. When the
  document reads back as it was written and the key text decodes to the key, the sibling's verifier is built from it whatever
  pinned key is configured beside it, and a bearer token of the issuer gives, until it expires, the account,
  platform and store verdict it was issued for.\<close>

theorem sibling_authenticates:
  assumes "env ''JWT_JWKS_JSON'' = Some doc" "trim doc \<noteq> []"
    and "kc_jwks kc doc = Some (jwt_jwks b64 jl (jwt_new jl sha hex seed name))"
    and "kc_ed_components kc (b64 (jl_public jl seed)) = Some (jl_public jl seed)"
    and "jwt_token_ok jl (is_header (jwt_issuer_part (jwt_new jl sha hex seed name)))
      (issue_claims (jwt_issuer_part (jwt_new jl sha hex seed name)) issued account official platform ttl) seed"
    and "now < issued + ttl"
  shows "\<exists>v. jwt_verifier_from_env kc env = Inr v \<and>
    auth_subject_from jl v now
      (Some (''Bearer '' @ jwt_issue jl (jwt_new jl sha hex seed name) issued account official platform ttl)) =
      Inr \<lparr>as_subject = account, as_platform = platform, as_app_from_official_store = Some official\<rparr>"
proof -
  have "jwt_verifier_from_env kc env = Inr (jwt_verifier (jwt_new jl sha hex seed name))"
    using assms(1-4) by (simp add: jwt_verifier_from_env_def jwt_verifier_from_values_def from_jwks_def jwt_jwks_def jwt_new_def
        issuer_new_def map_filter_simps verifier_from_public_key_def ok_or_def Let_def)
  with issued_token_authenticates [OF assms(5,6)] show ?thesis by blast
qed

theorem sibling_authenticates_witness:
  "\<exists>v. jwt_verifier_from_env \<lparr>kc_jwks = \<lambda>_. Some [\<lparr>jk_kid = Some ''k'', jk_ed25519 = Some ''AQ''\<rparr>], kc_ed_components = \<lambda>_. Some [1],
       kc_hex = \<lambda>_. Inl ''bad'', kc_ed_key = Inr\<rparr> [''JWT_JWKS_JSON'' \<mapsto> ''{}''] = Inr v \<and>
     auth_subject_from demo_jwt_lib v 105 (Some ''Bearer abc'') =
       Inr \<lparr>as_subject = ''0x01'', as_platform = Some ''ios'', as_app_from_official_store = Some True\<rparr>"
proof -
  let ?j = "jwt_new demo_jwt_lib (\<lambda>b. b) (\<lambda>_. ''k'') [1] ''app''"
  have "jwt_token_ok demo_jwt_lib (is_header (jwt_issuer_part ?j))
      (issue_claims (jwt_issuer_part ?j) 100 ''0x01'' True (Some ''ios'') 10) [1]"
    by (simp add: jwt_token_ok_def demo_jwt_lib_def jwt_new_def issuer_new_def issue_claims_def is_space_def Let_def)
  moreover have "jwt_issue demo_jwt_lib ?j 100 ''0x01'' True (Some ''ios'') 10 = ''abc''"
    by (simp add: jwt_issue_def issuer_issue_def demo_jwt_lib_def)
  moreover have "jwt_jwks (\<lambda>_. ''AQ'') demo_jwt_lib ?j = [\<lparr>jk_kid = Some ''k'', jk_ed25519 = Some ''AQ''\<rparr>]"
    by (simp add: jwt_jwks_def jwt_new_def issuer_new_def Let_def)
  ultimately show ?thesis
    using sibling_authenticates [of "[''JWT_JWKS_JSON'' \<mapsto> ''{}'']" "''{}''" "\<lparr>kc_jwks = \<lambda>_. Some [\<lparr>jk_kid = Some ''k'', jk_ed25519 = Some ''AQ''\<rparr>],
        kc_ed_components = \<lambda>_. Some [1], kc_hex = \<lambda>_. Inl ''bad'', kc_ed_key = Inr\<rparr>" "\<lambda>_. ''AQ''" demo_jwt_lib "\<lambda>b. b" "\<lambda>_. ''k''" "[1]" "''app''" 100
        "''0x01''" True "Some ''ios''" 10 105]
    by (simp add: demo_jwt_lib_def trim_def is_space_def)
qed

section \<open>No gate is half on\<close>

lemma ranged_Inr: "ranged width env key dflt lo reason hi = Inr n \<Longrightarrow> lo \<le> n \<and> n \<le> hi"
  by (auto simp: ranged_def split: if_splits)

lemma positive_u32_Inr: "positive_u32 env key dflt = Inr n \<Longrightarrow> 1 \<le> n"
  by (auto simp: positive_u32_def positive_def split: if_splits)

lemma poc_secret_Inr:
  "poc_secret_from env on = Inr secret \<Longrightarrow> (secret \<noteq> None \<longleftrightarrow> on) \<and>
     (case secret of Some s \<Rightarrow> 32 \<le> length s \<and> env ''POC_HMAC_SECRET'' = Some s | None \<Rightarrow> True)"
  by (auto simp: poc_secret_from_def indexer_required_def split: if_splits option.splits)

lemma strict_bool_Inr:
  "strict_bool env key dflt = Inr b \<Longrightarrow>
     b \<longleftrightarrow> (case env key of None \<Rightarrow> dflt | Some raw \<Rightarrow> to_ascii_lowercase (trim raw) = ''true'')"
  by (auto simp: strict_bool_def Let_def split: if_splits option.splits)

text \<open>The indexer's search gate is on exactly when it was asked for, and never without its key. A configuration that loads has the
  puzzle secret if and only if the switch says true, and then at least 32 characters of it and a difficulty between 1
  and 32 bits; pages, intervals and limits are within their bounds.\<close>

theorem indexer_config_sound:
  assumes "indexer_from_getter sock env = Inr cfg"
  shows "(kx_poc_hmac_secret cfg \<noteq> None \<longleftrightarrow> (\<exists>raw. env ''POC_ENABLED'' = Some raw \<and> to_ascii_lowercase (trim raw) = ''true'')) \<and>
    (case kx_poc_hmac_secret cfg of Some secret \<Rightarrow> 32 \<le> length secret \<and> env ''POC_HMAC_SECRET'' = Some secret | None \<Rightarrow> True) \<and>
    1 \<le> kx_poc_difficulty_bits cfg \<and> kx_poc_difficulty_bits cfg \<le> 32 \<and> 1 \<le> kx_storage_page_size cfg \<and>
    kx_storage_page_size cfg \<le> 1000 \<and> 1 \<le> kx_sync_interval_secs cfg \<and> 1 \<le> kx_search_rate_limit cfg"
proof -
  from assms obtain poc where poc: "strict_bool env ''POC_ENABLED'' False = Inr poc"
    and secret: "poc_secret_from env poc = Inr (kx_poc_hmac_secret cfg)"
    and bits: "ranged 8 env ''POC_DIFFICULTY_BITS'' ''16'' 1 ''must be between 1 and 32'' 32 = Inr (kx_poc_difficulty_bits cfg)"
    and page: "ranged 32 env ''STORAGE_PAGE_SIZE'' ''1000'' 1 ''must be between 1 and 1000'' 1000 = Inr (kx_storage_page_size cfg)"
    and sync: "ranged 32 env ''SYNC_INTERVAL_SECS'' ''30'' 1 ''must be between 1 and 86400'' 86400 = Inr (kx_sync_interval_secs cfg)"
    and limit: "positive_u32 env ''SEARCH_RATE_LIMIT'' ''60'' = Inr (kx_search_rate_limit cfg)"
    by (auto simp: indexer_from_getter_def)
  show ?thesis
    using poc_secret_Inr [OF secret] strict_bool_Inr [OF poc] ranged_Inr [OF bits] ranged_Inr [OF page] ranged_Inr [OF sync]
      positive_u32_Inr [OF limit] by (auto split: option.splits)
qed

end
