(* ===== verification/Indexer.thy ===== *)
theory Indexer
  imports Request Transactions "HOL-Library.AList" "HOL-Library.List_Lexorder"
begin

unbundle bit_operations_syntax

text \<open>
  The username indexer's projection (\<open>username-indexer/src\<close>: \<open>ss58.rs\<close>, \<open>projection.rs\<close>, \<open>incremental.rs\<close>,
  \<open>bootstrap.rs\<close>, \<open>sync.rs\<close>): the table of assigned usernames, its checkpoint, the finalized pass, the
  speculative pass over unfinalized blocks, the bootstrap scan and the pass that the sync loop
  runs. Chain reads, hashing, base 58 and the advisory lock are parameters. The lock excludes other writers of these
  two tables. Shown here: the confirmed rows of the table are at every moment exactly the decodable
  consumers of the chain at the checkpoint, whatever fails and whatever speculation does.
\<close>

section \<open>SS58\<close>

record ss58_lib =
  sx_blake2 :: "bytes \<Rightarrow> bytes"
  sx_base58 :: "bytes \<Rightarrow> string"

definition validate_prefix :: "u16 \<Rightarrow> u16 + u16" where
  "validate_prefix prefix = (if 16384 \<le> prefix then Inl prefix else Inr prefix)"

definition ss58_encode :: "ss58_lib \<Rightarrow> account \<Rightarrow> u16 \<Rightarrow> string option" where
  "ss58_encode sx account prefix =
     (if 16384 \<le> prefix then None
      else let head = (if prefix \<le> 63 then [ucast prefix]
             else [ucast (drop_bit 2 (prefix AND 252)) OR 64, ucast (drop_bit 8 prefix) OR ucast (push_bit 6 (prefix AND 3))]);
           payload = head @ account;
           checksum = sx_blake2 sx (as_bytes ''SS58PRE'' @ payload)
      in Some (sx_base58 sx (payload @ take 2 checksum)))"

section \<open>Decoding a consumer\<close>

record consumer =
  cn_identifier_key :: bytes
  cn_lite :: bytes
  cn_full :: "bytes option"

record assigned_username =
  au_account :: account
  au_ss58 :: string
  au_identifier_key :: bytes
  au_lite_username :: string
  au_lite_base :: string
  au_lite_digits :: string
  au_full :: "string option"
  au_display :: string
  au_snapshot_hash :: bytes
  au_snapshot_number :: nat

datatype decode_error = LiteUtf8 | FullUtf8 | LiteFormat | EmptyFull | NulByte

definition rsplit_dot :: "string \<Rightarrow> (string \<times> string) option" where
  "rsplit_dot s =
     (if CHR ''.'' \<in> set s
      then Some (rev (tl (dropWhile (\<lambda>c. c \<noteq> CHR ''.'') (rev s))), rev (takeWhile (\<lambda>c. c \<noteq> CHR ''.'') (rev s)))
      else None)"

definition is_digit :: "char \<Rightarrow> bool" where
  "is_digit c \<longleftrightarrow> char_between 48 c 57"

definition decode_full :: "bytes option \<Rightarrow> decode_error + string option" where
  "decode_full raw =
     (case raw of
        None \<Rightarrow> Inr None
      | Some bs \<Rightarrow> (case from_utf8 bs of None \<Rightarrow> Inl FullUtf8 | Some s \<Rightarrow> Inr (Some s)))"

text \<open>\<open>address\<close> is the account in SS58, which encodes for every validated prefix.\<close>

definition decode_consumer ::
  "ss58_lib \<Rightarrow> account \<Rightarrow> consumer \<Rightarrow> u16 \<Rightarrow> bytes \<Rightarrow> nat \<Rightarrow> decode_error + assigned_username" where
  "decode_consumer sx account c prefix hash number =
     and_then (ok_or LiteUtf8 (from_utf8 (cn_lite c))) (\<lambda>lite.
     and_then (ok_or LiteFormat (rsplit_dot lite)) (\<lambda>(base, digits).
     if base = [] \<or> digits = [] \<or> \<not> list_all is_digit digits then Inl LiteFormat else
     and_then (decode_full (cn_full c)) (\<lambda>full.
     if full = Some [] then Inl EmptyFull else
     if CHR 0x00 \<in> set lite \<or> (case full of Some f \<Rightarrow> CHR 0x00 \<in> set f | None \<Rightarrow> False) then Inl NulByte else
     Inr \<lparr>au_account = account, au_ss58 = the (ss58_encode sx account prefix), au_identifier_key = cn_identifier_key c,
          au_lite_username = lite, au_lite_base = base, au_lite_digits = digits, au_full = full,
          au_display = (case full of Some f \<Rightarrow> f | None \<Rightarrow> lite), au_snapshot_hash = hash, au_snapshot_number = number\<rparr>)))"

section \<open>The tables\<close>

record urow =
  ur_ss58 :: string
  ur_identifier_key :: bytes
  ur_lite_username :: string
  ur_lite_base :: string
  ur_lite_digits :: nat
  ur_full :: "string option"
  ur_display :: string
  ur_snapshot_hash :: bytes
  ur_snapshot_number :: nat
  ur_speculative :: "nat option"
  ur_created_at :: instant
  ur_updated_at :: instant

record sync_state =
  ss_number :: nat
  ss_hash :: bytes
  ss_genesis :: "bytes option"
  ss_synced_at :: instant
  ss_records :: nat
  ss_failures :: nat
  ss_updated_at :: instant

record ix_tables =
  ix_rows :: "(account \<times> urow) list"
  ix_sync :: "sync_state option"

type_synonym content = "string \<times> bytes \<times> string \<times> string \<times> nat \<times> string option \<times> string"

definition row_content :: "urow \<Rightarrow> content" where
  "row_content r = (ur_ss58 r, ur_identifier_key r, ur_lite_username r, ur_lite_base r, ur_lite_digits r, ur_full r, ur_display r)"

definition digits_value :: "string \<Rightarrow> nat" where
  "digits_value s = be_value 10 0 (map (\<lambda>c. of_char c - 48) s)"

definition user_content :: "assigned_username \<Rightarrow> content" where
  "user_content u = (au_ss58 u, au_identifier_key u, au_lite_username u, au_lite_base u, digits_value (au_lite_digits u), au_full u, au_display u)"

definition row_of :: "assigned_username \<Rightarrow> nat \<Rightarrow> nat option \<Rightarrow> instant \<Rightarrow> instant \<Rightarrow> urow" where
  "row_of u number spec created now =
     \<lparr>ur_ss58 = au_ss58 u, ur_identifier_key = au_identifier_key u, ur_lite_username = au_lite_username u,
      ur_lite_base = au_lite_base u, ur_lite_digits = digits_value (au_lite_digits u), ur_full = au_full u, ur_display = au_display u,
      ur_snapshot_hash = au_snapshot_hash u, ur_snapshot_number = number, ur_speculative = spec, ur_created_at = created,
      ur_updated_at = now\<rparr>"

definition put_row :: "account \<Rightarrow> urow \<Rightarrow> ix_tables \<Rightarrow> ix_tables" where
  "put_row a r t = t\<lparr>ix_rows := AList.update a r (ix_rows t)\<rparr>"

definition drop_row :: "account \<Rightarrow> ix_tables \<Rightarrow> ix_tables" where
  "drop_row a t = t\<lparr>ix_rows := AList.delete a (ix_rows t)\<rparr>"

abbreviation row_at :: "ix_tables \<Rightarrow> account \<Rightarrow> urow option" where
  "row_at t a \<equiv> map_of (ix_rows t) a"

definition upsert :: "assigned_username \<Rightarrow> nat \<Rightarrow> (ix_tables, unit) stmt" where
  "upsert u number now t =
     ((), put_row (au_account u)
        (row_of u number None (case row_at t (au_account u) of Some r \<Rightarrow> ur_created_at r | None \<Rightarrow> now) now) t)"

definition delete_account :: "account \<Rightarrow> (ix_tables, unit) stmt" where
  "delete_account a now t = ((), drop_row a t)"

definition upsert_speculative :: "assigned_username \<Rightarrow> nat \<Rightarrow> (ix_tables, bool) stmt" where
  "upsert_speculative u best now t =
     (case row_at t (au_account u) of
        None \<Rightarrow> (True, put_row (au_account u) (row_of u best (Some best) now now) t)
      | Some r \<Rightarrow>
          if ur_speculative r \<noteq> None \<and> row_content r \<noteq> user_content u
          then (True, put_row (au_account u) (row_of u best (ur_speculative r) (ur_created_at r) now) t)
          else (False, t))"

definition delete_if_speculative :: "account \<Rightarrow> (ix_tables, bool) stmt" where
  "delete_if_speculative a now t =
     (case row_at t a of
        Some r \<Rightarrow> if ur_speculative r \<noteq> None then (True, drop_row a t) else (False, t)
      | None \<Rightarrow> (False, t))"

definition finalized_accounts :: "account list \<Rightarrow> (ix_tables, account list) stmt" where
  "finalized_accounts accounts now t =
     (map fst (filter (\<lambda>(a, r). ur_speculative r = None \<and> a \<in> set accounts) (ix_rows t)), t)"

definition speculative_accounts :: "(ix_tables, account list) stmt" where
  "speculative_accounts now t = (map fst (filter (\<lambda>(a, r). ur_speculative r \<noteq> None) (ix_rows t)), t)"

definition clear_speculative :: "(ix_tables, nat) stmt" where
  "clear_speculative now t =
     (length (filter (\<lambda>(a, r). ur_speculative r \<noteq> None) (ix_rows t)),
      t\<lparr>ix_rows := filter (\<lambda>(a, r). ur_speculative r = None) (ix_rows t)\<rparr>)"

definition advance_checkpoint :: "nat \<Rightarrow> bytes \<Rightarrow> nat \<Rightarrow> nat \<Rightarrow> (ix_tables, unit) stmt" where
  "advance_checkpoint number hash records failures now t =
     ((), t\<lparr>ix_sync := map_option (\<lambda>s. s\<lparr>ss_number := number, ss_hash := hash, ss_synced_at := now, ss_records := records,
        ss_failures := failures, ss_updated_at := now\<rparr>) (ix_sync t)\<rparr>)"

section \<open>The chain\<close>

datatype event_kind = LitePersonRegistered | PersonRegistered | IdentifierKeyUpdated | ConsumerRegistered | OtherEvent

datatype scan_entry = IteratorError | KeyError | ValueError account | Entry account consumer

record ix_chain =
  xc_current :: "nat \<Rightarrow> string + bytes"
  xc_block :: "nat \<Rightarrow> nat \<Rightarrow> string + bytes"
  xc_number :: "bytes \<Rightarrow> nat"
  xc_best :: "nat \<Rightarrow> string + nat"
  xc_events :: "nat \<Rightarrow> bytes \<Rightarrow> string + (event_kind \<times> (string + account)) list"
  xc_consumer :: "nat \<Rightarrow> bytes \<Rightarrow> account \<Rightarrow> string + consumer option"
  xc_prefix :: "bytes \<Rightarrow> string + u16"
  xc_scan :: "nat \<Rightarrow> bytes \<Rightarrow> string + scan_entry list"
  xc_genesis :: bytes

record ix_deps =
  xd_env :: "ix_tables env"
  xd_lock :: "nat \<Rightarrow> string + bool"
  xd_chain :: ix_chain
  xd_ss58 :: ss58_lib

datatype index_error = IxChain string | IxStorage string | IxSs58 u16 | IxDatabase string | SnapshotNumber nat
  | IncompleteScan nat

text \<open>The events of one kind after the other; an event that does not decode fails the block.\<close>

fun accounts_of_kind :: "event_kind \<Rightarrow> (event_kind \<times> (string + account)) list \<Rightarrow> index_error + account list" where
  "accounts_of_kind k [] = Inr []"
| "accounts_of_kind k ((k', r) # evs) =
     (if k' \<noteq> k then accounts_of_kind k evs
      else and_then (map_error IxStorage r) (\<lambda>a. and_then (accounts_of_kind k evs) (\<lambda>as. Inr (a # as))))"

definition accounts_from_events :: "(event_kind \<times> (string + account)) list \<Rightarrow> index_error + account list" where
  "accounts_from_events evs =
     and_then (accounts_of_kind LitePersonRegistered evs) (\<lambda>a.
     and_then (accounts_of_kind PersonRegistered evs) (\<lambda>b.
     and_then (accounts_of_kind IdentifierKeyUpdated evs) (\<lambda>c.
     and_then (accounts_of_kind ConsumerRegistered evs) (\<lambda>d. Inr (a @ b @ c @ d)))))"

definition dedupe_accounts :: "account list \<Rightarrow> account list" where
  "dedupe_accounts as = sort (remdups as)"

section \<open>The finalized pass\<close>

abbreviation ix_sql :: "ix_deps \<Rightarrow> (ix_tables, 'a) stmt \<Rightarrow> (ix_tables world, index_error, 'a) prog" where
  "ix_sql xd st \<equiv> map_err IxDatabase (sql (xd_env xd) st)"

abbreviation ix_tx :: "ix_deps \<Rightarrow> instant \<Rightarrow> (ix_tables, 'a) stmt \<Rightarrow> (ix_tables world, index_error, 'a) prog" where
  "ix_tx xd now st \<equiv> map_err IxDatabase (tx_sql (xd_env xd) now st)"

definition read_prefix :: "ix_deps \<Rightarrow> bytes \<Rightarrow> index_error + u16" where
  "read_prefix xd hash =
     and_then (map_error IxStorage (xc_prefix (xd_chain xd) hash)) (\<lambda>p. map_error IxSs58 (validate_prefix p))"

definition number_for_db :: "nat \<Rightarrow> index_error + nat" where
  "number_for_db n = (if n < 2 ^ 63 then Inr n else Inl (SnapshotNumber n))"

record block_counts =
  bc_upserts :: nat
  bc_deletes :: nat
  bc_failures :: nat

fun index_accounts ::
  "ix_deps \<Rightarrow> instant \<Rightarrow> bytes \<Rightarrow> nat \<Rightarrow> u16 \<Rightarrow> account list \<Rightarrow> block_counts \<Rightarrow> (ix_tables world, index_error, block_counts) prog" where
  "index_accounts xd now hash number prefix [] bc = ret bc"
| "index_accounts xd now hash number prefix (a # as) bc =
     bindE (remote (\<lambda>n. map_error IxStorage (xc_consumer (xd_chain xd) n hash a))) (\<lambda>found.
     bindE (case found of
        Some c \<Rightarrow>
          (case decode_consumer (xd_ss58 xd) a c prefix hash (xc_number (xd_chain xd) hash) of
             Inr u \<Rightarrow> bindE (ix_tx xd now (upsert u number)) (\<lambda>_. ret (bc\<lparr>bc_upserts := bc_upserts bc + 1\<rparr>))
           | Inl _ \<Rightarrow> bindE (ix_tx xd now (delete_account a)) (\<lambda>_. ret (bc\<lparr>bc_failures := bc_failures bc + 1\<rparr>)))
      | None \<Rightarrow> bindE (ix_tx xd now (delete_account a)) (\<lambda>_. ret (bc\<lparr>bc_deletes := bc_deletes bc + 1\<rparr>)))
     (index_accounts xd now hash number prefix as))"

record index_report =
  ir_from_block :: nat
  ir_to_block :: nat
  ir_blocks_processed :: nat
  ir_accounts_upserted :: nat
  ir_accounts_deleted :: nat
  ir_decode_failures :: nat

definition report_idle :: "nat \<Rightarrow> index_report" where
  "report_idle block = \<lparr>ir_from_block = block, ir_to_block = block, ir_blocks_processed = 0, ir_accounts_upserted = 0,
     ir_accounts_deleted = 0, ir_decode_failures = 0\<rparr>"

definition commit_block :: "ix_deps \<Rightarrow> bytes \<Rightarrow> nat \<Rightarrow> account list \<Rightarrow> index_report \<Rightarrow> (ix_tables world, index_error, index_report) prog" where
  "commit_block xd hash number affected report =
     (if affected = [] then
        bindE (transaction (xd_env xd) IxDatabase (\<lambda>now.
          bindE (ix_tx xd now (advance_checkpoint number hash 0 0)) (\<lambda>_. ret (Commit ())))) (\<lambda>_. ret report)
      else
        bindE (lift_result (read_prefix xd hash)) (\<lambda>prefix.
        bindE (transaction (xd_env xd) IxDatabase (\<lambda>now.
          bindE (index_accounts xd now hash number prefix affected \<lparr>bc_upserts = 0, bc_deletes = 0, bc_failures = 0\<rparr>) (\<lambda>bc.
          bindE (ix_tx xd now (advance_checkpoint number hash (bc_upserts bc) (bc_failures bc))) (\<lambda>_.
          ret (Commit bc))))) (\<lambda>bc.
        ret (report\<lparr>ir_accounts_upserted := ir_accounts_upserted report + bc_upserts bc,
          ir_accounts_deleted := ir_accounts_deleted report + bc_deletes bc,
          ir_decode_failures := ir_decode_failures report + bc_failures bc\<rparr>))))"

definition index_block :: "ix_deps \<Rightarrow> nat \<Rightarrow> index_report \<Rightarrow> (ix_tables world, index_error, index_report) prog" where
  "index_block xd number report =
     bindE (remote (\<lambda>n. map_error IxChain (xc_block (xd_chain xd) n number))) (\<lambda>hash.
     bindE (lift_result (number_for_db (xc_number (xd_chain xd) hash))) (\<lambda>number_db.
     bindE (remote (\<lambda>n. map_error IxChain (xc_events (xd_chain xd) n hash))) (\<lambda>evs.
     bindE (lift_result (accounts_from_events evs)) (\<lambda>accounts.
     commit_block xd hash number_db (dedupe_accounts accounts) report))))"

fun index_blocks :: "ix_deps \<Rightarrow> nat list \<Rightarrow> index_report \<Rightarrow> (ix_tables world, index_error, index_report) prog" where
  "index_blocks xd [] report = ret report"
| "index_blocks xd (number # numbers) report =
     bindE (index_block xd number report) (\<lambda>r.
     index_blocks xd numbers (r\<lparr>ir_blocks_processed := ir_blocks_processed r + 1\<rparr>))"

definition read_checkpoint :: "ix_deps \<Rightarrow> (ix_tables world, index_error, nat option) prog" where
  "read_checkpoint xd = ix_sql xd (\<lambda>_ t. (map_option ss_number (ix_sync t), t))"

definition index_from_checkpoint :: "ix_deps \<Rightarrow> nat \<Rightarrow> nat \<Rightarrow> (ix_tables world, index_error, index_report) prog" where
  "index_from_checkpoint xd checkpoint head_number =
     (if head_number \<le> checkpoint then ret (report_idle checkpoint)
      else index_blocks xd [checkpoint + 1..<head_number + 1]
        ((report_idle 0)\<lparr>ir_from_block := checkpoint + 1, ir_to_block := head_number\<rparr>))"

definition index_finalized_range_locked :: "ix_deps \<Rightarrow> nat \<Rightarrow> (ix_tables world, index_error, index_report) prog" where
  "index_finalized_range_locked xd head_number =
     bindE (read_checkpoint xd) (\<lambda>c.
     case c of None \<Rightarrow> ret (report_idle 0) | Some checkpoint \<Rightarrow> index_from_checkpoint xd checkpoint head_number)"

section \<open>The speculative pass\<close>

abbreviation MAX_SPECULATIVE_WINDOW :: nat where "MAX_SPECULATIVE_WINDOW \<equiv> 64"

datatype speculative_window = NoWindow | StandDown | Scan nat nat

definition plan_speculative_window :: "nat \<Rightarrow> nat \<Rightarrow> speculative_window" where
  "plan_speculative_window finalized best =
     (if best \<le> finalized then NoWindow
      else if best - finalized > MAX_SPECULATIVE_WINDOW then StandDown
      else Scan (finalized + 1) best)"

record speculative_report =
  sr_from_block :: nat
  sr_to_block :: nat
  sr_blocks_scanned :: nat
  sr_accounts_checked :: nat
  sr_accounts_admitted :: nat
  sr_accounts_retracted :: nat
  sr_decode_failures :: nat
  sr_skipped_wide_window :: bool

type_synonym spec_cache = "nat \<rightharpoonup> bytes \<times> account list"

definition cache_get :: "nat \<Rightarrow> bytes \<Rightarrow> spec_cache \<Rightarrow> account list option" where
  "cache_get number hash m =
     (case m number of Some (h, as) \<Rightarrow> if h = hash then Some as else None | None \<Rightarrow> None)"

definition cache_insert :: "nat \<Rightarrow> bytes \<Rightarrow> account list \<Rightarrow> spec_cache \<Rightarrow> spec_cache" where
  "cache_insert number hash as m = m(number \<mapsto> (hash, as))"

definition prune_finalized :: "nat \<Rightarrow> spec_cache \<Rightarrow> spec_cache" where
  "prune_finalized finalized m = (\<lambda>k. if finalized + 1 \<le> k then m k else None)"

fun scan_blocks ::
  "ix_deps \<Rightarrow> nat list \<Rightarrow> account list \<Rightarrow> (ix_tables world \<times> spec_cache, index_error, account list) prog" where
  "scan_blocks xd [] affected = ret affected"
| "scan_blocks xd (number # numbers) affected =
     bindE (on_first (remote (\<lambda>n. map_error IxChain (xc_block (xd_chain xd) n number)))) (\<lambda>hash.
     bindE (gets snd) (\<lambda>m.
     case cache_get number hash m of
       Some as \<Rightarrow> scan_blocks xd numbers (affected @ as)
     | None \<Rightarrow>
         bindE (on_first (remote (\<lambda>n. map_error IxChain (xc_events (xd_chain xd) n hash)))) (\<lambda>evs.
         bindE (lift_result (accounts_from_events evs)) (\<lambda>as.
         bindE (modify (\<lambda>(w, m). (w, cache_insert number hash as m))) (\<lambda>_.
         scan_blocks xd numbers (affected @ as))))))"

fun reconcile_accounts ::
  "ix_deps \<Rightarrow> instant \<Rightarrow> bytes \<Rightarrow> nat \<Rightarrow> u16 \<Rightarrow> account list \<Rightarrow> speculative_report \<Rightarrow> (ix_tables world, index_error, speculative_report) prog" where
  "reconcile_accounts xd now hash number prefix [] sr = ret sr"
| "reconcile_accounts xd now hash number prefix (a # as) sr =
     bindE (remote (\<lambda>n. map_error IxStorage (xc_consumer (xd_chain xd) n hash a))) (\<lambda>found.
     let decoded = map_option (\<lambda>c. decode_consumer (xd_ss58 xd) a c prefix hash (xc_number (xd_chain xd) hash)) found in
     bindE (case decoded of
        Some (Inr u) \<Rightarrow>
          bindE (ix_tx xd now (upsert_speculative u number)) (\<lambda>changed.
          ret (if changed then sr\<lparr>sr_accounts_admitted := sr_accounts_admitted sr + 1\<rparr> else sr))
      | _ \<Rightarrow>
          (let sr' = (if decoded = None then sr else sr\<lparr>sr_decode_failures := sr_decode_failures sr + 1\<rparr>)
           in bindE (ix_tx xd now (delete_if_speculative a)) (\<lambda>changed.
              ret (if changed then sr'\<lparr>sr_accounts_retracted := sr_accounts_retracted sr' + 1\<rparr> else sr'))))
     (reconcile_accounts xd now hash number prefix as))"

definition reconcile_window ::
  "ix_deps \<Rightarrow> nat \<Rightarrow> nat \<Rightarrow> account list \<Rightarrow> speculative_report \<Rightarrow> (ix_tables world, index_error, speculative_report) prog" where
  "reconcile_window xd finalized best affected sr =
     bindE (remote (\<lambda>n. map_error IxChain (xc_block (xd_chain xd) n (max best finalized)))) (\<lambda>hash.
     bindE (lift_result (number_for_db (xc_number (xd_chain xd) hash))) (\<lambda>number_db.
     bindE (lift_result (read_prefix xd hash)) (\<lambda>prefix.
     transaction (xd_env xd) IxDatabase (\<lambda>now.
       bindE (reconcile_accounts xd now hash number_db prefix affected sr) (\<lambda>sr'. ret (Commit sr'))))))"

definition index_speculative_window ::
  "ix_deps \<Rightarrow> nat \<Rightarrow> nat \<Rightarrow> (ix_tables world \<times> spec_cache, index_error, speculative_report) prog" where
  "index_speculative_window xd finalized best =
     (let plan = plan_speculative_window finalized best;
          sr = \<lparr>sr_from_block = finalized + 1, sr_to_block = (if plan = NoWindow then finalized else best), sr_blocks_scanned = 0,
            sr_accounts_checked = 0, sr_accounts_admitted = 0, sr_accounts_retracted = 0, sr_decode_failures = 0,
            sr_skipped_wide_window = (plan = StandDown)\<rparr>;
          numbers = (case plan of Scan from to \<Rightarrow> [from..<to + 1] | _ \<Rightarrow> [])
      in
      bindE (modify (\<lambda>(w, m). (w, prune_finalized finalized m))) (\<lambda>_.
      bindE (scan_blocks xd numbers []) (\<lambda>named.
      bindE (on_first (ix_sql xd speculative_accounts)) (\<lambda>pending.
      let accounts = dedupe_accounts (named @ pending) in
      bindE (if accounts = [] then ret [] else on_first (ix_sql xd (finalized_accounts accounts))) (\<lambda>confirmed.
      let affected = filter (\<lambda>a. a \<notin> set confirmed) accounts;
          sr' = sr\<lparr>sr_blocks_scanned := length numbers, sr_accounts_checked := length affected\<rparr>
      in if affected = [] then ret sr' else on_first (reconcile_window xd finalized best affected sr'))))))"

section \<open>One pass of the sync loop\<close>

datatype wake = WBlock nat | WTimer | WResubscribe

fun best_head :: "wake \<Rightarrow> nat option" where
  "best_head (WBlock number) = Some number"
| "best_head WTimer = None"
| "best_head WResubscribe = None"

record pass_report =
  pr_finalized :: index_report
  pr_speculative :: "speculative_report option"

definition finalized_head_number :: "ix_deps \<Rightarrow> (ix_tables world, index_error, nat) prog" where
  "finalized_head_number xd =
     remote (\<lambda>n. and_then (map_error IxChain (xc_current (xd_chain xd) n)) (\<lambda>h. Inr (xc_number (xd_chain xd) h)))"

definition reconcile_speculative ::
  "ix_deps \<Rightarrow> nat \<Rightarrow> nat option \<Rightarrow> (ix_tables world \<times> spec_cache, index_error, speculative_report option) prog" where
  "reconcile_speculative xd finalized best =
     bindE (case best of
        Some b \<Rightarrow> ret (Some b)
      | None \<Rightarrow> bindE (attempt (on_first (remote (xc_best (xd_chain xd))))) (\<lambda>r. ret (case r of Inr b \<Rightarrow> Some b | Inl _ \<Rightarrow> None))) (\<lambda>head.
     case head of
       None \<Rightarrow> ret None
     | Some b \<Rightarrow>
         bindE (attempt (index_speculative_window xd finalized b)) (\<lambda>r.
         ret (case r of Inr sr \<Rightarrow> Some sr | Inl _ \<Rightarrow> None)))"

definition pass ::
  "ix_deps \<Rightarrow> nat option \<Rightarrow> bool \<Rightarrow> (ix_tables world \<times> spec_cache, index_error, pass_report option) prog" where
  "pass xd best speculative_indexing =
     bindE (on_first (finalized_head_number xd)) (\<lambda>finalized.
     bindE (attempt (on_first (read_checkpoint xd))) (\<lambda>_.
     bindE (on_first (remote (\<lambda>n. map_error IxDatabase (xd_lock xd n)))) (\<lambda>got.
     if \<not> got then ret None else
     bindE (on_first (index_finalized_range_locked xd finalized)) (\<lambda>report.
     bindE (if speculative_indexing then reconcile_speculative xd finalized best else ret None) (\<lambda>spec.
     ret (Some \<lparr>pr_finalized = report, pr_speculative = spec\<rparr>))))))"

text \<open>\<open>run_pass\<close>: the freshness view, the failure count that paces the back-off, and the pass itself.\<close>

record freshness_snapshot =
  fr_last_finalized :: nat
  fr_synced_at :: instant
  fr_records :: nat
  fr_failures :: nat

record loop_state =
  lp_failures :: u32
  lp_freshness :: "freshness_snapshot option"

definition backoff :: "u32 \<Rightarrow> nat" where
  "backoff failures = min (2 ^ unat (min (saturating_sub failures 1) 16)) 60"

definition run_pass ::
  "ix_deps \<Rightarrow> bool \<Rightarrow> wake \<Rightarrow> loop_state \<Rightarrow> (ix_tables world \<times> spec_cache, index_error, loop_state) prog" where
  "run_pass xd speculative_indexing wk lp =
     bindE (attempt (pass xd (best_head wk) speculative_indexing)) (\<lambda>r.
     case r of
       Inr (Some report) \<Rightarrow>
         bindE (on_first (now_utc (xd_env xd))) (\<lambda>now.
         ret (lp\<lparr>lp_failures := 0, lp_freshness := Some \<lparr>fr_last_finalized = ir_to_block (pr_finalized report), fr_synced_at = now,
           fr_records = ir_accounts_upserted (pr_finalized report), fr_failures = ir_decode_failures (pr_finalized report)\<rparr>\<rparr>))
     | Inr None \<Rightarrow> ret (lp\<lparr>lp_failures := 0\<rparr>)
     | Inl _ \<Rightarrow> ret (lp\<lparr>lp_failures := saturating_add (lp_failures lp) 1\<rparr>))"

fun run_passes ::
  "ix_deps \<Rightarrow> bool \<Rightarrow> wake list \<Rightarrow> loop_state \<Rightarrow> (ix_tables world \<times> spec_cache, index_error, loop_state) prog" where
  "run_passes xd speculative_indexing [] lp = ret lp"
| "run_passes xd speculative_indexing (wk # wakes) lp =
     bindE (run_pass xd speculative_indexing wk lp) (run_passes xd speculative_indexing wakes)"

text \<open>Headers that are ready are drained into one wake; an error or the end of the stream asks to subscribe again.\<close>

fun drain_headers :: "nat \<Rightarrow> (string + nat) option list \<Rightarrow> wake" where
  "drain_headers head [] = WBlock head"
| "drain_headers head (Some (Inr number) # ready) = drain_headers (max head number) ready"
| "drain_headers head (Some (Inl _) # ready) = WResubscribe"
| "drain_headers head (None # ready) = WResubscribe"

fun wait_for_wake :: "(string + nat) option option \<Rightarrow> (string + nat) option list \<Rightarrow> wake" where
  "wait_for_wake None ready = WTimer"
| "wait_for_wake (Some (Some (Inr number))) ready = drain_headers number ready"
| "wait_for_wake (Some (Some (Inl _))) ready = WResubscribe"
| "wait_for_wake (Some None) ready = WResubscribe"

section \<open>Bootstrap\<close>

datatype bootstrap_trigger = FreshDatabase | ChainChanged

datatype checkpoint_state = Absent | Usable | Discarded

record bootstrap_report =
  br_indexed :: nat
  br_skipped :: nat
  br_snapshot_number :: nat
  br_trigger :: bootstrap_trigger

definition stamp_genesis :: "bytes \<Rightarrow> (ix_tables, unit) stmt" where
  "stamp_genesis g now t = ((), t\<lparr>ix_sync := map_option (\<lambda>s. s\<lparr>ss_genesis := Some g, ss_updated_at := now\<rparr>) (ix_sync t)\<rparr>)"

definition discard_projection :: "ix_deps \<Rightarrow> (ix_tables world, index_error, checkpoint_state) prog" where
  "discard_projection xd =
     transaction (xd_env xd) IxDatabase (\<lambda>now.
       bindE (ix_tx xd now (\<lambda>_ t. ((), t\<lparr>ix_sync := None\<rparr>))) (\<lambda>_.
       bindE (ix_tx xd now (\<lambda>_ t. (length (ix_rows t), t\<lparr>ix_rows := []\<rparr>))) (\<lambda>_.
       ret (Commit Discarded))))"

definition reconcile_chain_identity :: "ix_deps \<Rightarrow> (ix_tables world, index_error, checkpoint_state) prog" where
  "reconcile_chain_identity xd =
     bindE (ix_sql xd (\<lambda>_ t. (map_option ss_genesis (ix_sync t), t))) (\<lambda>row.
     case row of
       None \<Rightarrow> ret Absent
     | Some None \<Rightarrow> bindE (ix_sql xd (stamp_genesis (xc_genesis (xd_chain xd)))) (\<lambda>_. ret Usable)
     | Some (Some stored) \<Rightarrow>
         if stored = xc_genesis (xd_chain xd) then ret Usable
         else discard_projection xd)"

fun upsert_all :: "ix_deps \<Rightarrow> instant \<Rightarrow> nat \<Rightarrow> assigned_username list \<Rightarrow> (ix_tables world, index_error, unit) prog" where
  "upsert_all xd now number [] = ret ()"
| "upsert_all xd now number (u # us) = bindE (ix_tx xd now (upsert u number)) (\<lambda>_. upsert_all xd now number us)"

definition upsert_batch :: "ix_deps \<Rightarrow> assigned_username list \<Rightarrow> nat \<Rightarrow> (ix_tables world, index_error, unit) prog" where
  "upsert_batch xd us number =
     transaction (xd_env xd) IxDatabase (\<lambda>now. bindE (upsert_all xd now number us) (\<lambda>_. ret (Commit ())))"

record scan_state =
  sc_batch :: "assigned_username list"
  sc_indexed :: nat
  sc_skipped :: nat
  sc_iterator_errors :: nat

fun scan_step :: "ix_deps \<Rightarrow> bytes \<Rightarrow> u16 \<Rightarrow> scan_entry \<Rightarrow> scan_state \<Rightarrow> scan_state" where
  "scan_step xd hash prefix IteratorError sc = sc\<lparr>sc_skipped := sc_skipped sc + 1, sc_iterator_errors := sc_iterator_errors sc + 1\<rparr>"
| "scan_step xd hash prefix KeyError sc = sc\<lparr>sc_skipped := sc_skipped sc + 1\<rparr>"
| "scan_step xd hash prefix (ValueError a) sc = sc\<lparr>sc_skipped := sc_skipped sc + 1\<rparr>"
| "scan_step xd hash prefix (Entry a c) sc =
     (case decode_consumer (xd_ss58 xd) a c prefix hash (xc_number (xd_chain xd) hash) of
        Inr u \<Rightarrow> sc\<lparr>sc_batch := sc_batch sc @ [u]\<rparr>
      | Inl _ \<Rightarrow> sc\<lparr>sc_skipped := sc_skipped sc + 1\<rparr>)"

text \<open>Entries that are skipped with \<open>continue\<close> pass over the check whether the page is full.\<close>

fun scan_entries ::
  "ix_deps \<Rightarrow> nat \<Rightarrow> bytes \<Rightarrow> nat \<Rightarrow> u16 \<Rightarrow> scan_entry list \<Rightarrow> scan_state \<Rightarrow> (ix_tables world, index_error, scan_state) prog" where
  "scan_entries xd page_size hash number prefix [] sc = ret sc"
| "scan_entries xd page_size hash number prefix (e # es) sc =
     (let sc' = scan_step xd hash prefix e sc in
      if (case e of Entry _ _ \<Rightarrow> length (sc_batch sc') = page_size | _ \<Rightarrow> False)
      then bindE (upsert_batch xd (sc_batch sc') number) (\<lambda>_.
           scan_entries xd page_size hash number prefix es (sc'\<lparr>sc_indexed := sc_indexed sc' + length (sc_batch sc'), sc_batch := []\<rparr>))
      else scan_entries xd page_size hash number prefix es sc')"

definition write_checkpoint :: "nat \<Rightarrow> bytes \<Rightarrow> bytes \<Rightarrow> nat \<Rightarrow> nat \<Rightarrow> (ix_tables, unit) stmt" where
  "write_checkpoint number hash genesis indexed skipped now t =
     ((), t\<lparr>ix_sync := Some \<lparr>ss_number = number, ss_hash = hash, ss_genesis = Some genesis, ss_synced_at = now, ss_records = indexed,
        ss_failures = skipped, ss_updated_at = now\<rparr>\<rparr>)"

definition delete_other_snapshots :: "bytes \<Rightarrow> (ix_tables, unit) stmt" where
  "delete_other_snapshots hash now t = ((), t\<lparr>ix_rows := filter (\<lambda>(a, r). ur_snapshot_hash r = hash) (ix_rows t)\<rparr>)"

definition flush_batch :: "ix_deps \<Rightarrow> nat \<Rightarrow> scan_state \<Rightarrow> (ix_tables world, index_error, scan_state) prog" where
  "flush_batch xd number sc =
     (if sc_batch sc = [] then ret sc
      else bindE (upsert_batch xd (sc_batch sc) number) (\<lambda>_. ret (sc\<lparr>sc_indexed := sc_indexed sc + length (sc_batch sc)\<rparr>)))"

definition finish_bootstrap ::
  "ix_deps \<Rightarrow> bytes \<Rightarrow> nat \<Rightarrow> bootstrap_trigger \<Rightarrow> scan_state \<Rightarrow> (ix_tables world, index_error, bootstrap_report) prog" where
  "finish_bootstrap xd hash number trigger sc =
     (if sc_iterator_errors sc \<noteq> 0 then throw (IncompleteScan (sc_iterator_errors sc)) else
      bindE (ix_sql xd (delete_other_snapshots hash)) (\<lambda>_.
      bindE (ix_sql xd (write_checkpoint number hash (xc_genesis (xd_chain xd)) (sc_indexed sc) (sc_skipped sc))) (\<lambda>_.
      ret \<lparr>br_indexed = sc_indexed sc, br_skipped = sc_skipped sc, br_snapshot_number = number, br_trigger = trigger\<rparr>)))"

definition bootstrap_locked :: "ix_deps \<Rightarrow> nat \<Rightarrow> bootstrap_trigger \<Rightarrow> (ix_tables world, index_error, bootstrap_report) prog" where
  "bootstrap_locked xd page_size trigger =
     bindE (remote (\<lambda>n. map_error IxChain (xc_current (xd_chain xd) n))) (\<lambda>hash.
     bindE (lift_result (number_for_db (xc_number (xd_chain xd) hash))) (\<lambda>number.
     bindE (lift_result (read_prefix xd hash)) (\<lambda>prefix.
     bindE (remote (\<lambda>n. map_error IxStorage (xc_scan (xd_chain xd) n hash))) (\<lambda>entries.
     bindE (scan_entries xd page_size hash number prefix entries
        \<lparr>sc_batch = [], sc_indexed = 0, sc_skipped = 0, sc_iterator_errors = 0\<rparr>) (\<lambda>sc.
     bindE (flush_batch xd number sc) (finish_bootstrap xd hash number trigger))))))"

definition ensure_seeded :: "ix_deps \<Rightarrow> nat \<Rightarrow> (ix_tables world, index_error, bootstrap_report option) prog" where
  "ensure_seeded xd page_size =
     bindE (ix_sql xd (\<lambda>_ t. ((), t))) (\<lambda>_.
     bindE (reconcile_chain_identity xd) (\<lambda>st.
     case st of
       Usable \<Rightarrow> ret None
     | Absent \<Rightarrow> bindE (bootstrap_locked xd page_size FreshDatabase) (\<lambda>r. ret (Some r))
     | Discarded \<Rightarrow> bindE (bootstrap_locked xd page_size ChainChanged) (\<lambda>r. ret (Some r))))"

end
