(* ===== verification/IndexerSync.thy ===== *)
theory IndexerSync
  imports Indexer
begin

text \<open>
  The projection of the username indexer against the chain: what an honest node promises, what the
  confirmed rows of the table stand for, and that the bootstrap, the finalized pass and the speculative
  pass keep them exactly the consumers of the chain at the checkpoint.
\<close>

section \<open>The chain the projection follows\<close>

record ix_truth =
  tr_canon :: "nat \<Rightarrow> bytes"
  tr_consumers :: "nat \<Rightarrow> account \<Rightarrow> consumer option"
  tr_prefix :: u16

text \<open>An honest node: the block it calls finalized is on the canonical chain, and so is every block at or below it; what it reads from
  a canonical block is that block's state; a consumer entry changes only in a block with an event that names
  its account; a scan lists entries of the state, and all of them unless the iterator failed.\<close>

definition honest :: "ix_chain \<Rightarrow> ix_truth \<Rightarrow> bool" where
  "honest xc tr \<longleftrightarrow>
     (\<forall>k. xc_number xc (tr_canon tr k) = k) \<and>
     (\<forall>n h. xc_current xc n = Inr h \<longrightarrow> h = tr_canon tr (xc_number xc h)) \<and>
     (\<forall>n m h k h'. xc_current xc n = Inr h \<longrightarrow> k \<le> xc_number xc h \<longrightarrow> xc_block xc m k = Inr h' \<longrightarrow> h' = tr_canon tr k) \<and>
     (\<forall>n k evs as a. xc_events xc n (tr_canon tr (Suc k)) = Inr evs \<longrightarrow> accounts_from_events evs = Inr as \<longrightarrow>
        tr_consumers tr (Suc k) a \<noteq> tr_consumers tr k a \<longrightarrow> a \<in> set as) \<and>
     (\<forall>n k a c. xc_consumer xc n (tr_canon tr k) a = Inr c \<longrightarrow> c = tr_consumers tr k a) \<and>
     (\<forall>k p. xc_prefix xc (tr_canon tr k) = Inr p \<longrightarrow> p = tr_prefix tr) \<and>
     (\<forall>n k es a c. xc_scan xc n (tr_canon tr k) = Inr es \<longrightarrow>
        (Entry a c \<in> set es \<longrightarrow> tr_consumers tr k a = Some c) \<and>
        (IteratorError \<notin> set es \<longrightarrow> tr_consumers tr k a = Some c \<longrightarrow> Entry a c \<in> set es))"

lemmas honest_number = honest_def [THEN iffD1, THEN conjunct1, rule_format]
lemmas honest_current = honest_def [THEN iffD1, THEN conjunct2, THEN conjunct1, rule_format]
lemmas honest_block = honest_def [THEN iffD1, THEN conjunct2, THEN conjunct2, THEN conjunct1, rule_format]
lemmas honest_events = honest_def [THEN iffD1, THEN conjunct2, THEN conjunct2, THEN conjunct2, THEN conjunct1, rule_format]
lemmas honest_consumer = honest_def [THEN iffD1, THEN conjunct2, THEN conjunct2, THEN conjunct2, THEN conjunct2, THEN conjunct1, rule_format]
lemmas honest_prefix = honest_def [THEN iffD1, THEN conjunct2, THEN conjunct2, THEN conjunct2, THEN conjunct2, THEN conjunct2, THEN conjunct1, rule_format]
lemmas honest_scan = honest_def [THEN iffD1, THEN conjunct2, THEN conjunct2, THEN conjunct2, THEN conjunct2, THEN conjunct2, THEN conjunct2, rule_format, THEN conjunct1, rule_format]
lemmas honest_scan_all = honest_def [THEN iffD1, THEN conjunct2, THEN conjunct2, THEN conjunct2, THEN conjunct2, THEN conjunct2, THEN conjunct2, rule_format, THEN conjunct2, rule_format]

definition decoded_content :: "ss58_lib \<Rightarrow> u16 \<Rightarrow> account \<Rightarrow> consumer \<Rightarrow> content option" where
  "decoded_content sx prefix a c =
     (case decode_consumer sx a c prefix [] 0 of Inr u \<Rightarrow> Some (user_content u) | Inl _ \<Rightarrow> None)"

definition chain_content :: "ix_deps \<Rightarrow> ix_truth \<Rightarrow> nat \<Rightarrow> account \<Rightarrow> content option" where
  "chain_content xd tr k a = Option.bind (tr_consumers tr k a) (decoded_content (xd_ss58 xd) (tr_prefix tr) a)"

definition confirmed :: "ix_tables \<Rightarrow> account \<Rightarrow> content option" where
  "confirmed t a = (case row_at t a of Some r \<Rightarrow> if ur_speculative r = None then Some (row_content r) else None | None \<Rightarrow> None)"

definition rows_wf :: "ix_tables \<Rightarrow> bool" where
  "rows_wf t \<longleftrightarrow> distinct (map fst (ix_rows t))"

text \<open>The projection stands at block \<open>k\<close>: its checkpoint says so, and its confirmed rows are that block's usernames.\<close>

definition projects :: "ix_deps \<Rightarrow> ix_truth \<Rightarrow> nat \<Rightarrow> ix_tables \<Rightarrow> bool" where
  "projects xd tr k t \<longleftrightarrow>
     rows_wf t \<and> (\<exists>s. ix_sync t = Some s \<and> ss_number s = k) \<and> confirmed t = chain_content xd tr k"

definition alone :: "'tb env \<Rightarrow> bool" where
  "alone E \<longleftrightarrow> (\<forall>n t. e_others E n t = t)"

section \<open>Statements\<close>

lemma decode_consumer_Inr:
  assumes "decode_consumer sx a c prefix hash number = Inr u"
  shows "decoded_content sx prefix a c = Some (user_content u)" "au_account u = a" "au_snapshot_hash u = hash"
  using assms
  by (auto simp: decode_consumer_def decoded_content_def user_content_def and_then_def ok_or_def Let_def
      split: if_splits prod.splits sum.splits option.splits)

lemma decode_consumer_Inl:
  assumes "decode_consumer sx a c prefix hash number = Inl e"
  shows "decoded_content sx prefix a c = None"
  using assms
  by (auto simp: decode_consumer_def decoded_content_def and_then_def ok_or_def Let_def
      split: if_splits prod.splits sum.splits option.splits)

lemma row_content_row_of [simp]: "row_content (row_of u number spec created now) = user_content u"
  by (simp add: row_content_def row_of_def user_content_def)

lemma row_of_fields [simp]:
  "ur_speculative (row_of u number spec created now) = spec" "ur_snapshot_hash (row_of u number spec created now) = au_snapshot_hash u"
  by (simp_all add: row_of_def)

lemma put_drop_row [simp]:
  "row_at (put_row a r t) = (row_at t)(a \<mapsto> r)" "row_at (drop_row a t) = (row_at t)(a := None)"
  "ix_sync (put_row a r t) = ix_sync t" "ix_sync (drop_row a t) = ix_sync t"
  "rows_wf t \<Longrightarrow> rows_wf (put_row a r t)" "rows_wf t \<Longrightarrow> rows_wf (drop_row a t)"
  by (auto simp: put_row_def drop_row_def rows_wf_def update_conv' delete_conv' distinct_update distinct_delete fun_eq_iff)

lemma confirmed_put_row: "confirmed (put_row a r t) = (confirmed t)(a := if ur_speculative r = None then Some (row_content r) else None)"
  by (rule ext) (simp add: confirmed_def)

lemma confirmed_drop_row: "confirmed (drop_row a t) = (confirmed t)(a := None)"
  by (rule ext) (simp add: confirmed_def)

lemma upsert_effect:
  "confirmed (snd (upsert u number now t)) = (confirmed t)(au_account u \<mapsto> user_content u)"
  "ix_sync (snd (upsert u number now t)) = ix_sync t" "rows_wf t \<Longrightarrow> rows_wf (snd (upsert u number now t))"
  by (simp_all add: upsert_def confirmed_put_row)

lemma delete_effect:
  "confirmed (snd (delete_account a now t)) = (confirmed t)(a := None)"
  "ix_sync (snd (delete_account a now t)) = ix_sync t" "rows_wf t \<Longrightarrow> rows_wf (snd (delete_account a now t))"
  by (simp_all add: delete_account_def confirmed_drop_row)

text \<open>Speculation adds rows of its own and takes back only those.\<close>

lemma speculative_effect:
  "confirmed (snd (upsert_speculative u best now t)) = confirmed t" "confirmed (snd (delete_if_speculative a now t)) = confirmed t"
  by (rule ext, auto simp: upsert_speculative_def delete_if_speculative_def confirmed_put_row confirmed_drop_row confirmed_def
      split: option.splits)+

lemma speculative_keeps:
  "ix_sync (snd (upsert_speculative u best now t)) = ix_sync t" "ix_sync (snd (delete_if_speculative a now t)) = ix_sync t"
  "rows_wf t \<Longrightarrow> rows_wf (snd (upsert_speculative u best now t))" "rows_wf t \<Longrightarrow> rows_wf (snd (delete_if_speculative a now t))"
  by (auto simp: upsert_speculative_def delete_if_speculative_def split: option.splits)

lemma projects_speculative:
  "projects xd tr k t \<Longrightarrow> projects xd tr k (snd (upsert_speculative u best now t))"
  "projects xd tr k t \<Longrightarrow> projects xd tr k (snd (delete_if_speculative a now t))"
  by (simp_all add: projects_def speculative_effect speculative_keeps)

section \<open>The finalized pass\<close>

abbreviation same_db :: "'tb \<Rightarrow> 'tb world \<Rightarrow> bool" where
  "same_db t \<equiv> \<lambda>w. w_db w = t"

lemma remote_then:
  assumes "\<And>a n. f n = Inr a \<Longrightarrow> valid (on_db P) (g a) Q (\<lambda>_. on_db P)"
  shows "valid (on_db P) (bindE (remote f) g) Q (\<lambda>_. on_db P)"
  using assms by (fastforce simp: valid_def bindE_def remote_def split: sum.splits prod.splits)

lemma lift_then:
  assumes "\<And>a. r = Inr a \<Longrightarrow> valid (on_db P) (g a) Q (\<lambda>_. on_db P)"
  shows "valid (on_db P) (bindE (lift_result r) g) Q (\<lambda>_. on_db P)"
  using assms by (cases r) (auto simp: valid_def bindE_def lift_result_def ret_def throw_def)

lemma tx_then:
  assumes "alone E"
    and "\<And>now w w1 end. w_db w = t \<Longrightarrow> body now w = (Inr end, w1) \<Longrightarrow> \<exists>a. end = Commit a \<and> Q a (w_db w1)"
  shows "valid (same_db t) (transaction E err body) (\<lambda>a w. Q a (w_db w)) (\<lambda>_. same_db t)"
proof (rule validI)
  fix w a w'
  assume w: "w_db w = t" and run: "transaction E err body w = (Inr a, w')"
  from run show "Q a (w_db w')"
  proof (cases rule: transaction_cases)
    case (rolled_back a w1)
    with assms(2) [OF _ rolled_back(1)] w assms(1) show ?thesis by (auto simp: alone_def)
  next
    case (committed a w1)
    with assms(2) [OF _ committed(1)] w assms(1) show ?thesis by (auto simp: alone_def)
  qed simp
next
  fix w e w'
  assume w: "w_db w = t" and run: "transaction E err body w = (Inl e, w')"
  from run show "w_db w' = t" by (cases rule: transaction_cases) (use w assms(1) in \<open>auto simp: alone_def\<close>)
qed

lemma valid_ret_then: "valid P m (\<lambda>a. Q (f a)) X \<Longrightarrow> valid P (bindE m (\<lambda>a. ret (f a))) Q X"
  by (rule valid_bindE) (auto intro: valid_ret)

lemma ix_tx_Inr: "tx_sql E now st w = (Inr a, w') \<Longrightarrow> w_db w' = snd (st now (w_db w))"
  by (auto simp: tx_sql_Inr_iff)

lemma index_accounts_run:
  assumes "honest (xd_chain xd) tr" "index_accounts xd now (tr_canon tr k) number (tr_prefix tr) as bc w = (Inr bc', w')"
  shows "ix_sync (w_db w') = ix_sync (w_db w) \<and> (rows_wf (w_db w) \<longrightarrow> rows_wf (w_db w')) \<and>
    confirmed (w_db w') = (\<lambda>a. if a \<in> set as then chain_content xd tr k a else confirmed (w_db w) a)"
  using assms(2)
proof (induction as arbitrary: bc w)
  case (Cons a as)
  from Cons.prems obtain found bc1 w1 where
    found: "xc_consumer (xd_chain xd) (w_step w) (tr_canon tr k) a = Inr found"
    and step: "(case found of
        Some c \<Rightarrow>
          (case decode_consumer (xd_ss58 xd) a c (tr_prefix tr) (tr_canon tr k) (xc_number (xd_chain xd) (tr_canon tr k)) of
             Inr u \<Rightarrow> bindE (ix_tx xd now (upsert u number)) (\<lambda>_. ret (bc\<lparr>bc_upserts := bc_upserts bc + 1\<rparr>))
           | Inl _ \<Rightarrow> bindE (ix_tx xd now (delete_account a)) (\<lambda>_. ret (bc\<lparr>bc_failures := bc_failures bc + 1\<rparr>)))
      | None \<Rightarrow> bindE (ix_tx xd now (delete_account a)) (\<lambda>_. ret (bc\<lparr>bc_deletes := bc_deletes bc + 1\<rparr>)))
      (w\<lparr>w_step := Suc (w_step w)\<rparr>) = (Inr bc1, w1)"
    and rest: "index_accounts xd now (tr_canon tr k) number (tr_prefix tr) as bc1 w1 = (Inr bc', w')"
    by (auto simp: inr_iffs)
  have truth: "tr_consumers tr k a = found" using honest_consumer [OF assms(1)] found by simp
  have "ix_sync (w_db w1) = ix_sync (w_db w) \<and> (rows_wf (w_db w) \<longrightarrow> rows_wf (w_db w1)) \<and>
      confirmed (w_db w1) = (confirmed (w_db w))(a := chain_content xd tr k a)"
  proof (cases found)
    case None
    with step truth show ?thesis by (auto simp: inr_iffs delete_effect chain_content_def dest!: ix_tx_Inr)
  next
    case (Some c)
    show ?thesis
    proof (cases "decode_consumer (xd_ss58 xd) a c (tr_prefix tr) (tr_canon tr k) (xc_number (xd_chain xd) (tr_canon tr k))")
      case (Inl e)
      with step truth Some decode_consumer_Inl [OF Inl] show ?thesis
        by (auto simp: inr_iffs delete_effect chain_content_def dest!: ix_tx_Inr)
    next
      case (Inr u)
      with step truth Some decode_consumer_Inr [OF Inr] show ?thesis
        by (auto simp: inr_iffs upsert_effect chain_content_def dest!: ix_tx_Inr)
    qed
  qed
  with Cons.IH [OF rest] show ?case by (auto simp: fun_eq_iff)
qed (auto simp: inr_iffs)

lemma advance_effect:
  "confirmed (snd (advance_checkpoint number hash u f now t)) = confirmed t" "rows_wf (snd (advance_checkpoint number hash u f now t)) = rows_wf t"
  "ix_sync t = Some s \<Longrightarrow> \<exists>s'. ix_sync (snd (advance_checkpoint number hash u f now t)) = Some s' \<and> ss_number s' = number"
  by (simp_all add: advance_checkpoint_def confirmed_def rows_wf_def fun_eq_iff)

lemma read_prefix_Inr: "honest (xd_chain xd) tr \<Longrightarrow> read_prefix xd (tr_canon tr k) = Inr p \<Longrightarrow> p = tr_prefix tr"
  by (auto simp: read_prefix_def validate_prefix_def dest: honest_prefix split: if_splits)

text \<open>One block: the projection moves to it, or nothing changes.\<close>

lemma commit_block_valid:
  assumes "honest (xd_chain xd) tr" "alone (xd_env xd)" "projects xd tr k t"
    and "\<And>a. tr_consumers tr (Suc k) a \<noteq> tr_consumers tr k a \<Longrightarrow> a \<in> set affected"
  shows "valid (same_db t) (commit_block xd (tr_canon tr (Suc k)) (Suc k) affected report)
    (\<lambda>_. on_db (projects xd tr (Suc k))) (\<lambda>_. same_db t)"
proof -
  have other: "a \<notin> set affected \<Longrightarrow> chain_content xd tr (Suc k) a = chain_content xd tr k a" for a
    using assms(4) [of a] unfolding chain_content_def by metis
  from assms(3) obtain s where t: "ix_sync t = Some s" "rows_wf t" "confirmed t = chain_content xd tr k" by (auto simp: projects_def)
  show ?thesis unfolding commit_block_def
    apply (intro keeps_if lift_then valid_ret_then)
    subgoal
      by (rule tx_then [OF assms(2)])
         (use t other advance_effect(3) [OF t(1)] in \<open>auto simp: inr_iffs projects_def advance_effect fun_eq_iff dest!: ix_tx_Inr\<close>)
    subgoal
      by (rule tx_then [OF assms(2)])
         (use t other advance_effect(3) in \<open>auto simp: inr_iffs projects_def advance_effect fun_eq_iff
            dest!: ix_tx_Inr read_prefix_Inr [OF assms(1)] index_accounts_run [OF assms(1)]\<close>)
    done
qed

lemma index_block_valid:
  assumes "honest (xd_chain xd) tr" "alone (xd_env xd)" "projects xd tr k t"
    and "xc_current (xd_chain xd) j = Inr h" "Suc k \<le> xc_number (xd_chain xd) h"
  shows "valid (same_db t) (index_block xd (Suc k) report) (\<lambda>_. on_db (projects xd tr (Suc k))) (\<lambda>_. same_db t)"
  unfolding index_block_def
proof (intro remote_then lift_then)
  fix hash n number evs m accounts
  assume hash: "map_error IxChain (xc_block (xd_chain xd) n (Suc k)) = Inr hash"
    and number: "number_for_db (xc_number (xd_chain xd) hash) = Inr number"
    and evs: "map_error IxChain (xc_events (xd_chain xd) m hash) = Inr evs" "accounts_from_events evs = Inr accounts"
  have c: "hash = tr_canon tr (Suc k)" using honest_block [OF assms(1,4,5)] hash by simp
  then have "number = Suc k" using number honest_number [OF assms(1)] by (simp add: number_for_db_def split: if_splits)
  moreover have "a \<in> set (dedupe_accounts accounts)" if "tr_consumers tr (Suc k) a \<noteq> tr_consumers tr k a" for a
  proof -
    have "a \<in> set accounts" using honest_events [OF assms(1)] that evs c by simp
    then show ?thesis by (simp add: dedupe_accounts_def)
  qed
  ultimately show "valid (same_db t) (commit_block xd hash number (dedupe_accounts accounts) report)
      (\<lambda>_. on_db (projects xd tr (Suc k))) (\<lambda>_. same_db t)"
    unfolding c by (blast intro: commit_block_valid [OF assms(1-3)])
qed

text \<open>Any number of blocks: on success the projection stands at the last, and wherever it stops it stands at some block.\<close>

lemma index_blocks_valid:
  assumes "honest (xd_chain xd) tr" "alone (xd_env xd)" "xc_current (xd_chain xd) j = Inr h" "k + m \<le> xc_number (xd_chain xd) h"
  shows "valid (on_db (projects xd tr k)) (index_blocks xd [k + 1..<k + m + 1] report)
    (\<lambda>_. on_db (projects xd tr (k + m))) (\<lambda>_. on_db (\<lambda>t. \<exists>k'. projects xd tr k' t))"
  using assms(4)
proof (induction m arbitrary: k report)
  case 0
  then show ?case by (auto intro: valid_ret)
next
  case (Suc m)
  have numbers: "[k + 1..<k + Suc m + 1] = Suc k # [Suc k + 1..<Suc k + m + 1]" by (simp add: upt_conv_Cons)
  have one: "valid (on_db (projects xd tr k)) (index_block xd (Suc k) r) (\<lambda>_. on_db (projects xd tr (Suc k)))
      (\<lambda>_. on_db (\<lambda>t. \<exists>k'. projects xd tr k' t))" for r
  proof (rule validI)
    fix w a w'
    assume "projects xd tr k (w_db w)" "index_block xd (Suc k) r w = (Inr a, w')"
    with index_block_valid [OF assms(1,2) _ assms(3)] Suc.prems show "projects xd tr (Suc k) (w_db w')"
      by (fastforce dest: validD_Inr)
  next
    fix w e w'
    assume "projects xd tr k (w_db w)" "index_block xd (Suc k) r w = (Inl e, w')"
    with index_block_valid [OF assms(1,2) _ assms(3)] Suc.prems show "\<exists>k'. projects xd tr k' (w_db w')"
      by (fastforce dest: validD_Inl)
  qed
  show ?case unfolding numbers index_blocks.simps
    using Suc.IH [of "Suc k"] Suc.prems by (intro valid_bindE [OF one]) simp
qed

section \<open>A pass\<close>

lemma alone_stable: "alone E \<Longrightarrow> stable E I"
  by (simp add: alone_def stable_def)

definition standing :: "ix_deps \<Rightarrow> ix_truth \<Rightarrow> ix_tables \<Rightarrow> bool" where
  "standing xd tr t \<longleftrightarrow> (\<exists>k. projects xd tr k t)"

lemma read_checkpoint_run:
  assumes "alone (xd_env xd)" "read_checkpoint xd w = (r, w')"
  shows "w_db w' = w_db w \<and> (\<forall>c. r = Inr c \<longrightarrow> c = map_option ss_number (ix_sync (w_db w)))"
  using assms by (auto simp: read_checkpoint_def map_err_def sql_def alone_def Let_def split: option.splits)

lemma finalized_range_run:
  assumes "honest (xd_chain xd) tr" "alone (xd_env xd)" "xc_current (xd_chain xd) j = Inr h"
    "index_finalized_range_locked xd (xc_number (xd_chain xd) h) w = (r, w')" "projects xd tr k (w_db w)"
  shows "standing xd tr (w_db w') \<and>
    (\<forall>rep. r = Inr rep \<longrightarrow> projects xd tr (max k (xc_number (xd_chain xd) h)) (w_db w') \<and>
       ir_to_block rep = max k (xc_number (xd_chain xd) h))"
proof -
  let ?head = "xc_number (xd_chain xd) h"
  obtain c w1 where c: "read_checkpoint xd w = (c, w1)" by (metis surj_pair)
  note read = read_checkpoint_run [OF assms(2) c]
  show ?thesis
  proof (cases c)
    case (Inl e)
    then show ?thesis using assms(4,5) c read by (auto simp: index_finalized_range_locked_def bindE_def standing_def)
  next
    case (Inr found)
    then have run: "index_from_checkpoint xd k ?head w1 = (r, w')"
      using assms(4,5) c read by (auto simp: index_finalized_range_locked_def bindE_def projects_def)
    show ?thesis
    proof (cases "?head \<le> k")
      case True
      then show ?thesis using run read assms(5)
        by (auto simp: index_from_checkpoint_def ret_def standing_def report_idle_def max_def)
    next
      case False
      let ?r = "(report_idle 0)\<lparr>ir_from_block := k + 1, ir_to_block := ?head\<rparr>"
      from False have m: "k + (?head - k) = ?head" by simp
      have blocks: "index_blocks xd [k + 1..<?head + 1] ?r w1 = (r, w')"
        using run False by (simp add: index_from_checkpoint_def)
      have w1: "projects xd tr k (w_db w1)" using read assms(5) by simp
      note v = index_blocks_valid [OF assms(1-3), of k "?head - k" ?r, unfolded m]
      have "ir_to_block rep = ir_to_block rp" if "index_blocks xd ns rp s = (Inr rep, s')" for ns rp s s' rep
        using that by (induction ns arbitrary: rp s)
          (auto simp: inr_iffs index_block_def commit_block_def split: if_splits)
      then show ?thesis using v w1 blocks False
        by (cases r) (auto simp: standing_def max_def dest: validD_Inr validD_Inl)
    qed
  qed
qed

lemma reconcile_accounts_keeps: "keeps (on_db (projects xd tr k)) (reconcile_accounts xd now hash number prefix as sr)"
proof (induction as arbitrary: sr)
  case (Cons a as)
  have "keeps (on_db (projects xd tr k)) (tx_sql (xd_env xd) now (upsert_speculative u number))"
    "keeps (on_db (projects xd tr k)) (tx_sql (xd_env xd) now (delete_if_speculative a))" for u
    by (auto intro!: keeps_tx_sql simp: projects_speculative)
  with Cons.IH show ?case by (auto simp: Let_def intro!: prog_intro keeps_bindE split: option.splits sum.splits)
qed (simp add: valid_ret)

lemma keeps_on_world: "keeps (on_db I) m \<Longrightarrow> keeps (\<lambda>s. I (w_db (fst s))) (on_first m)"
  by (rule keeps_on_first)

lemma modify_cache_keeps: "keeps (\<lambda>s. I (w_db (fst s))) (modify (\<lambda>(w, m). (w, f m)))"
  by (auto simp: valid_def modify_def)

lemma scan_blocks_keeps: "keeps (\<lambda>s. I (w_db (fst s))) (scan_blocks xd ns affected)"
  by (induction ns arbitrary: affected)
     (auto intro!: keeps_bindE keeps_on_world keeps_remote keeps_gets keeps_lift_result modify_cache_keeps valid_ret split: option.splits)

lemma speculative_window_keeps:
  assumes "alone (xd_env xd)"
  shows "keeps (\<lambda>s. projects xd tr k (w_db (fst s))) (index_speculative_window xd finalized best)"
proof -
  note st = alone_stable [OF assms]
  have "keeps (on_db (projects xd tr k)) (reconcile_window xd finalized best affected sr)" for affected sr
    unfolding reconcile_window_def
    by (intro keeps_bindE keeps_remote keeps_lift_result keeps_transaction st reconcile_accounts_keeps valid_ret)
  moreover have "keeps (on_db (projects xd tr k)) (ix_sql xd speculative_accounts)"
    "keeps (on_db (projects xd tr k)) (ix_sql xd (finalized_accounts as))" for as
    by (auto intro!: valid_map_err keeps_sql st simp: speculative_accounts_def finalized_accounts_def)
  ultimately show ?thesis unfolding index_speculative_window_def Let_def
    by (intro keeps_bindE keeps_if keeps_on_world scan_blocks_keeps modify_cache_keeps valid_ret)
qed

lemma reconcile_speculative_keeps:
  assumes "alone (xd_env xd)"
  shows "keeps (\<lambda>s. projects xd tr k (w_db (fst s))) (reconcile_speculative xd finalized best)"
  unfolding reconcile_speculative_def
  by (intro keeps_bindE valid_case_option keeps_attempt keeps_on_world keeps_remote speculative_window_keeps [OF assms] valid_ret)

text \<open>A pass that reports success leaves the projection at the finalized head it read, if that is ahead; a pass that fails leaves it
  at some block; and speculation has no part in either.\<close>

definition caught_up :: "ix_deps \<Rightarrow> ix_truth \<Rightarrow> nat \<Rightarrow> pass_report option \<Rightarrow> ix_tables \<Rightarrow> bool" where
  "caught_up xd tr k r t \<longleftrightarrow>
     (case r of
        None \<Rightarrow> projects xd tr k t
      | Some rep \<Rightarrow> projects xd tr (ir_to_block (pr_finalized rep)) t \<and>
          (\<exists>n h. xc_current (xd_chain xd) n = Inr h \<and> ir_to_block (pr_finalized rep) = max k (xc_number (xd_chain xd) h)))"

lemma pass_valid:
  assumes "honest (xd_chain xd) tr" "alone (xd_env xd)"
  shows "valid (\<lambda>s. projects xd tr k (w_db (fst s))) (pass xd best spec) (\<lambda>r s. caught_up xd tr k r (w_db (fst s)))
    (\<lambda>_ s. standing xd tr (w_db (fst s)))"
proof -
  let ?P = "\<lambda>s :: ix_tables world \<times> spec_cache. projects xd tr k (w_db (fst s))"
  let ?X = "\<lambda>_ s :: ix_tables world \<times> spec_cache. standing xd tr (w_db (fst s))"
  have stands: "?P s \<Longrightarrow> standing xd tr (w_db (fst s))" for s by (auto simp: standing_def)
  have head: "valid ?P (on_first (finalized_head_number xd))
      (\<lambda>f s. ?P s \<and> (\<exists>n h. xc_current (xd_chain xd) n = Inr h \<and> f = xc_number (xd_chain xd) h)) ?X"
    by (rule valid_error [OF _ stands], rule validI)
       (auto simp: finalized_head_number_def on_first_def remote_def split: prod.splits)
  have read: "valid ?P (attempt (on_first (read_checkpoint xd))) (\<lambda>_. ?P) ?X"
    by (rule valid_error [OF keeps_attempt [OF keeps_on_world] stands], unfold read_checkpoint_def)
       (auto intro!: valid_map_err keeps_sql alone_stable [OF assms(2)])
  have lock: "valid ?P (on_first (remote (\<lambda>n. map_error IxDatabase (xd_lock xd n)))) (\<lambda>_. ?P) ?X"
    by (rule valid_error [OF keeps_on_world [OF keeps_remote] stands])
  have range: "valid ?P (on_first (index_finalized_range_locked xd (xc_number (xd_chain xd) h)))
      (\<lambda>rep s. projects xd tr (max k (xc_number (xd_chain xd) h)) (w_db (fst s)) \<and> ir_to_block rep = max k (xc_number (xd_chain xd) h)) ?X"
    if "xc_current (xd_chain xd) n = Inr h" for n h
    by (rule validI; (auto simp: on_first_def split: prod.splits; fail)?)
       (auto simp: on_first_def split: prod.splits dest: finalized_range_run [OF assms that])
  have specu: "valid (\<lambda>s. projects xd tr j (w_db (fst s)))
      (bindE (if spec then reconcile_speculative xd f best else ret None) (\<lambda>sp. ret (Some \<lparr>pr_finalized = rep, pr_speculative = sp\<rparr>)))
      (\<lambda>r s. caught_up xd tr k r (w_db (fst s))) ?X"
    if "ir_to_block rep = j" "xc_current (xd_chain xd) n = Inr h" "j = max k (xc_number (xd_chain xd) h)" for f rep j n h
  proof (rule valid_bindE)
    show "valid (\<lambda>s. projects xd tr j (w_db (fst s))) (if spec then reconcile_speculative xd f best else ret None)
        (\<lambda>_ s. projects xd tr j (w_db (fst s))) ?X"
      by (rule valid_error, intro keeps_if reconcile_speculative_keeps [OF assms(2)] valid_ret) (auto simp: standing_def)
    show "valid (\<lambda>s. projects xd tr j (w_db (fst s))) (ret (Some \<lparr>pr_finalized = rep, pr_speculative = sp\<rparr>))
        (\<lambda>r s. caught_up xd tr k r (w_db (fst s))) ?X" for sp
      by (rule valid_ret) (use that in \<open>auto simp: caught_up_def\<close>)
  qed
  show ?thesis unfolding pass_def
    apply (rule valid_bindE [OF head], rule valid_conj_pure, elim exE conjE, hypsubst)
    apply (rule valid_bindE [OF read], rule valid_bindE [OF lock], rule keeps_if)
     apply (rule valid_ret, simp add: caught_up_def)
    apply (rule valid_bindE [OF range], assumption, rule valid_conj_pure, rule specu, assumption+, simp)
    done
qed

lemma run_pass_keeps:
  assumes "honest (xd_chain xd) tr" "alone (xd_env xd)"
  shows "keeps (\<lambda>s. standing xd tr (w_db (fst s))) (run_pass xd spec wk lp)"
proof -
  have "keeps (\<lambda>s. standing xd tr (w_db (fst s))) (pass xd (best_head wk) spec)"
  proof (rule validI)
    fix s r s'
    assume "standing xd tr (w_db (fst s))" "pass xd (best_head wk) spec s = (Inr r, s')"
    with pass_valid [OF assms] show "standing xd tr (w_db (fst s'))"
      by (fastforce simp: standing_def caught_up_def dest!: validD_Inr split: option.splits)
  next
    fix s e s'
    assume "standing xd tr (w_db (fst s))" "pass xd (best_head wk) spec s = (Inl e, s')"
    with pass_valid [OF assms] show "standing xd tr (w_db (fst s'))"
      by (fastforce simp: standing_def dest!: validD_Inl)
  qed
  then show ?thesis unfolding run_pass_def
    by (intro keeps_bindE keeps_attempt) (auto intro!: keeps_bindE keeps_on_world keeps_now_utc valid_ret split: sum.splits option.splits)
qed

lemma run_passes_keeps:
  assumes "honest (xd_chain xd) tr" "alone (xd_env xd)"
  shows "keeps (\<lambda>s. standing xd tr (w_db (fst s))) (run_passes xd spec wakes lp)"
  by (induction wakes arbitrary: lp) (auto intro!: keeps_bindE run_pass_keeps [OF assms] valid_ret)

end
