(* ===== verification/IndexerBoot.thy ===== *)
theory IndexerBoot
  imports IndexerSync
begin

text \<open>The bootstrap of the username projection, what a boot leaves, and the properties of the projection.\<close>

section \<open>Bootstrap\<close>

text \<open>Before there is a checkpoint, every row is a confirmed one of some block of the chain.\<close>

definition partial_rows :: "ix_deps \<Rightarrow> ix_truth \<Rightarrow> ix_tables \<Rightarrow> bool" where
  "partial_rows xd tr t \<longleftrightarrow> rows_wf t \<and> ix_sync t = None \<and>
     (\<forall>a r. row_at t a = Some r \<longrightarrow> ur_speculative r = None \<and>
        (\<exists>k. ur_snapshot_hash r = tr_canon tr k \<and> chain_content xd tr k a = Some (row_content r)))"

definition scanned :: "ix_deps \<Rightarrow> ix_truth \<Rightarrow> nat \<Rightarrow> account set \<Rightarrow> ix_tables \<Rightarrow> bool" where
  "scanned xd tr k D t \<longleftrightarrow> partial_rows xd tr t \<and> (\<forall>a\<in>D. \<exists>r. row_at t a = Some r \<and> ur_snapshot_hash r = tr_canon tr k)"

definition at_snapshot :: "ix_deps \<Rightarrow> ix_truth \<Rightarrow> nat \<Rightarrow> assigned_username \<Rightarrow> bool" where
  "at_snapshot xd tr k u \<longleftrightarrow> au_snapshot_hash u = tr_canon tr k \<and> chain_content xd tr k (au_account u) = Some (user_content u)"

lemma upsert_scanned:
  "scanned xd tr k D t \<Longrightarrow> at_snapshot xd tr k u \<Longrightarrow> scanned xd tr k (insert (au_account u) D) (snd (upsert u number now t))"
  by (auto simp: scanned_def partial_rows_def at_snapshot_def upsert_def)

lemma upsert_all_run:
  "upsert_all xd now number us w = (Inr (), w') \<Longrightarrow> scanned xd tr k D (w_db w) \<Longrightarrow> list_all (at_snapshot xd tr k) us \<Longrightarrow>
     scanned xd tr k (D \<union> au_account ` set us) (w_db w')"
  by (induction us arbitrary: w D) (fastforce simp: inr_iffs dest!: ix_tx_Inr dest: upsert_scanned)+

lemma upsert_batch_valid:
  assumes "alone (xd_env xd)" "list_all (at_snapshot xd tr k) us"
  shows "valid (on_db (scanned xd tr k D)) (upsert_batch xd us number) (\<lambda>_. on_db (scanned xd tr k (D \<union> au_account ` set us)))
    (\<lambda>_. on_db (scanned xd tr k D))"
proof (rule validI)
  fix w a w'
  assume w: "scanned xd tr k D (w_db w)" and run: "upsert_batch xd us number w = (Inr a, w')"
  have "valid (same_db (w_db w)) (upsert_batch xd us number) (\<lambda>_. on_db (scanned xd tr k (D \<union> au_account ` set us))) (\<lambda>_. same_db (w_db w))"
    unfolding upsert_batch_def
    by (rule tx_then [OF assms(1)]) (use w assms(2) in \<open>auto simp: inr_iffs intro: upsert_all_run\<close>)
  with run show "scanned xd tr k (D \<union> au_account ` set us) (w_db w')" by (auto dest: validD_Inr)
next
  fix w e w'
  assume w: "scanned xd tr k D (w_db w)" and run: "upsert_batch xd us number w = (Inl e, w')"
  from run show "scanned xd tr k D (w_db w')" unfolding upsert_batch_def
    by (cases rule: transaction_cases) (use w assms(1) in \<open>auto simp: alone_def\<close>)
qed

abbreviation batch_accounts :: "scan_state \<Rightarrow> account set" where
  "batch_accounts sc \<equiv> au_account ` set (sc_batch sc)"

definition listed :: "ix_deps \<Rightarrow> ix_truth \<Rightarrow> nat \<Rightarrow> scan_entry list \<Rightarrow> account set" where
  "listed xd tr k es = {a. \<exists>c. Entry a c \<in> set es \<and> chain_content xd tr k a \<noteq> None}"

lemma scan_step_effect:
  assumes "list_all (at_snapshot xd tr k) (sc_batch sc)" "\<And>a c. e = Entry a c \<Longrightarrow> tr_consumers tr k a = Some c"
  shows "list_all (at_snapshot xd tr k) (sc_batch (scan_step xd (tr_canon tr k) (tr_prefix tr) e sc)) \<and>
    batch_accounts sc \<union> listed xd tr k [e] \<subseteq> batch_accounts (scan_step xd (tr_canon tr k) (tr_prefix tr) e sc) \<and>
    sc_iterator_errors (scan_step xd (tr_canon tr k) (tr_prefix tr) e sc) = sc_iterator_errors sc + (if e = IteratorError then 1 else 0)"
proof (cases e)
  case (Entry a c)
  show ?thesis
  proof (cases "decode_consumer (xd_ss58 xd) a c (tr_prefix tr) (tr_canon tr k) (xc_number (xd_chain xd) (tr_canon tr k))")
    case (Inl err)
    with Entry assms decode_consumer_Inl [OF Inl] show ?thesis by (auto simp: listed_def chain_content_def)
  next
    case (Inr u)
    with Entry assms decode_consumer_Inr [OF Inr] show ?thesis
      by (auto simp: listed_def chain_content_def at_snapshot_def)
  qed
qed (use assms in \<open>auto simp: listed_def\<close>)

definition scan_done :: "ix_deps \<Rightarrow> ix_truth \<Rightarrow> nat \<Rightarrow> account set \<Rightarrow> nat \<Rightarrow> scan_state \<Rightarrow> ix_tables \<Rightarrow> bool" where
  "scan_done xd tr k A errs sc t \<longleftrightarrow>
     (\<exists>D. scanned xd tr k D t \<and> A \<subseteq> D \<union> batch_accounts sc) \<and> list_all (at_snapshot xd tr k) (sc_batch sc) \<and> sc_iterator_errors sc = errs"

lemma scanned_partial: "scanned xd tr k D t \<Longrightarrow> partial_rows xd tr t"
  by (simp add: scanned_def)

lemma scan_entries_valid:
  assumes "alone (xd_env xd)" "\<And>a c. Entry a c \<in> set es \<Longrightarrow> tr_consumers tr k a = Some c"
    "list_all (at_snapshot xd tr k) (sc_batch sc)" "A \<subseteq> D \<union> batch_accounts sc"
  shows "valid (on_db (scanned xd tr k D)) (scan_entries xd page_size (tr_canon tr k) number (tr_prefix tr) es sc)
    (\<lambda>sc'. on_db (scan_done xd tr k (A \<union> listed xd tr k es)
       (sc_iterator_errors sc + length (filter (\<lambda>e. e = IteratorError) es)) sc')) (\<lambda>_. on_db (partial_rows xd tr))"
  using assms(2-)
proof (induction es arbitrary: sc D A)
  case Nil
  then show ?case by (auto simp: scan_done_def listed_def intro!: valid_ret)
next
  case (Cons e es)
  let ?sc = "scan_step xd (tr_canon tr k) (tr_prefix tr) e sc"
  have eff: "list_all (at_snapshot xd tr k) (sc_batch ?sc)" "batch_accounts sc \<union> listed xd tr k [e] \<subseteq> batch_accounts ?sc"
    "sc_iterator_errors ?sc = sc_iterator_errors sc + (if e = IteratorError then 1 else 0)"
    using scan_step_effect [of xd tr k sc e] Cons.prems(1,2) by auto
  have split: "A \<union> listed xd tr k (e # es) = (A \<union> listed xd tr k [e]) \<union> listed xd tr k es" by (auto simp: listed_def)
  have cover: "A \<union> listed xd tr k [e] \<subseteq> D \<union> batch_accounts ?sc" using Cons.prems(3) eff(2) by blast
  have rest: "\<And>a c. Entry a c \<in> set es \<Longrightarrow> tr_consumers tr k a = Some c" using Cons.prems(1) by simp
  have count: "sc_iterator_errors ?sc + length (filter (\<lambda>e. e = IteratorError) es) =
      sc_iterator_errors sc + length (filter (\<lambda>e. e = IteratorError) (e # es))" using eff(3) by simp
  show ?case unfolding scan_entries.simps Let_def split count [symmetric]
  proof (rule keeps_if)
    let ?sc' = "?sc\<lparr>sc_indexed := sc_indexed ?sc + length (sc_batch ?sc), sc_batch := []\<rparr>"
    have flush: "valid (on_db (scanned xd tr k D)) (upsert_batch xd (sc_batch ?sc) number)
        (\<lambda>_. on_db (scanned xd tr k (D \<union> batch_accounts ?sc))) (\<lambda>_. on_db (partial_rows xd tr))"
      by (rule valid_weaken [OF upsert_batch_valid [OF assms(1) eff(1)]]) (auto intro: scanned_partial)
    have next_page: "valid (on_db (scanned xd tr k (D \<union> batch_accounts ?sc)))
        (scan_entries xd page_size (tr_canon tr k) number (tr_prefix tr) es ?sc')
        (\<lambda>sc'. on_db (scan_done xd tr k (A \<union> listed xd tr k [e] \<union> listed xd tr k es)
           (sc_iterator_errors ?sc + length (filter (\<lambda>e. e = IteratorError) es)) sc')) (\<lambda>_. on_db (partial_rows xd tr))"
      using Cons.IH [of ?sc' "A \<union> listed xd tr k [e]" "D \<union> batch_accounts ?sc"] rest cover by simp
    show "valid (on_db (scanned xd tr k D))
        (bindE (upsert_batch xd (sc_batch ?sc) number) (\<lambda>_. scan_entries xd page_size (tr_canon tr k) number (tr_prefix tr) es ?sc'))
        (\<lambda>sc'. on_db (scan_done xd tr k (A \<union> listed xd tr k [e] \<union> listed xd tr k es)
           (sc_iterator_errors ?sc + length (filter (\<lambda>e. e = IteratorError) es)) sc')) (\<lambda>_. on_db (partial_rows xd tr))"
      by (rule valid_bindE [OF flush next_page])
    show "valid (on_db (scanned xd tr k D)) (scan_entries xd page_size (tr_canon tr k) number (tr_prefix tr) es ?sc)
        (\<lambda>sc'. on_db (scan_done xd tr k (A \<union> listed xd tr k [e] \<union> listed xd tr k es)
           (sc_iterator_errors ?sc + length (filter (\<lambda>e. e = IteratorError) es)) sc')) (\<lambda>_. on_db (partial_rows xd tr))"
      by (rule Cons.IH [OF rest eff(1) cover])
  qed
qed

lemma flush_batch_valid:
  assumes "alone (xd_env xd)"
  shows "valid (on_db (scan_done xd tr k A errs sc)) (flush_batch xd number sc)
    (\<lambda>sc'. on_db (\<lambda>t. scanned xd tr k A t \<and> sc_iterator_errors sc' = errs)) (\<lambda>_. on_db (partial_rows xd tr))"
proof -
  have grow: "scanned xd tr k A t" if "scanned xd tr k D t" "A \<subseteq> D" for A D t
    using that by (auto simp: scanned_def)
  show ?thesis
  proof (rule validI)
    fix w sc' w'
    assume w: "scan_done xd tr k A errs sc (w_db w)" and run: "flush_batch xd number sc w = (Inr sc', w')"
    from w obtain D where D: "scanned xd tr k D (w_db w)" "A \<subseteq> D \<union> batch_accounts sc" "list_all (at_snapshot xd tr k) (sc_batch sc)"
      "sc_iterator_errors sc = errs" by (auto simp: scan_done_def)
    from run D upsert_batch_valid [OF assms D(3), of D number] show "scanned xd tr k A (w_db w') \<and> sc_iterator_errors sc' = errs"
      by (auto simp: flush_batch_def inr_iffs split: if_splits intro: grow dest!: validD_Inr)
  next
    fix w e w'
    assume w: "scan_done xd tr k A errs sc (w_db w)" and run: "flush_batch xd number sc w = (Inl e, w')"
    then obtain D where D: "scanned xd tr k D (w_db w)" "list_all (at_snapshot xd tr k) (sc_batch sc)" by (auto simp: scan_done_def)
    from run D upsert_batch_valid [OF assms D(2), of D number] show "partial_rows xd tr (w_db w')"
      by (auto simp: flush_batch_def bindE_Inl_iff ret_def split: if_splits intro: scanned_partial dest!: validD_Inl)
  qed
qed

lemma all_listed:
  assumes "honest (xd_chain xd) tr" "xc_scan (xd_chain xd) n (tr_canon tr k) = Inr es" "IteratorError \<notin> set es"
    and "chain_content xd tr k a = Some x"
  shows "a \<in> listed xd tr k es"
proof -
  obtain c where "tr_consumers tr k a = Some c" using assms(4) by (cases "tr_consumers tr k a") (simp_all add: chain_content_def)
  with honest_scan_all [OF assms(1-3)] assms(4) show ?thesis
    unfolding listed_def by (metis (mono_tags, lifting) mem_Collect_eq option.distinct(1))
qed

lemma map_of_filter:
  "distinct (map fst xs) \<Longrightarrow> map_of (filter P xs) a = (case map_of xs a of Some r \<Rightarrow> if P (a, r) then Some r else None | None \<Rightarrow> None)"
  by (induction xs) (auto simp: map_of_eq_None_iff image_iff split: option.splits)

lemmas partial_rowsD = partial_rows_def [THEN iffD1, THEN conjunct2, THEN conjunct2, rule_format]
  partial_rows_def [THEN iffD1, THEN conjunct1, unfolded rows_wf_def]
  partial_rows_def [THEN iffD1, THEN conjunct2, THEN conjunct1]

lemma snapshot_row:
  assumes "honest (xd_chain xd) tr" "partial_rows xd tr t" "row_at t a = Some r" "ur_snapshot_hash r = tr_canon tr k"
  shows "ur_speculative r = None" "chain_content xd tr k a = Some (row_content r)"
proof -
  note r = partial_rowsD(1) [OF assms(2,3)]
  from r show "ur_speculative r = None" by (rule conjunct1)
  from r [THEN conjunct2] obtain k' where k': "ur_snapshot_hash r = tr_canon tr k'" "chain_content xd tr k' a = Some (row_content r)"
    by (elim exE conjE)
  have "tr_canon tr k' = tr_canon tr k" by (rule trans [OF k'(1) [symmetric] assms(4)])
  then have "xc_number (xd_chain xd) (tr_canon tr k') = xc_number (xd_chain xd) (tr_canon tr k)" by (rule arg_cong)
  then have "k' = k" unfolding honest_number [OF assms(1)] .
  with k'(2) show "chain_content xd tr k a = Some (row_content r)" by (simp only:)
qed

lemma delete_other_snapshots_row:
  "distinct (map fst (ix_rows t)) \<Longrightarrow> row_at (snd (delete_other_snapshots hash now t)) a =
     (case row_at t a of Some r \<Rightarrow> if ur_snapshot_hash r = hash then Some r else None | None \<Rightarrow> None)"
  by (simp add: delete_other_snapshots_def map_of_filter split: option.split)

lemma delete_other_snapshots_wf:
  "distinct (map fst (ix_rows t)) \<Longrightarrow> rows_wf (snd (delete_other_snapshots hash now t))"
  by (simp add: rows_wf_def delete_other_snapshots_def distinct_map_filter)

lemma delete_other_snapshots_projects:
  assumes "honest (xd_chain xd) tr" "scanned xd tr k D t" "\<And>a x. chain_content xd tr k a = Some x \<Longrightarrow> a \<in> D"
  shows "confirmed (snd (delete_other_snapshots (tr_canon tr k) now t)) = chain_content xd tr k"
proof
  fix a
  note P = assms(2) [unfolded scanned_def, THEN conjunct1]
  note D = assms(2) [unfolded scanned_def, THEN conjunct2, rule_format]
  note rows = delete_other_snapshots_row [OF partial_rowsD(2) [OF P]]
  show "confirmed (snd (delete_other_snapshots (tr_canon tr k) now t)) a = chain_content xd tr k a"
  proof (cases "\<exists>r. row_at t a = Some r \<and> ur_snapshot_hash r = tr_canon tr k")
    case True
    then obtain r where r: "row_at t a = Some r" "ur_snapshot_hash r = tr_canon tr k" by (elim exE conjE)
    show ?thesis unfolding confirmed_def rows r(1) snapshot_row(2) [OF assms(1) P r] by (simp only: option.case r(2) snapshot_row(1) [OF assms(1) P r] if_True simp_thms)
  next
    case False
    then have "chain_content xd tr k a = None" using D assms(3) by (metis option.exhaust)
    moreover have "row_at (snd (delete_other_snapshots (tr_canon tr k) now t)) a = None"
      using False unfolding rows by (simp split: option.split)
    ultimately show ?thesis unfolding confirmed_def by simp
  qed
qed

lemma partial_rows_subset:
  assumes "partial_rows xd tr t" "rows_wf t'" "ix_sync t' = ix_sync t" "\<And>a r. row_at t' a = Some r \<Longrightarrow> row_at t a = Some r"
  shows "partial_rows xd tr t'"
  unfolding partial_rows_def
proof (intro conjI allI impI)
  show "rows_wf t'" by (rule assms(2))
  show "ix_sync t' = None" using assms(3) partial_rowsD(3) [OF assms(1)] by (rule trans)
next
  fix a r
  assume "row_at t' a = Some r"
  note r = partial_rowsD(1) [OF assms(1) assms(4) [OF this]]
  show "ur_speculative r = None" by (rule r [THEN conjunct1])
  show "\<exists>k. ur_snapshot_hash r = tr_canon tr k \<and> chain_content xd tr k a = Some (row_content r)" by (rule r [THEN conjunct2])
qed

lemma delete_other_snapshots_partial:
  assumes "partial_rows xd tr t"
  shows "partial_rows xd tr (snd (delete_other_snapshots hash now t))"
proof (rule partial_rows_subset [OF assms])
  note wf = partial_rowsD(2) [OF assms]
  show "rows_wf (snd (delete_other_snapshots hash now t))" by (rule delete_other_snapshots_wf [OF wf])
  show "ix_sync (snd (delete_other_snapshots hash now t)) = ix_sync t" by (simp add: delete_other_snapshots_def)
  show "row_at t a = Some r" if "row_at (snd (delete_other_snapshots hash now t)) a = Some r" for a r
    using that unfolding delete_other_snapshots_row [OF wf] by (simp split: option.splits if_splits)
qed

lemma valid_sql_alone:
  assumes "alone E" "\<And>now t. P t \<Longrightarrow> Q (snd (st now t))" "\<And>t. P t \<Longrightarrow> X t"
  shows "valid (on_db P) (map_err f (sql E st)) (\<lambda>_. on_db Q) (\<lambda>_. on_db X)"
  by (rule valid_map_err, rule validI)
     (use assms in \<open>auto simp: sql_def alone_def Let_def split_beta split: option.splits\<close>)

lemma finish_bootstrap_valid:
  assumes "honest (xd_chain xd) tr" "alone (xd_env xd)" "xc_scan (xd_chain xd) m (tr_canon tr k) = Inr entries"
  shows "valid (on_db (\<lambda>t. scanned xd tr k (listed xd tr k entries) t \<and>
        sc_iterator_errors sc = length (filter (\<lambda>e. e = IteratorError) entries)))
      (finish_bootstrap xd (tr_canon tr k) k trigger sc)
      (\<lambda>rep. on_db (projects xd tr (br_snapshot_number rep))) (\<lambda>_. on_db (partial_rows xd tr))"
proof (cases "sc_iterator_errors sc = 0")
  case False
  then show ?thesis by (auto simp: finish_bootstrap_def intro!: valid_throw intro: scanned_partial)
next
  case True
  have del: "valid (on_db (\<lambda>t. scanned xd tr k (listed xd tr k entries) t \<and> IteratorError \<notin> set entries))
      (ix_sql xd (delete_other_snapshots (tr_canon tr k)))
      (\<lambda>_. on_db (\<lambda>t. partial_rows xd tr t \<and> confirmed t = chain_content xd tr k)) (\<lambda>_. on_db (partial_rows xd tr))"
    by (rule valid_sql_alone [OF assms(2)])
       (auto intro: delete_other_snapshots_partial scanned_partial delete_other_snapshots_projects [OF assms(1)]
         all_listed [OF assms(1,3)])
  have put: "valid (on_db (\<lambda>t. partial_rows xd tr t \<and> confirmed t = chain_content xd tr k))
      (ix_sql xd (write_checkpoint k (tr_canon tr k) g i j)) (\<lambda>_. on_db (projects xd tr k)) (\<lambda>_. on_db (partial_rows xd tr))" for g i j
    by (rule valid_sql_alone [OF assms(2)])
       (auto simp: write_checkpoint_def projects_def partial_rows_def rows_wf_def confirmed_def fun_eq_iff)
  have "valid (on_db (\<lambda>t. scanned xd tr k (listed xd tr k entries) t \<and> IteratorError \<notin> set entries))
      (finish_bootstrap xd (tr_canon tr k) k trigger sc)
      (\<lambda>rep. on_db (projects xd tr (br_snapshot_number rep))) (\<lambda>_. on_db (partial_rows xd tr))"
    unfolding finish_bootstrap_def using True by (auto intro!: valid_bindE [OF del] valid_bindE [OF put] valid_ret)
  then show ?thesis
    by (rule valid_weaken) (use True in \<open>auto simp: filter_empty_conv\<close>)
qed

text \<open>A bootstrap that reports success leaves a projection that stands at its snapshot; one that fails leaves no checkpoint.\<close>

lemma bootstrap_valid:
  assumes "honest (xd_chain xd) tr" "alone (xd_env xd)"
  shows "valid (on_db (partial_rows xd tr)) (bootstrap_locked xd page_size trigger)
    (\<lambda>rep. on_db (projects xd tr (br_snapshot_number rep))) (\<lambda>_. on_db (partial_rows xd tr))"
  unfolding bootstrap_locked_def
proof (intro remote_then lift_then)
  fix hash n number prefix entries m
  assume hash: "map_error IxChain (xc_current (xd_chain xd) n) = Inr hash"
    and number: "number_for_db (xc_number (xd_chain xd) hash) = Inr number"
    and prefix: "read_prefix xd hash = Inr prefix"
    and entries: "map_error IxStorage (xc_scan (xd_chain xd) m hash) = Inr entries"
  define k where "k = xc_number (xd_chain xd) hash"
  have c: "hash = tr_canon tr k" "number = k" using hash number honest_current [OF assms(1)]
    by (auto simp: k_def number_for_db_def split: if_splits)
  have p: "prefix = tr_prefix tr" using read_prefix_Inr [OF assms(1), of k] prefix c by simp
  have e: "xc_scan (xd_chain xd) m (tr_canon tr k) = Inr entries" using entries c by simp
  let ?sc = "\<lparr>sc_batch = [], sc_indexed = 0, sc_skipped = 0, sc_iterator_errors = 0\<rparr>"
  let ?errs = "length (filter (\<lambda>e. e = IteratorError) entries)"
  have scan: "valid (on_db (partial_rows xd tr)) (scan_entries xd page_size (tr_canon tr k) k (tr_prefix tr) entries ?sc)
      (\<lambda>sc. on_db (scan_done xd tr k (listed xd tr k entries) ?errs sc)) (\<lambda>_. on_db (partial_rows xd tr))"
    using scan_entries_valid [OF assms(2), where es = entries and tr = tr and k = k and sc = ?sc and A = "{}" and D = "{}"]
      honest_scan [OF assms(1) e] by (simp add: scanned_def [where D = "{}"])
  show "valid (on_db (partial_rows xd tr))
      (bindE (scan_entries xd page_size hash number prefix entries ?sc) (\<lambda>sc.
       bindE (flush_batch xd number sc) (finish_bootstrap xd hash number trigger)))
      (\<lambda>rep. on_db (projects xd tr (br_snapshot_number rep))) (\<lambda>_. on_db (partial_rows xd tr))"
    unfolding c p
    by (rule valid_bindE [OF scan], rule valid_bindE [OF flush_batch_valid [OF assms(2)]], rule finish_bootstrap_valid [OF assms e])
qed

section \<open>Boot\<close>

text \<open>What a boot can find: an unfinished bootstrap or an empty database, a projection that stands, or the projection of another chain.\<close>

definition bootable :: "ix_deps \<Rightarrow> ix_truth \<Rightarrow> ix_tables \<Rightarrow> bool" where
  "bootable xd tr t \<longleftrightarrow> partial_rows xd tr t \<or> standing xd tr t \<or>
     (\<exists>s g. ix_sync t = Some s \<and> ss_genesis s = Some g \<and> g \<noteq> xc_genesis (xd_chain xd))"

definition reconciled :: "ix_deps \<Rightarrow> ix_truth \<Rightarrow> checkpoint_state \<Rightarrow> ix_tables \<Rightarrow> bool" where
  "reconciled xd tr st t \<longleftrightarrow> (if st = Usable then standing xd tr t else partial_rows xd tr t)"

lemma sql_then:
  assumes "alone E" "\<And>now r t'. st now t = (r, t') \<Longrightarrow> valid (same_db t') (g r) Q (\<lambda>_. on_db X)" "X t"
  shows "valid (same_db t) (bindE (map_err f (sql E st)) g) Q (\<lambda>_. on_db X)"
proof -
  have "valid (same_db t) (map_err f (sql E st)) (\<lambda>r w. \<exists>now. st now t = (r, w_db w)) (\<lambda>_. on_db X)"
    by (rule valid_map_err, rule validI) (use assms(1,3) in \<open>auto simp: sql_def alone_def Let_def split_beta split: option.splits\<close>)
  then show ?thesis
  proof (rule valid_bindE)
    show "valid (\<lambda>w. \<exists>now. st now t = (r, w_db w)) (g r) Q (\<lambda>_. on_db X)" for r
      using assms(2) by (fastforce simp: valid_def split: sum.splits prod.splits)
  qed
qed

lemma standing_stamped: "standing xd tr t \<Longrightarrow> ix_sync t = Some s \<Longrightarrow> standing xd tr (snd (stamp_genesis g now t))"
  by (auto simp: standing_def projects_def stamp_genesis_def rows_wf_def confirmed_def fun_eq_iff)

lemma partial_rows_empty: "partial_rows xd tr \<lparr>ix_rows = [], ix_sync = None\<rparr>"
  by (simp add: partial_rows_def rows_wf_def)

lemma discard_projection_valid:
  assumes "alone (xd_env xd)" "bootable xd tr t"
  shows "valid (same_db t) (discard_projection xd) (\<lambda>st. on_db (reconciled xd tr st)) (\<lambda>_. on_db (bootable xd tr))"
  unfolding discard_projection_def
proof (rule valid_error)
  have empty: "w_db w = \<lparr>ix_rows = [], ix_sync = None\<rparr>" if "ix_rows (w_db w) = []" "ix_sync (w_db w) = None" for w :: "ix_tables world"
    using that by simp
  show "valid (same_db t) (transaction (xd_env xd) IxDatabase (\<lambda>now.
       bindE (ix_tx xd now (\<lambda>_ t. ((), t\<lparr>ix_sync := None\<rparr>))) (\<lambda>_.
       bindE (ix_tx xd now (\<lambda>_ t. (length (ix_rows t), t\<lparr>ix_rows := []\<rparr>))) (\<lambda>_.
       ret (Commit Discarded))))) (\<lambda>st. on_db (reconciled xd tr st)) (\<lambda>_. same_db t)"
    by (rule tx_then [OF assms(1)]) (auto simp: inr_iffs tx_sql_Inr_iff reconciled_def intro!: partial_rows_empty [THEN back_subst [where P = "partial_rows xd tr"]])
qed (simp add: assms(2))

lemma reconcile_chain_identity_valid:
  assumes "alone (xd_env xd)" "bootable xd tr t"
  shows "valid (same_db t) (reconcile_chain_identity xd) (\<lambda>st. on_db (reconciled xd tr st)) (\<lambda>_. on_db (bootable xd tr))"
  unfolding reconcile_chain_identity_def
proof (rule sql_then [where X = "bootable xd tr", OF assms(1) _ assms(2)])
  fix now r t'
  assume r: "(map_option ss_genesis (ix_sync t), t) = (r, t')"
  note foreign = partial_rowsD(3) [of xd tr t]
  have stands: "standing xd tr t" if "ix_sync t = Some s" "ss_genesis s \<in> {None, Some (xc_genesis (xd_chain xd))}" for s
    using that assms(2) foreign unfolding bootable_def by auto
  have partial: "partial_rows xd tr t" if "ix_sync t = None"
    using that assms(2) unfolding bootable_def standing_def projects_def by simp
  have stamp: "valid (same_db t) (bindE (ix_sql xd (stamp_genesis (xc_genesis (xd_chain xd)))) (\<lambda>_. ret Usable))
      (\<lambda>st. on_db (reconciled xd tr st)) (\<lambda>_. on_db (bootable xd tr))" if "ix_sync t = Some s" "ss_genesis s = None" for s
  proof (rule sql_then [where X = "bootable xd tr", OF assms(1) _ assms(2)])
    fix now u t2
    assume "stamp_genesis (xc_genesis (xd_chain xd)) now t = (u, t2)"
    then have "standing xd tr t2" using standing_stamped [OF stands that(1), of s] that by (metis insertI1 snd_conv)
    then show "valid (same_db t2) (ret Usable) (\<lambda>st. on_db (reconciled xd tr st)) (\<lambda>_. on_db (bootable xd tr))"
      by (intro valid_ret) (simp add: reconciled_def)
  qed
  show "valid (same_db t') (case r of None \<Rightarrow> ret Absent
      | Some None \<Rightarrow> bindE (ix_sql xd (stamp_genesis (xc_genesis (xd_chain xd)))) (\<lambda>_. ret Usable)
      | Some (Some stored) \<Rightarrow> if stored = xc_genesis (xd_chain xd) then ret Usable else discard_projection xd)
    (\<lambda>st. on_db (reconciled xd tr st)) (\<lambda>_. on_db (bootable xd tr))"
  proof (cases "ix_sync t")
    case None
    then have "r = None" "t' = t" using r by auto
    with partial [OF None] show ?thesis by (simp only: option.case) (intro valid_ret, simp add: reconciled_def)
  next
    case (Some s)
    then have r': "r = Some (ss_genesis s)" "t' = t" using r by auto
    have usable: "valid (same_db t) (ret Usable) (\<lambda>st. on_db (reconciled xd tr st)) (\<lambda>_. on_db (bootable xd tr))"
      if "ss_genesis s = Some (xc_genesis (xd_chain xd))"
      by (rule valid_ret) (simp add: reconciled_def stands [OF Some] that)
    show ?thesis unfolding r' option.case
    proof (cases "ss_genesis s")
      case None
      then show "valid (same_db t) (case ss_genesis s of None \<Rightarrow> bindE (ix_sql xd (stamp_genesis (xc_genesis (xd_chain xd)))) (\<lambda>_. ret Usable)
          | Some stored \<Rightarrow> if stored = xc_genesis (xd_chain xd) then ret Usable else discard_projection xd)
        (\<lambda>st. on_db (reconciled xd tr st)) (\<lambda>_. on_db (bootable xd tr))" using stamp [OF Some None] by (simp only: option.case)
    next
      case (Some g)
      then show "valid (same_db t) (case ss_genesis s of None \<Rightarrow> bindE (ix_sql xd (stamp_genesis (xc_genesis (xd_chain xd)))) (\<lambda>_. ret Usable)
          | Some stored \<Rightarrow> if stored = xc_genesis (xd_chain xd) then ret Usable else discard_projection xd)
        (\<lambda>st. on_db (reconciled xd tr st)) (\<lambda>_. on_db (bootable xd tr))"
        unfolding Some option.case by (intro keeps_if usable discard_projection_valid [OF assms]) (simp only: Some)
    qed
  qed
qed

lemma ensure_seeded_valid:
  assumes "honest (xd_chain xd) tr" "alone (xd_env xd)"
  shows "valid (on_db (bootable xd tr)) (ensure_seeded xd page_size) (\<lambda>_. on_db (standing xd tr)) (\<lambda>_. on_db (bootable xd tr))"
proof -
  have partial: "partial_rows xd tr t \<Longrightarrow> bootable xd tr t" for t by (simp add: bootable_def)
  have seed: "valid (on_db (partial_rows xd tr)) (bindE (bootstrap_locked xd page_size trigger) (\<lambda>r. ret (Some r)))
      (\<lambda>_. on_db (standing xd tr)) (\<lambda>_. on_db (bootable xd tr))" for trigger
    by (rule valid_ret_then, rule valid_weaken [OF bootstrap_valid [OF assms]]) (auto simp: standing_def partial)
  have id: "valid (on_db (bootable xd tr)) (reconcile_chain_identity xd) (\<lambda>st. on_db (reconciled xd tr st)) (\<lambda>_. on_db (bootable xd tr))"
    using reconcile_chain_identity_valid [OF assms(2)] by (fastforce simp: valid_def split: sum.splits prod.splits)
  show ?thesis unfolding ensure_seeded_def
    apply (rule valid_bindE [OF valid_sql_alone [OF assms(2), where Q = "bootable xd tr"]], simp, assumption)
    apply (rule valid_bindE [OF id])
    subgoal for _ st by (cases st) (auto simp: reconciled_def intro!: valid_ret seed)
    done
qed

section \<open>Properties of the projection\<close>

text \<open>A chain for the witnesses: the node finalizes block 1 after the bootstrap, and in that block account 9 takes a username.\<close>

definition demo_consumer :: consumer where
  "demo_consumer = \<lparr>cn_identifier_key = [1], cn_lite = as_bytes ''al.01'', cn_full = None\<rparr>"

definition demo_truth :: ix_truth where
  "demo_truth = \<lparr>tr_canon = (\<lambda>k. replicate k 0), tr_consumers = (\<lambda>k a. if 0 < k \<and> a = [9] then Some demo_consumer else None), tr_prefix = 42\<rparr>"

definition demo_node :: ix_chain where
  "demo_node = \<lparr>xc_current = (\<lambda>n. Inr (if n < 6 then [] else [0])), xc_block = (\<lambda>n k. Inr (replicate k 0)), xc_number = length, xc_best = (\<lambda>n. Inr 1),
     xc_events = (\<lambda>n h. Inr (if length h = 1 then [(LitePersonRegistered, Inr [9])] else [])),
     xc_consumer = (\<lambda>n h a. Inr (if 0 < length h \<and> a = [9] then Some demo_consumer else None)), xc_prefix = (\<lambda>h. Inr 42),
     xc_scan = (\<lambda>n h. Inr (if length h = 0 then [] else [Entry [9] demo_consumer])), xc_genesis = [7]\<rparr>"

definition demo_xd :: ix_deps where
  "demo_xd = \<lparr>xd_env = quiet 5, xd_lock = (\<lambda>_. Inr True), xd_chain = demo_node, xd_ss58 = \<lparr>sx_blake2 = (\<lambda>b. [1, 2]), sx_base58 = map (\<lambda>b. char_of (unat b))\<rparr>\<rparr>"

definition demo_seeded :: "(index_error + bootstrap_report option) \<times> ix_tables world" where
  "demo_seeded = ensure_seeded demo_xd 100 \<lparr>w_db = \<lparr>ix_rows = [], ix_sync = None\<rparr>, w_step = 0\<rparr>"

definition demo_passes :: "(index_error + loop_state) \<times> (ix_tables world \<times> spec_cache)" where
  "demo_passes = run_passes demo_xd True [WTimer, WBlock 1] \<lparr>lp_failures = 0, lp_freshness = None\<rparr> (snd demo_seeded, Map.empty)"

lemma demo_honest: "honest (xd_chain demo_xd) demo_truth"
  unfolding honest_def
  by (auto simp: demo_xd_def demo_node_def demo_truth_def accounts_from_events_def and_then_def map_error_def split: if_splits)

lemma demo_alone: "alone (xd_env demo_xd)"
  by (simp add: alone_def demo_xd_def)

lemmas demo_defs = demo_xd_def demo_node_def bindE_def ret_def throw_def map_err_def sql_def tx_sql_def remote_def lift_result_def map_error_def
  and_then_def transaction_def on_first_def attempt_def now_utc_def Let_def

lemma demo_seeds: "demo_seeded = (Inr (Some \<lparr>br_indexed = 0, br_skipped = 0, br_snapshot_number = 0, br_trigger = FreshDatabase\<rparr>),
   \<lparr>w_db = \<lparr>ix_rows = [], ix_sync = Some \<lparr>ss_number = 0, ss_hash = [], ss_genesis = Some [7], ss_synced_at = 5, ss_records = 0,
     ss_failures = 0, ss_updated_at = 5\<rparr>\<rparr>, w_step = 6\<rparr>)"
  unfolding demo_seeded_def ensure_seeded_def reconcile_chain_identity_def bootstrap_locked_def
  apply (simp add: demo_defs number_for_db_def read_prefix_def validate_prefix_def flush_batch_def finish_bootstrap_def
      delete_other_snapshots_def write_checkpoint_def)
  done

lemma demo_lite: "from_utf8 (cn_lite demo_consumer) = Some ''al.01''" "cn_full demo_consumer = None"
  by code_simp+

lemma demo_consumer_decodes: "\<exists>u. decode_consumer sx a demo_consumer p h n = Inr u"
  by (simp add: decode_consumer_def demo_lite and_then_def ok_or_def rsplit_dot_def is_digit_def decode_full_def)

lemma demo_pass:
  "\<exists>rep s. pass demo_xd None False (snd demo_seeded, Map.empty) = (Inr (Some rep), s) \<and> ir_to_block (pr_finalized rep) = 1 \<and>
     chain_content demo_xd demo_truth 1 [9] \<noteq> None"
proof -
  obtain u where u: "decode_consumer \<lparr>sx_blake2 = \<lambda>b. [1, 2], sx_base58 = map (\<lambda>b. char_of (unat b))\<rparr> [9] demo_consumer 42 [0] (Suc 0) = Inr u"
    using demo_consumer_decodes by blast
  have c: "chain_content demo_xd demo_truth 1 [9] \<noteq> None" using demo_consumer_decodes [of "xd_ss58 demo_xd" "[9]" 42 "[]" 0]
    by (elim exE) (simp add: chain_content_def demo_truth_def decoded_content_def user_content_def)
  have "\<exists>rep s. pass demo_xd None False (snd demo_seeded, Map.empty) = (Inr (Some rep), s) \<and> ir_to_block (pr_finalized rep) = 1"
    unfolding demo_seeds pass_def
    by (simp add: u demo_defs finalized_head_number_def read_checkpoint_def index_finalized_range_locked_def index_from_checkpoint_def
      index_block_def accounts_from_events_def dedupe_accounts_def commit_block_def read_prefix_def validate_prefix_def number_for_db_def
      advance_checkpoint_def report_idle_def upsert_def)
  with c show ?thesis by iprover
qed





end
