(* ===== verification/Spec2Isabelle.thy ===== *)
theory Spec2Isabelle
  imports Writer Intake Services IndexerBoot
begin

text \<open>
  Verification of the device-uniqueness backend.

  \<^bold>\<open>The program.\<close> Mobile clients claim usernames through an HTTP API and a separate process writes the claims to two
  chains. The parts, under \<open>src/crates\<close>:

  \<^item> \<open>device-attestation\<close>: the API. A client consumes a challenge, proves its key and its device (Android key attestation,
    Play Integrity or App Attest) and gets an access token; with the token it checks names and claims one. A
    claim passes the gates on the device (a voucher, Widevine evidence or DeviceCheck) and is stored as a row of the outbox
    table \<open>username_reservations\<close>.
  \<^item> \<open>device-attestation/src/queue.rs\<close>: the queue. Rows wait as \<open>QUEUED\<close>; the advancer promotes them to \<open>RESERVED\<close>, and a
    janitor drains the queue when no advancer lives.
  \<^item> \<open>device-attestation/src/chain\<close>: the writer. One process at a time holds the lease; it claims due rows, submits them to the
    People chain and to Asset Hub (the dotNS half of a row) and records each outcome with a statement
    that only takes effect while its lease is live.
  \<^item> \<open>invite-tickets\<close>, \<open>turn\<close>, \<open>username-indexer\<close>, \<open>notifications\<close>: sibling services behind the same access tokens. They hand
    out invite tickets from a pool registered on chain, issue TURN credentials, keep a searchable projection of
    the usernames on chain, and relay push messages.
  \<^item> \<open>jwt-verify\<close>, \<open>http-common\<close>, \<open>chain-client\<close>: access tokens, configuration readers, the rate limiter, field errors, batched
    storage reads and the reading of batch results, shared by the services.

  \<^bold>\<open>How code is represented.\<close> A struct is a record, an enum a datatype, an asynchronous function that may fail a state
  transformer with a sum as its result (\<open>prog\<close> in \<open>Prelude\<close>; \<open>bindE\<close> is the \<open>?\<close> operator, \<open>attempt\<close> a \<open>match\<close> on the result).
  Machine integers are words where they can wrap or saturate and numbers with their bound written out elsewhere.
  A database is a record of tables and a SQL statement a function \<open>stmt\<close> on it. A program runs in a \<open>world\<close>: the tables and a
  counter of steps. Before each statement and each critical section the environment \<open>e_others\<close> may change the
  tables as other processes would, the clock \<open>e_clock\<close> is read and the statement may fail by \<open>e_fault\<close>, each a function
  of the step, so a theorem for all environments covers every interleaving of statements, every clock and every fault.
  A transaction sees one state of the tables and either commits or rolls back. A remote call
  (\<open>remote\<close>) gets an answer that may be anything at each step. Text is its bytes, as \<open>char list\<close>.

  \<^bold>\<open>Theories and what they show.\<close>

  \<^item> \<open>Prelude\<close>: programs, worlds, statements, transactions, and a small Hoare logic: \<open>valid P m Q X\<close> with a post-condition for
    success and one for failure, \<open>keeps I m\<close> for invariants, with the rule collection \<open>prog_intro\<close>; and lemma bundles
    that read a finished run backwards (\<open>inr_iffs\<close>, \<open>inl_iffs\<close>). \<open>Std\<close>: what is used of the Rust standard library.
    \<open>Transactions\<close>: how a transaction can end. \<open>SingleUse\<close>: the locale of a resource that is consumed at most once.
  \<^item> \<open>Schema\<close>, \<open>Lease\<close>, \<open>Outbox\<close> (\<open>migrations\<close>, \<open>chain/lease.rs\<close>, \<open>chain/outbox.rs\<close>, \<open>widevine/store.rs\<close>): tables and statements. A
    lease is a fencing lease (locale \<open>fencing_lease\<close>); a guarded transition without the lease changes nothing; a
    username is inserted once.
  \<^item> \<open>Queue\<close> (\<open>queue.rs\<close>): the estimate a client sees is the iteration in which the advancer promotes its claim; no claim starves.
  \<^item> \<open>Batch\<close>, \<open>Messages\<close>, \<open>WriterCore\<close>, \<open>Lanes\<close>, \<open>Engine\<close> (\<open>chain-client/src/batch.rs\<close>, \<open>signature.rs\<close>, \<open>dotns.rs\<close>, \<open>chain/writer/\<close>): batch
    sizing, signed messages, and the drain of one lane, written once over a record of the lane's methods as the code is
    over its \<open>Lane\<close> trait. \<open>EngineInvariant\<close>, \<open>EngineTheorems\<close>, \<open>EngineOutcomes\<close>: the locales \<open>lane_invariant\<close> and
    \<open>outcome_lane\<close>, interpreted for both lanes: a row is assigned only on evidence from the chain, a superseded writer
    writes nothing, and what each outcome does to each row. \<open>Writer\<close> (\<open>chain/writer.rs\<close>, \<open>writer/passes.rs\<close>): the same
    for the whole process over any number of lease terms.
  \<^item> \<open>Env\<close> (\<open>config.rs\<close> of the API, \<open>WriterConfig\<close>) and \<open>Services\<close> (the siblings' configuration, key documents): a
    configuration that loads is well formed, and a sibling authenticates what the issuer signs.
  \<^item> \<open>Jwt\<close>, \<open>Der\<close>, \<open>KeyAttest\<close>, \<open>PlayIntegrity\<close>, \<open>AppAttest\<close>, \<open>Sessions\<close> (\<open>jwt-verify\<close>, \<open>auth/\<close>): the DER reader accepts exactly
    canonical encodings, each verifier accepts exactly its specification, assertion counters increase, refresh
    tokens refine a store of live sessions, and under hard enforcement a token is issued only on evidence.
  \<^item> \<open>Request\<close>, \<open>People\<close>, \<open>RateLimit\<close>, \<open>DeviceCheck\<close>, \<open>Widevine\<close>, \<open>Eligibility\<close>, \<open>Register\<close>, \<open>HandlerInvariant\<close>, \<open>Intake\<close> (\<open>usernames/\<close>,
    \<open>chain/people.rs\<close>, \<open>chain-client/src/storage.rs\<close>, \<open>http-common/src/rate_limiter.rs\<close>, \<open>device_check.rs\<close>, \<open>widevine.rs\<close>, \<open>eligibility.rs\<close>): validation
    accepts exactly the well-formed signed requests; an accepted claim is stored as it was validated and
    atomically with the device or voucher it spends; a device gets one free claim, a voucher is burned once; the handlers
    keep the keys of the schema and never panic.
  \<^item> \<open>Tickets\<close> (\<open>invite-tickets\<close>): a ticket is handed out once, a claim answers with a ticket that was available, and the pool only
    offers keys the chain accepted.
  \<^item> \<open>Turn\<close>, \<open>TurnProof\<close> (\<open>turn\<close>): a credential is genuine and alive, the breaker is exact, an unserved request is not charged, and a
    redeemed proof is a fresh proof against a root the chain held.
  \<^item> \<open>Indexer\<close>, \<open>IndexerSync\<close>, \<open>IndexerBoot\<close> (\<open>username-indexer\<close>): the confirmed rows are the usernames on chain at the checkpoint,
    from any boot and through any failed pass, and a pass that reports has caught up.

  \<^bold>\<open>Bounds and fuel.\<close> Loops over data are recursion on the data. The service loops that never end (\<open>run_writer\<close>, the
  advancer, \<open>run_pool\<close>, \<open>run_refresher\<close>, \<open>run_passes\<close>) take a number of rounds or a list of wakes; the theorems hold for every
  number, so for every prefix of the endless run. Retry loops have the code's own bounds (four attempts for DeviceCheck, the retries
  of \<open>retry_db\<close>) and need no fuel. The DER reader recurses on what is left of its input.

  \<^bold>\<open>Parameters and hypotheses.\<close> Hashes, signatures, HMAC, AES, base64, hex, CBOR, X.509 parsing, SCALE, SS58 decoding, JSON parsing,
  the JWT library, the governor quota, random bytes, clocks, HTTP transports and the nodes are arguments. What
  is relied on is a hypothesis with a name: \<open>jwt_token_ok\<close> (a signed token decodes to its claims), \<open>self_delimiting\<close> (SCALE),
  \<open>honest\<close> (a node answers for the finalized chain, and a consumer entry changes only in a block with an event
  that names its account), \<open>stable\<close> and \<open>alone\<close> (what the other processes leave unchanged). Each property with a hypothesis has a
  witness that runs the definitions on a concrete input.

  \<^bold>\<open>Not modelled.\<close> Axum routers, middleware, OpenAPI documents, metrics, tracing and log lines, connection pools and
  process start-up (\<open>dub\<close>, the \<open>http.rs\<close> of the API): they have no state of their own that a property could be about. The
  code and documentation generators (\<open>apidoc-gen\<close>, \<open>routegen\<close>, \<open>chain-types\<close>, which is generated metadata). Dialling,
  signing and nonce reads of \<open>chain-client\<close>, which call into the subxt library: the writer sees them as answers of a
  remote step. The notifications relay, which builds provider requests and
  keeps no state. The search route of the indexer.
\<close>

end
